(* ===== verification/Prelude.thy ===== *)
theory Prelude
  imports Main "HOL-Library.Char_ord" "HOL-Library.List_Lexorder" "HOL-Library.Sublist"
begin

text \<open>
  Vocabulary shared by every component of the development: identifiers, clock readings,
  Go error values, programs that read and write a world, and the lemma collections the
  component proofs use.

  A Go function that talks to the database is a \<open>prog\<close>: it maps a world to a result and a
  world.  The world is returned on the error branch too, because the code runs its
  statements outside a transaction and what was written before the error stays written.
  Every database statement consumes one entry of the fault schedule of the world (see the
  theory World): it may succeed, fail, or never return because the process is killed
  there.  \<open>Killed\<close> is the one outcome that no error handler of the program sees.
\<close>

section \<open>Identifiers, time, errors\<close>

type_synonym uuid = nat
type_synonym gtime = int        \<comment> \<open>nanoseconds since the Unix epoch\<close>
type_synonym duration = int     \<comment> \<open>nanoseconds, as Go's time.Duration\<close>

abbreviation (input) uuid_Nil :: uuid where "uuid_Nil \<equiv> 0"

abbreviation (input) Second :: duration where "Second \<equiv> 1000000000"
abbreviation (input) Minute :: duration where "Minute \<equiv> 60 * Second"
abbreviation (input) Hour :: duration where "Hour \<equiv> 60 * Minute"

text \<open>
  The sentinels that \<open>errors.Is\<close> tells apart, and one constructor for every error the
  callers treat alike.  \<open>ErrMFARequired\<close> is the sentinel of \<open>authz\<close>, \<open>ErrSecondFactor\<close> the one of the same
  name in \<open>service/auth.go\<close>.  \<open>ErrDatabase\<close> is a failed statement, \<open>Panic\<close> a run-time panic (a nil pointer
  followed), \<open>Killed\<close> the death of the process; the last two pass every error check on the way up.
\<close>

datatype gerror =
    ErrDenied | ErrMFARequired | ErrOutOfScope
  | ErrNotFound | ErrConflict | ErrBadRotation | ErrBadUser
  | ErrInvalidCredentials | ErrAccountLocked | ErrSecondFactor | ErrSessionInvalid
  | ErrWouldLockOut | ErrDatabase | ErrOther string | Panic | Killed

type_synonym 'a result = "gerror + 'a"

definition is_ok :: "'a result \<Rightarrow> bool" where
  "is_ok r = (case r of Inl _ \<Rightarrow> False | Inr _ \<Rightarrow> True)"

lemma is_ok_simps [simp]: "is_ok (Inr x)" "\<not> is_ok (Inl e)"
  by (simp_all add: is_ok_def)

lemma is_ok_iff: "is_ok r \<longleftrightarrow> (\<exists>x. r = Inr x)"
  by (cases r) auto

fun bindR :: "'a result \<Rightarrow> ('a \<Rightarrow> 'b result) \<Rightarrow> 'b result" where
  "bindR (Inl e) f = Inl e"
| "bindR (Inr x) f = f x"

lemma bindR_eq_Inr [simp]: "bindR r f = Inr y \<longleftrightarrow> (\<exists>x. r = Inr x \<and> f x = Inr y)"
  by (cases r) auto

section \<open>Programs over a world\<close>

type_synonym ('w, 'a) prog = "'w \<Rightarrow> 'a result \<times> 'w"

definition ret :: "'a \<Rightarrow> ('w, 'a) prog" where
  "ret x = (\<lambda>w. (Inr x, w))"

definition fail :: "gerror \<Rightarrow> ('w, 'a) prog" where
  "fail e = (\<lambda>w. (Inl e, w))"

definition lift :: "'a result \<Rightarrow> ('w, 'a) prog" where
  "lift r = (\<lambda>w. (r, w))"

definition get :: "('w \<Rightarrow> 'a) \<Rightarrow> ('w, 'a) prog" where
  "get f = (\<lambda>w. (Inr (f w), w))"

definition modify :: "('w \<Rightarrow> 'w) \<Rightarrow> ('w, unit) prog" where
  "modify f = (\<lambda>w. (Inr (), f w))"

definition andThen :: "('w, 'a) prog \<Rightarrow> ('a \<Rightarrow> ('w, 'b) prog) \<Rightarrow> ('w, 'b) prog" where
  "andThen m f = (\<lambda>w. case m w of (Inl e, w') \<Rightarrow> (Inl e, w') | (Inr x, w') \<Rightarrow> f x w')"

text \<open>
  \<open>attempt m\<close> is the Go idiom that looks at an error instead of returning it.  A killed
  process looks at nothing, and a panic unwinds past it.
\<close>

definition uncaught :: "gerror \<Rightarrow> bool" where
  "uncaught e \<longleftrightarrow> e = Killed \<or> e = Panic"

definition attempt :: "('w, 'a) prog \<Rightarrow> ('w, 'a result) prog" where
  "attempt m = (\<lambda>w. case m w of
       (Inl e, w') \<Rightarrow> if uncaught e then (Inl e, w') else (Inr (Inl e), w')
     | (Inr x, w') \<Rightarrow> (Inr (Inr x), w'))"

text \<open>Following a pointer that may be nil.\<close>

definition deref :: "'a option \<Rightarrow> ('w, 'a) prog" where
  "deref p = (case p of None \<Rightarrow> fail Panic | Some x \<Rightarrow> ret x)"

text \<open>A \<open>for\<close> loop over a slice whose body may return early with an error.\<close>

fun forEach :: "'b list \<Rightarrow> ('b \<Rightarrow> ('w, unit) prog) \<Rightarrow> ('w, unit) prog" where
  "forEach [] f = ret ()"
| "forEach (x # xs) f = andThen (f x) (\<lambda>_. forEach xs f)"

text \<open>A loop that carries a value, and one that may stop the enclosing function.\<close>

fun foldEach :: "'b list \<Rightarrow> 'c \<Rightarrow> ('b \<Rightarrow> 'c \<Rightarrow> ('w, 'c) prog) \<Rightarrow> ('w, 'c) prog" where
  "foldEach [] c f = ret c"
| "foldEach (x # xs) c f = andThen (f x c) (\<lambda>c'. foldEach xs c' f)"

lemma andThen_assoc: "andThen (andThen m f) g = andThen m (\<lambda>x. andThen (f x) g)"
  and andThen_ret: "andThen (ret x) h = h x"
  and andThen_fail: "andThen (fail e) h = fail e"
  by (auto simp: andThen_def ret_def fail_def fun_eq_iff split: prod.split sum.split)

named_theorems prog_simps "unfolding of the program combinators"

lemmas [prog_simps] =
  ret_def fail_def lift_def get_def modify_def andThen_def attempt_def Let_def

subsection \<open>Reasoning about programs\<close>

text \<open>
  \<open>upholds P m Q\<close>: started in a world that satisfies \<open>P\<close>, the program ends with a result
  and a world that satisfy \<open>Q\<close>, whichever branch it takes.
\<close>

definition upholds :: "('w \<Rightarrow> bool) \<Rightarrow> ('w, 'a) prog \<Rightarrow> ('a result \<Rightarrow> 'w \<Rightarrow> bool) \<Rightarrow> bool" where
  "upholds P m Q \<longleftrightarrow> (\<forall>w. P w \<longrightarrow> Q (fst (m w)) (snd (m w)))"

abbreviation keeps :: "('w \<Rightarrow> bool) \<Rightarrow> ('w, 'a) prog \<Rightarrow> bool" where
  "keeps I m \<equiv> upholds I m (\<lambda>_. I)"

named_theorems keeps_intros "introduction rules: a program keeps an invariant"

lemma upholdsI: "(\<And>w. P w \<Longrightarrow> Q (fst (m w)) (snd (m w))) \<Longrightarrow> upholds P m Q"
  by (simp add: upholds_def)

lemma upholdsD: "upholds P m Q \<Longrightarrow> P w \<Longrightarrow> Q (fst (m w)) (snd (m w))"
  by (simp add: upholds_def)

lemma keepsD: "keeps I m \<Longrightarrow> m w = (r, w') \<Longrightarrow> I w \<Longrightarrow> I w'"
  by (force simp: upholds_def)

text \<open>\<open>wlp m Q w\<close>: if \<open>m\<close> started in \<open>w\<close> returns a value, the value and the world satisfy \<open>Q\<close>.\<close>

definition wlp :: "('w, 'a) prog \<Rightarrow> ('a \<Rightarrow> 'w \<Rightarrow> bool) \<Rightarrow> 'w \<Rightarrow> bool" where
  "wlp m Q w \<longleftrightarrow> (case m w of (Inl _, _) \<Rightarrow> True | (Inr x, w') \<Rightarrow> Q x w')"

named_theorems wlp_intros "what holds when a program returns a value"

lemma wlp_andThen [wlp_intros]: "wlp m (\<lambda>x. wlp (f x) Q) w \<Longrightarrow> wlp (andThen m f) Q w"
  by (auto simp: wlp_def andThen_def split: prod.splits sum.splits)

lemma wlp_ret [wlp_intros]: "Q x w \<Longrightarrow> wlp (ret x) Q w"
  and wlp_fail [wlp_intros]: "wlp (fail e) Q w"
  and wlp_lift [wlp_intros]: "(\<And>x. r = Inr x \<Longrightarrow> Q x w) \<Longrightarrow> wlp (lift r) Q w"
  and wlp_get [wlp_intros]: "Q (g w) w \<Longrightarrow> wlp (get g) Q w"
  by (auto simp: wlp_def prog_simps split: sum.splits)

lemma wlp_modify [wlp_intros]: "Q () (h w) \<Longrightarrow> wlp (modify h) Q w"
  by (simp add: wlp_def prog_simps)

lemma wlp_deref [wlp_intros]: "(\<And>x. p = Some x \<Longrightarrow> Q x w) \<Longrightarrow> wlp (deref p) Q w"
  by (cases p) (simp_all add: deref_def wlp_fail wlp_ret)

lemma wlp_attempt [wlp_intros]:
  "wlp m (\<lambda>x. Q (Inr x)) w \<Longrightarrow> (\<And>e w'. m w = (Inl e, w') \<Longrightarrow> Q (Inl e) w') \<Longrightarrow> wlp (attempt m) Q w"
  by (auto simp: wlp_def attempt_def split: prod.splits sum.splits)

lemma wlp_if [wlp_intros]:
  "(b \<Longrightarrow> wlp m Q w) \<Longrightarrow> (\<not> b \<Longrightarrow> wlp n Q w) \<Longrightarrow> wlp (if b then m else n) Q w"
  by simp

lemma wlp_case_option [wlp_intros]:
  "(z = None \<Longrightarrow> wlp m Q w) \<Longrightarrow> (\<And>x. z = Some x \<Longrightarrow> wlp (f x) Q w) \<Longrightarrow>
     wlp (case z of None \<Rightarrow> m | Some x \<Rightarrow> f x) Q w"
  by (cases z) auto

lemma wlp_case_result [wlp_intros]:
  "(\<And>e. z = Inl e \<Longrightarrow> wlp (g e) Q w) \<Longrightarrow> (\<And>x. z = Inr x \<Longrightarrow> wlp (f x) Q w) \<Longrightarrow>
     wlp (case z of Inl e \<Rightarrow> g e | Inr x \<Rightarrow> f x) Q w"
  by (cases z) auto

lemma wlpD: "wlp m Q w \<Longrightarrow> m w = (Inr x, w') \<Longrightarrow> Q x w'"
  by (simp add: wlp_def)

lemma wlp_weaken: "wlp m P w \<Longrightarrow> (\<And>x w'. P x w' \<Longrightarrow> Q x w') \<Longrightarrow> wlp m Q w"
  by (auto simp: wlp_def split: prod.splits sum.splits)

lemma wlp_True [simp]: "wlp m (\<lambda>_ _. True) w"
  by (auto simp: wlp_def split: prod.split sum.split)

lemma upholds_andThen:
  assumes "upholds P m R" and "\<And>x. upholds (R (Inr x)) (f x) Q"
    and "\<And>e w. R (Inl e) w \<Longrightarrow> Q (Inl e) w"
  shows "upholds P (andThen m f) Q"
proof (rule upholdsI)
  fix w assume "P w"
  with assms(1) have R: "R (fst (m w)) (snd (m w))" by (rule upholdsD)
  show "Q (fst (andThen m f w)) (snd (andThen m f w))"
  proof (cases "m w")
    case (Pair r w')
    then show ?thesis
      using R assms(2,3) by (cases r) (auto simp: andThen_def upholds_def)
  qed
qed

lemma upholds_if: "(b \<Longrightarrow> upholds P m Q) \<Longrightarrow> (\<not> b \<Longrightarrow> upholds P n Q) \<Longrightarrow> upholds P (if b then m else n) Q"
  by simp

lemma upholds_weaken: "upholds P m Q \<Longrightarrow> (\<And>w. P' w \<Longrightarrow> P w) \<Longrightarrow> upholds P' m Q"
  by (simp add: upholds_def)

lemma upholds_case_option: "(z = None \<Longrightarrow> upholds P m Q) \<Longrightarrow> (\<And>x. z = Some x \<Longrightarrow> upholds P (f x) Q) \<Longrightarrow>
     upholds P (case z of None \<Rightarrow> m | Some x \<Rightarrow> f x) Q"
  by (cases z) auto

lemma upholds_ret: "(\<And>w. P w \<Longrightarrow> Q (Inr x) w) \<Longrightarrow> upholds P (ret x) Q"
  and upholds_fail: "(\<And>w. P w \<Longrightarrow> Q (Inl e) w) \<Longrightarrow> upholds P (fail e) Q"
  by (simp_all add: upholds_def ret_def fail_def)

lemma keeps_ret [keeps_intros]: "keeps I (ret x)"
  and keeps_fail [keeps_intros]: "keeps I (fail e)"
  and keeps_lift [keeps_intros]: "keeps I (lift r)"
  and keeps_get [keeps_intros]: "keeps I (get f)"
  by (simp_all add: upholds_def prog_simps)

lemma keeps_andThen [keeps_intros]:
  "keeps I m \<Longrightarrow> (\<And>x. keeps I (f x)) \<Longrightarrow> keeps I (andThen m f)"
  by (rule upholds_andThen) auto

lemma keeps_attempt [keeps_intros]: "keeps I m \<Longrightarrow> keeps I (attempt m)"
  by (auto simp: upholds_def attempt_def split: prod.splits sum.splits)

lemma keeps_deref [keeps_intros]: "keeps I (deref p)"
  by (cases p) (simp_all add: deref_def keeps_ret keeps_fail)

lemma keeps_forEach [keeps_intros]: "(\<And>x. keeps I (f x)) \<Longrightarrow> keeps I (forEach xs f)"
  by (induction xs) (auto intro: keeps_intros)

lemma keeps_forEach_mem:
  "(\<And>x. x \<in> set xs \<Longrightarrow> keeps I (f x)) \<Longrightarrow> keeps I (forEach xs f)"
  by (induction xs) (auto intro: keeps_intros)

lemma keeps_foldEach [keeps_intros]: "(\<And>x c. keeps I (f x c)) \<Longrightarrow> keeps I (foldEach xs c f)"
  by (induction xs arbitrary: c) (auto intro: keeps_intros)

lemma keeps_foldEach_mem:
  "(\<And>x c. x \<in> set xs \<Longrightarrow> keeps I (f x c)) \<Longrightarrow> keeps I (foldEach xs c f)"
  by (induction xs arbitrary: c) (auto intro: keeps_andThen keeps_ret)

lemma keeps_if [keeps_intros]: "keeps I m \<Longrightarrow> keeps I n \<Longrightarrow> keeps I (if b then m else n)"
  by simp

lemma keeps_case_option [keeps_intros]:
  "keeps I m \<Longrightarrow> (\<And>x. keeps I (f x)) \<Longrightarrow> keeps I (case z of None \<Rightarrow> m | Some x \<Rightarrow> f x)"
  by (cases z) auto

lemma keeps_case_result [keeps_intros]:
  "(\<And>e. keeps I (g e)) \<Longrightarrow> (\<And>x. keeps I (f x)) \<Longrightarrow> keeps I (case z of Inl e \<Rightarrow> g e | Inr x \<Rightarrow> f x)"
  by (cases z) auto

lemma keeps_case_list [keeps_intros]:
  "keeps I m \<Longrightarrow> (\<And>x xs. keeps I (f x xs)) \<Longrightarrow> keeps I (case z of [] \<Rightarrow> m | x # xs \<Rightarrow> f x xs)"
  by (cases z) auto

lemma keeps_case_prod [keeps_intros]:
  "(\<And>a b. keeps I (f a b)) \<Longrightarrow> keeps I (case z of (a, b) \<Rightarrow> f a b)"
  by (cases z) auto

text \<open>The same with a fact about the value that is passed on.\<close>

lemma upholds_andThen_result:
  assumes "keeps I m" and "\<And>w. I w \<Longrightarrow> wlp m (\<lambda>x _. R x) w" and "\<And>x. R x \<Longrightarrow> upholds I (f x) Q"
    and "\<And>e w. I w \<Longrightarrow> Q (Inl e) w"
  shows "upholds I (andThen m f) Q"
proof (rule upholdsI)
  fix w assume I: "I w"
  obtain r w' where m: "m w = (r, w')" by (cases "m w")
  have I': "I w'" by (rule keepsD [OF assms(1) m I])
  show "Q (fst (andThen m f w)) (snd (andThen m f w))"
  proof (cases r)
    case (Inr x)
    with assms(2) [OF I] m have "R x" by (simp add: wlp_def)
    from upholdsD [OF assms(3) [OF this] I'] show ?thesis by (simp add: andThen_def m Inr)
  qed (simp add: andThen_def m assms(4) I')
qed

lemma keeps_andThen_result:
  assumes "keeps I m" and "\<And>w. I w \<Longrightarrow> wlp m (\<lambda>x _. R x) w" and "\<And>x. R x \<Longrightarrow> keeps I (f x)"
  shows "keeps I (andThen m f)"
  by (rule upholds_andThen_result [OF assms])

lemma upholds_andThen_keeps:
  "keeps I m \<Longrightarrow> (\<And>x. upholds I (f x) Q) \<Longrightarrow> (\<And>e w. I w \<Longrightarrow> Q (Inl e) w) \<Longrightarrow> upholds I (andThen m f) Q"
  by (rule upholds_andThen_result [where R = "\<lambda>_. True"]) simp_all

lemma wlp_foldEach:
  assumes "R c" and "I w"
    and "\<And>x c w. R c \<Longrightarrow> I w \<Longrightarrow> x \<in> set xs \<Longrightarrow> wlp (f x c) (\<lambda>c' w'. R c' \<and> I w') w"
  shows "wlp (foldEach xs c f) (\<lambda>c' w'. R c' \<and> I w') w"
  using assms
proof (induction xs arbitrary: c w)
  case (Cons x xs c w)
  have "wlp (f x c) (\<lambda>c' w'. wlp (foldEach xs c' f) (\<lambda>c' w'. R c' \<and> I w') w') w"
    by (rule wlp_weaken [OF Cons.prems(3) [OF Cons.prems(1,2)]]) (use Cons.IH Cons.prems(3) in auto)
  then show ?case by (simp add: wlp_andThen)
qed (simp add: wlp_ret)

lemma wlp_keeps: "keeps I m \<Longrightarrow> I w \<Longrightarrow> wlp m Q w \<Longrightarrow> wlp m (\<lambda>x w'. Q x w' \<and> I w') w"
  using keepsD [of I m] by (fastforce simp: wlp_def split: prod.splits sum.splits)

section \<open>Lists\<close>

lemma set_filter_map [simp]: "set (map f (filter P xs)) = f ` {x \<in> set xs. P x}"
  by auto

lemma filter_update_eq:
  "(\<And>x. P (f x) = P x) \<Longrightarrow> filter P (map f xs) = map f (filter P xs)"
  by (induction xs) auto

lemma filter_unique: "distinct (map f xs) \<Longrightarrow> x \<in> set xs \<Longrightarrow> filter (\<lambda>y. f y = f x) xs = [x]"
proof (induction xs)
  case (Cons a xs)
  then have "a = x \<Longrightarrow> filter (\<lambda>y. f y = f x) xs = []"
    by (metis (mono_tags, lifting) distinct.simps(2) filter_False image_eqI list.map(2) list.set_map)
  moreover have "f a = f x \<Longrightarrow> a = x" using Cons.prems by (auto simp: image_iff)
  ultimately show ?case using Cons by auto
qed simp

lemma length_filter_map_le:
  "(\<And>x. Q (f x) \<Longrightarrow> P x) \<Longrightarrow> length (filter Q (map f xs)) \<le> length (filter P xs)"
  by (induction xs) (auto simp: le_SucI)

end
