(* ===== verification/GoLib.thy ===== *)
theory GoLib
  imports Prelude
begin

text \<open>
  The part of Go's \<open>strings\<close> package the source uses, on byte strings (one \<open>char\<close> is one
  byte of the UTF-8 encoding).  White space is what \<open>unicode.IsSpace\<close> accepts, given by its
  UTF-8 encodings: a lead byte never occurs inside another encoding, so recognising the
  encodings byte-wise at either end of a string is what the decoder does.
\<close>

section \<open>White space\<close>

definition white_space :: "string list" where
  "white_space =
     [[CHR 0x09], [CHR 0x0A], [CHR 0x0B], [CHR 0x0C], [CHR 0x0D], [CHR 0x20],
     [CHR 0xC2, CHR 0x85], [CHR 0xC2, CHR 0xA0], [CHR 0xE1, CHR 0x9A, CHR 0x80],
     [CHR 0xE2, CHR 0x80, CHR 0x80], [CHR 0xE2, CHR 0x80, CHR 0x81],
     [CHR 0xE2, CHR 0x80, CHR 0x82], [CHR 0xE2, CHR 0x80, CHR 0x83],
     [CHR 0xE2, CHR 0x80, CHR 0x84], [CHR 0xE2, CHR 0x80, CHR 0x85],
     [CHR 0xE2, CHR 0x80, CHR 0x86], [CHR 0xE2, CHR 0x80, CHR 0x87],
     [CHR 0xE2, CHR 0x80, CHR 0x88], [CHR 0xE2, CHR 0x80, CHR 0x89],
     [CHR 0xE2, CHR 0x80, CHR 0x8A], [CHR 0xE2, CHR 0x80, CHR 0xA8],
     [CHR 0xE2, CHR 0x80, CHR 0xA9], [CHR 0xE2, CHR 0x80, CHR 0xAF],
     [CHR 0xE2, CHR 0x81, CHR 0x9F], [CHR 0xE3, CHR 0x80, CHR 0x80]]"

text \<open>Length of the white-space rune at the front, 0 when there is none.\<close>

definition space_len :: "string list \<Rightarrow> string \<Rightarrow> nat" where
  "space_len ps s = (case List.find (\<lambda>u. u \<noteq> [] \<and> prefix u s) ps of None \<Rightarrow> 0 | Some u \<Rightarrow> length u)"

lemma space_len_le: "space_len ps s \<le> length s"
  by (auto simp: space_len_def find_Some_iff split: option.splits dest: prefix_length_le)

lemma space_len_Nil [simp]: "space_len ps [] = 0"
  using space_len_le [of ps "[]"] by simp

function strip :: "string list \<Rightarrow> string \<Rightarrow> string" where
  "strip ps s = (if space_len ps s = 0 then s else strip ps (drop (space_len ps s) s))"
  by pat_completeness auto
termination
proof (relation "measure (\<lambda>(ps, s). length s)")
  fix ps s assume "space_len ps s \<noteq> 0"
  with space_len_le [of ps s] show "((ps, drop (space_len ps s) s), ps, s) \<in> measure (\<lambda>(ps, s). length s)"
    by auto
qed simp

declare strip.simps [simp del]

text \<open>\<open>orString\<close> of \<open>service/rotation.go\<close>: the first of the two that is not empty.\<close>

definition orString :: "string \<Rightarrow> string \<Rightarrow> string" where
  "orString v def = (if v = [] then def else v)"

definition trim_space :: "string \<Rightarrow> string" where
  "trim_space s = rev (strip (map rev white_space) (rev (strip white_space s)))"

lemma strip_id: "space_len ps s = 0 \<Longrightarrow> strip ps s = s"
  by (simp add: strip.simps [of ps s])

lemma space_len_strip: "space_len ps (strip ps s) = 0"
proof (induction ps s rule: strip.induct)
  case (1 ps s)
  then show ?case
    by (cases "space_len ps s = 0") (simp_all add: strip.simps [of ps s])
qed

lemma strip_idem [simp]: "strip ps (strip ps s) = strip ps s"
  by (rule strip_id) (rule space_len_strip)

text \<open>A carriage return at the end is white space of its own.\<close>

lemma white_space_cr: "u \<in> set white_space \<Longrightarrow> CHR 0x0D \<in> set u \<Longrightarrow> u = [CHR 0x0D]"
  by (simp add: white_space_def) (elim disjE; simp)

lemma space_len_snoc_cr: "s \<noteq> [] \<Longrightarrow> space_len white_space (s @ [CHR 0x0D]) = space_len white_space s"
proof -
  assume s: "s \<noteq> []"
  have "prefix u (s @ [CHR 0x0D]) \<longleftrightarrow> prefix u s" if "u \<in> set white_space" for u
    using white_space_cr [OF that] s by (cases s) (auto simp: prefix_append prefix_Cons)
  then have "List.find (\<lambda>u. u \<noteq> [] \<and> prefix u (s @ [CHR 0x0D])) white_space
      = List.find (\<lambda>u. u \<noteq> [] \<and> prefix u s) white_space"
    by (intro find_cong) auto
  then show ?thesis by (simp only: space_len_def)
qed

lemma space_len_cr: "space_len white_space [CHR 0x0D] = 1" "space_len (map rev white_space) (CHR 0x0D # s) = 1"
  by (simp_all add: space_len_def white_space_def)

lemma strip_snoc_cr:
  "strip white_space (s @ [CHR 0x0D]) = (if strip white_space s = [] then [] else strip white_space s @ [CHR 0x0D])"
proof (induction "length s" arbitrary: s rule: less_induct)
  case less
  show ?case
  proof (cases "s = [] \<or> space_len white_space s = 0")
    case True
    then show ?thesis
      by (cases "s = []") (simp_all add: strip.simps [of _ "[CHR 0x0D]"] space_len_cr strip_id space_len_snoc_cr)
  next
    case False
    let ?d = "drop (space_len white_space s) s"
    have d: "strip white_space s = strip white_space ?d"
      "strip white_space (s @ [CHR 0x0D]) = strip white_space (?d @ [CHR 0x0D])"
      using False space_len_le [of white_space s]
      by (simp_all add: strip.simps [of _ s] strip.simps [of _ "s @ _"] space_len_snoc_cr)
    show ?thesis using less [of ?d] False by (simp add: d)
  qed
qed

lemma trim_space_snoc_cr: "trim_space (s @ [CHR 0x0D]) = trim_space s"
proof -
  have "strip (map rev white_space) (CHR 0x0D # r) = strip (map rev white_space) r" for r
    by (simp add: strip.simps [of _ "_ # _"] space_len_cr)
  then show ?thesis by (simp add: trim_space_def strip_snoc_cr)
qed

section \<open>Splitting and joining\<close>

text \<open>\<open>strings.Split\<close> with a one-byte separator; never the empty list.\<close>

fun split_on :: "char \<Rightarrow> string \<Rightarrow> string list" where
  "split_on c [] = [[]]"
| "split_on c (x # xs) =
     (if x = c then [] # split_on c xs
      else (case split_on c xs of [] \<Rightarrow> [[x]] | y # ys \<Rightarrow> (x # y) # ys))"

text \<open>\<open>strings.Join\<close>.\<close>

fun join_with :: "string \<Rightarrow> string list \<Rightarrow> string" where
  "join_with sep [] = []"
| "join_with sep [x] = x"
| "join_with sep (x # y # ys) = x @ sep @ join_with sep (y # ys)"

text \<open>\<open>strings.Cut\<close> with a one-byte separator.\<close>

fun cut :: "char \<Rightarrow> string \<Rightarrow> string \<times> string \<times> bool" where
  "cut c [] = ([], [], False)"
| "cut c (x # xs) =
     (if x = c then ([], xs, True)
      else (case cut c xs of (a, b, f) \<Rightarrow> (x # a, b, f)))"

lemma split_on_nonempty [simp]: "split_on c s \<noteq> []"
  by (induction s) (auto split: list.splits)

lemma join_Cons: "ys \<noteq> [] \<Longrightarrow> join_with sep (x # ys) = x @ sep @ join_with sep ys"
  by (cases ys) auto

lemma join_split [simp]: "join_with [c] (split_on c s) = s"
proof (induction s)
  case (Cons x xs)
  then show ?case
  proof (cases "split_on c xs")
    case (Cons y ys)
    with \<open>join_with [c] (split_on c xs) = xs\<close> show ?thesis
      by (cases ys) (auto simp: join_Cons)
  qed simp
qed simp

lemma split_no_sep: "c \<notin> set s \<Longrightarrow> split_on c s = [s]"
  by (induction s) auto

lemma split_append_sep: "c \<notin> set s \<Longrightarrow> split_on c (s @ c # t) = s # split_on c t"
  by (induction s) auto

lemma split_join:
  "xs \<noteq> [] \<Longrightarrow> (\<forall>x\<in>set xs. c \<notin> set x) \<Longrightarrow> split_on c (join_with [c] xs) = xs"
proof (induction xs)
  case (Cons x xs)
  then show ?case
    by (cases xs) (simp_all add: split_no_sep split_append_sep)
qed simp

lemma split_no_sep_mem: "x \<in> set (split_on c s) \<Longrightarrow> c \<notin> set x"
  by (induction s arbitrary: x) (auto split: if_splits list.splits)

lemma join_snoc: "xs \<noteq> [] \<Longrightarrow> join_with sep (xs @ [y]) = join_with sep xs @ sep @ y"
proof (induction xs)
  case (Cons x xs)
  then show ?case by (cases "xs = []") (simp_all add: join_Cons)
qed simp

lemma last_join: "last xs \<noteq> [] \<Longrightarrow> xs \<noteq> [] \<Longrightarrow> join_with sep xs \<noteq> [] \<and> last (join_with sep xs) = last (last xs)"
  by (induction xs) (auto simp: join_Cons split: if_splits)

text \<open>\<open>strings.ReplaceAll(s, "\r\n", "\n")\<close>.\<close>

abbreviation CR :: char where "CR \<equiv> CHR 0x0D"
abbreviation LF :: char where "LF \<equiv> CHR 0x0A"

fun crlf_to_lf :: "string \<Rightarrow> string" where
  "crlf_to_lf (a # b # s) = (if a = CR \<and> b = LF then LF # crlf_to_lf s else a # crlf_to_lf (b # s))"
| "crlf_to_lf s = s"

lemma crlf_to_lf_id: "CR \<notin> set s \<Longrightarrow> crlf_to_lf s = s"
  by (induction s rule: crlf_to_lf.induct) auto

lemma no_crlf_no_cr_Nil [simp]: "crlf_to_lf s = [] \<longleftrightarrow> s = []"
  by (cases s rule: crlf_to_lf.cases) auto

text \<open>\<open>strings.TrimSuffix(s, "\n")\<close>.\<close>

definition trim_suffix_lf :: "string \<Rightarrow> string" where
  "trim_suffix_lf s = (if s \<noteq> [] \<and> last s = LF then butlast s else s)"

text \<open>
  \<open>strings.ToLower\<close> as far as its result is compared with ASCII names: upper-case ASCII, and
  the two other runes whose lower case is an ASCII letter (U+0130 and U+212A).
\<close>

definition lower_char :: "char \<Rightarrow> char" where
  "lower_char c = (case map_of (zip ''ABCDEFGHIJKLMNOPQRSTUVWXYZ'' ''abcdefghijklmnopqrstuvwxyz'') c of
       Some d \<Rightarrow> d | None \<Rightarrow> c)"

fun to_lower :: "string \<Rightarrow> string" where
  "to_lower (a # b # c # s) =
     (if [a, b, c] = [CHR 0xE2, CHR 0x84, CHR 0xAA] then CHR ''k'' # to_lower s
      else if [a, b] = [CHR 0xC4, CHR 0xB0] then CHR ''i'' # to_lower (c # s)
      else lower_char a # to_lower (b # c # s))"
| "to_lower [a, b] =
     (if [a, b] = [CHR 0xC4, CHR 0xB0] then [CHR ''i''] else [lower_char a, lower_char b])"
| "to_lower [a] = [lower_char a]"
| "to_lower [] = []"

text \<open>Decimal printing of a non-negative integer, Go's \<open>%d\<close>.\<close>

fun show_nat :: "nat \<Rightarrow> string" where
  "show_nat n = (if n < 10 then [''0123456789'' ! n] else show_nat (n div 10) @ [''0123456789'' ! (n mod 10)])"

declare show_nat.simps [simp del]

text \<open>\<open>%0*d\<close>.\<close>

definition pad :: "nat \<Rightarrow> nat \<Rightarrow> string" where
  "pad width n = (let s = show_nat n in replicate (width - length s) (CHR ''0'') @ s)"

text \<open>\<open>hex.EncodeToString\<close>.\<close>

definition hex_digit :: "nat \<Rightarrow> char" where
  "hex_digit n = ''0123456789abcdef'' ! n"

definition hex_byte :: "char \<Rightarrow> string" where
  "hex_byte c = [hex_digit (of_char c div 16), hex_digit (of_char c mod 16)]"

definition hex_encode :: "string \<Rightarrow> string" where
  "hex_encode s = concat (map hex_byte s)"

end
