(* ===== verification/Authz.thy ===== *)
theory Authz
  imports GoLib
begin

text \<open>
  The permission model (\<open>internal/authz\<close>): the closed list of permissions, the seeded roles,
  and the subject behind a request with its effective permissions.

  A Go \<open>Permission\<close> is a string and stays one, because tokens and roles read from the
  database may hold strings that are no permission of this build.  The two maps of a subject
  only ever hold \<open>true\<close>, so they are sets.  A zero \<open>time.Time\<close> is \<open>None\<close>.
\<close>

section \<open>Permissions (permissions.go)\<close>

type_synonym permission = string

abbreviation PermKeyRead :: permission where "PermKeyRead \<equiv> ''key.read''"
abbreviation PermKeyWrite :: permission where "PermKeyWrite \<equiv> ''key.write''"
abbreviation PermKeyDelete :: permission where "PermKeyDelete \<equiv> ''key.delete''"
abbreviation PermKeyRotate :: permission where "PermKeyRotate \<equiv> ''key.rotate''"
abbreviation PermKeyRevoke :: permission where "PermKeyRevoke \<equiv> ''key.revoke''"
abbreviation PermKeyImport :: permission where "PermKeyImport \<equiv> ''key.import''"
abbreviation PermKeyAdopt :: permission where "PermKeyAdopt \<equiv> ''key.adopt''"
abbreviation PermKeyReveal :: permission where "PermKeyReveal \<equiv> ''key.reveal''"
abbreviation PermKeyRevealBreakGlass :: permission where "PermKeyRevealBreakGlass \<equiv> ''key.reveal_break_glass''"
abbreviation PermTargetRead :: permission where "PermTargetRead \<equiv> ''target.read''"
abbreviation PermTargetWrite :: permission where "PermTargetWrite \<equiv> ''target.write''"
abbreviation PermTargetDelete :: permission where "PermTargetDelete \<equiv> ''target.delete''"
abbreviation PermDeployExecute :: permission where "PermDeployExecute \<equiv> ''deploy.execute''"
abbreviation PermDeployDryRun :: permission where "PermDeployDryRun \<equiv> ''deploy.dry_run''"
abbreviation PermReconcileRun :: permission where "PermReconcileRun \<equiv> ''reconcile.run''"
abbreviation PermCredentialRead :: permission where "PermCredentialRead \<equiv> ''credential.read''"
abbreviation PermCredentialWrite :: permission where "PermCredentialWrite \<equiv> ''credential.write''"
abbreviation PermCredentialReveal :: permission where "PermCredentialReveal \<equiv> ''credential.reveal''"
abbreviation PermRotationRead :: permission where "PermRotationRead \<equiv> ''rotation.read''"
abbreviation PermRotationWrite :: permission where "PermRotationWrite \<equiv> ''rotation.write''"
abbreviation PermRotationExecute :: permission where "PermRotationExecute \<equiv> ''rotation.execute''"
abbreviation PermRotationApprove :: permission where "PermRotationApprove \<equiv> ''rotation.approve''"
abbreviation PermRotationAbort :: permission where "PermRotationAbort \<equiv> ''rotation.abort''"
abbreviation PermBackupRead :: permission where "PermBackupRead \<equiv> ''backup.read''"
abbreviation PermBackupCreate :: permission where "PermBackupCreate \<equiv> ''backup.create''"
abbreviation PermBackupRestore :: permission where "PermBackupRestore \<equiv> ''backup.restore''"
abbreviation PermRollback :: permission where "PermRollback \<equiv> ''changeset.rollback''"
abbreviation PermJobRead :: permission where "PermJobRead \<equiv> ''job.read''"
abbreviation PermJobWrite :: permission where "PermJobWrite \<equiv> ''job.write''"
abbreviation PermJobCancel :: permission where "PermJobCancel \<equiv> ''job.cancel''"
abbreviation PermAuditRead :: permission where "PermAuditRead \<equiv> ''audit.read''"
abbreviation PermAuditVerify :: permission where "PermAuditVerify \<equiv> ''audit.verify''"
abbreviation PermAuditExport :: permission where "PermAuditExport \<equiv> ''audit.export''"
abbreviation PermVaultStatus :: permission where "PermVaultStatus \<equiv> ''vault.status''"
abbreviation PermVaultSeal :: permission where "PermVaultSeal \<equiv> ''vault.seal''"
abbreviation PermVaultUnseal :: permission where "PermVaultUnseal \<equiv> ''vault.unseal''"
abbreviation PermVaultRotate :: permission where "PermVaultRotate \<equiv> ''vault.rotate_kek''"
abbreviation PermUserRead :: permission where "PermUserRead \<equiv> ''user.read''"
abbreviation PermUserWrite :: permission where "PermUserWrite \<equiv> ''user.write''"
abbreviation PermRoleRead :: permission where "PermRoleRead \<equiv> ''role.read''"
abbreviation PermRoleWrite :: permission where "PermRoleWrite \<equiv> ''role.write''"
abbreviation PermTokenRead :: permission where "PermTokenRead \<equiv> ''api_token.read''"
abbreviation PermTokenWrite :: permission where "PermTokenWrite \<equiv> ''api_token.write''"
abbreviation PermWebhookRead :: permission where "PermWebhookRead \<equiv> ''webhook.read''"
abbreviation PermWebhookWrite :: permission where "PermWebhookWrite \<equiv> ''webhook.write''"
abbreviation PermSettingsRead :: permission where "PermSettingsRead \<equiv> ''settings.read''"
abbreviation PermSettingsWrite :: permission where "PermSettingsWrite \<equiv> ''settings.write''"

definition AllPermissions :: "permission list" where
  "AllPermissions = [
    PermKeyRead, PermKeyWrite, PermKeyDelete, PermKeyRotate, PermKeyRevoke, PermKeyImport,
    PermKeyAdopt, PermKeyReveal, PermKeyRevealBreakGlass, PermTargetRead, PermTargetWrite,
    PermTargetDelete, PermDeployExecute, PermDeployDryRun, PermReconcileRun,
    PermCredentialRead, PermCredentialWrite, PermCredentialReveal, PermRotationRead,
    PermRotationWrite, PermRotationExecute, PermRotationApprove, PermRotationAbort,
    PermBackupRead, PermBackupCreate, PermBackupRestore, PermRollback, PermJobRead,
    PermJobWrite, PermJobCancel, PermAuditRead, PermAuditVerify, PermAuditExport,
    PermVaultStatus, PermVaultSeal, PermVaultUnseal, PermVaultRotate, PermUserRead,
    PermUserWrite, PermRoleRead, PermRoleWrite, PermTokenRead, PermTokenWrite,
    PermWebhookRead, PermWebhookWrite, PermSettingsRead, PermSettingsWrite]"

text \<open>\<open>allSet\<close> and \<open>knownPermissions\<close> both index \<open>All\<close>; \<open>Valid\<close> and \<open>IsKnown\<close> look up in them.\<close>

definition Valid :: "permission \<Rightarrow> bool" where
  "Valid p \<longleftrightarrow> p \<in> set AllPermissions"

definition IsKnown :: "permission \<Rightarrow> bool" where
  "IsKnown p \<longleftrightarrow> p \<in> set AllPermissions"

definition ParsePermission :: "string \<Rightarrow> permission result" where
  "ParsePermission s = (let p = trim_space s in if \<not> Valid p then Inl (ErrOther ''unknown permission'') else Inr p)"

definition Namespace :: "permission \<Rightarrow> string" where
  "Namespace p = fst (cut CHR ''.'' p)"

text \<open>The loop of \<open>Group\<close>: scan for the first dot, the whole name when there is none.\<close>

fun Group_from :: "string \<Rightarrow> string \<Rightarrow> string \<Rightarrow> string" where
  "Group_from name seen [] = name"
| "Group_from name seen (c # cs) = (if c = CHR ''.'' then seen else Group_from name (seen @ [c]) cs)"

definition Group :: "permission \<Rightarrow> string" where
  "Group p = Group_from p [] p"

definition Sensitive :: "permission \<Rightarrow> bool" where
  "Sensitive p \<longleftrightarrow> p \<in> set [PermKeyReveal, PermKeyRevealBreakGlass, PermCredentialReveal,
     PermKeyDelete, PermBackupRestore, PermRollback,
     PermVaultSeal, PermVaultUnseal, PermVaultRotate]"

definition PermissionStrings :: "permission list \<Rightarrow> string list" where
  "PermissionStrings ps = sort ps"

definition Permissions :: "string list \<Rightarrow> permission list" where
  "Permissions names = filter IsKnown names"

record system_role =
  sr_Name :: string
  sr_Permissions :: "permission list"

definition SystemRoles :: "system_role list" where
  "SystemRoles = [
    \<lparr>sr_Name = ''admin'', sr_Permissions =
      AllPermissions\<rparr>,
    \<lparr>sr_Name = ''engineer'', sr_Permissions =
      [PermKeyRead, PermKeyWrite, PermKeyRotate, PermKeyRevoke, PermKeyImport,
      PermKeyAdopt, PermKeyReveal, PermTargetRead, PermTargetWrite, PermDeployExecute,
      PermDeployDryRun, PermReconcileRun, PermCredentialRead, PermCredentialWrite,
      PermRotationRead, PermRotationWrite, PermRotationExecute, PermRotationAbort,
      PermBackupRead, PermBackupCreate, PermRollback, PermJobRead, PermJobWrite,
      PermJobCancel, PermAuditRead, PermVaultStatus, PermTokenRead, PermTokenWrite,
      PermWebhookRead]\<rparr>,
    \<lparr>sr_Name = ''operator'', sr_Permissions =
      [PermKeyRead, PermTargetRead, PermDeployExecute, PermDeployDryRun,
      PermReconcileRun, PermRotationRead, PermRotationExecute, PermRotationAbort,
      PermJobRead, PermJobWrite, PermJobCancel, PermBackupRead, PermAuditRead,
      PermVaultStatus]\<rparr>,
    \<lparr>sr_Name = ''auditor'', sr_Permissions =
      [PermKeyRead, PermTargetRead, PermRotationRead, PermJobRead,
      PermBackupRead, PermCredentialRead, PermAuditRead, PermAuditVerify, PermAuditExport,
      PermVaultStatus, PermUserRead, PermRoleRead, PermTokenRead, PermWebhookRead,
      PermSettingsRead]\<rparr>,
    \<lparr>sr_Name = ''viewer'', sr_Permissions =
      [PermKeyRead, PermTargetRead, PermRotationRead, PermJobRead,
      PermVaultStatus]\<rparr>
  ]"

section \<open>Subjects (subject.go)\<close>

record subject =
  UserID :: uuid
  TenantID :: uuid
  Username :: string
  TokenID :: "uuid option"
  Scopes :: "string list"
  MFAVerifiedAt :: "gtime option"
  MustChangePassword :: bool
  granted :: "permission set"
  denied :: "permission set"

definition NewSubject ::
  "uuid \<Rightarrow> uuid \<Rightarrow> string \<Rightarrow> permission list \<Rightarrow> permission list \<Rightarrow> permission list \<Rightarrow> subject" where
  "NewSubject userID tenantID username rolePerms allowOverrides denyOverrides =
     \<lparr>UserID = userID, TenantID = tenantID, Username = username, TokenID = None, Scopes = [],
      MFAVerifiedAt = None, MustChangePassword = False,
      granted = fold insert allowOverrides (fold insert rolePerms {}),
      denied = fold insert denyOverrides {}\<rparr>"

text \<open>A nil subject is \<open>None\<close>.\<close>

fun Can :: "subject option \<Rightarrow> permission \<Rightarrow> bool" where
  "Can None p = False"
| "Can (Some s) p = (if p \<in> denied s then False else p \<in> granted s)"

definition Require :: "subject option \<Rightarrow> permission \<Rightarrow> unit result" where
  "Require s p = (if \<not> Can s p then Inl ErrDenied else Inr ())"

text \<open>\<open>now\<close> is the reading of the clock behind \<open>time.Since\<close>.\<close>

definition RequireFresh :: "gtime \<Rightarrow> subject \<Rightarrow> permission \<Rightarrow> duration \<Rightarrow> unit result" where
  "RequireFresh now s p window =
     (case Require (Some s) p of
        Inl e \<Rightarrow> Inl e
      | Inr _ \<Rightarrow>
          if \<not> Sensitive p then Inr ()
          else (case MFAVerifiedAt s of
                  None \<Rightarrow> Inl ErrMFARequired
                | Some t \<Rightarrow> if now - t > window then Inl ErrMFARequired else Inr ()))"

fun InScope :: "subject option \<Rightarrow> string list \<Rightarrow> bool" where
  "InScope None tags = False"
| "InScope (Some s) tags =
     (if Scopes s = [] then True else list_ex (\<lambda>scope. list_ex (\<lambda>tag. scope = tag) tags) (Scopes s))"

definition RequireScoped :: "subject option \<Rightarrow> permission \<Rightarrow> string list \<Rightarrow> unit result" where
  "RequireScoped s p tags =
     (case Require s p of
        Inl e \<Rightarrow> Inl e
      | Inr _ \<Rightarrow> if \<not> InScope s tags then Inl ErrOutOfScope else Inr ())"

text \<open>The sorted effective set; \<open>Permissions\<close> of the source, renamed apart from the function above.\<close>

definition EffectivePermissions :: "subject option \<Rightarrow> string list" where
  "EffectivePermissions s = (case s of None \<Rightarrow> []
     | Some s \<Rightarrow> sorted_list_of_set (Set.filter (\<lambda>p. p \<notin> denied s) (granted s)))"

definition IsAdmin :: "subject option \<Rightarrow> bool" where
  "IsAdmin s = list_all (Can s) AllPermissions"

definition Restrict :: "subject \<Rightarrow> permission list \<Rightarrow> subject" where
  "Restrict s allowed =
     (if allowed = [] then s
      else s\<lparr>granted := fold (\<lambda>p n. if p \<in> granted s then insert p n else n) allowed {}\<rparr>)"

section \<open>Lemmas\<close>

lemma fold_insert_set [simp]: "fold insert xs A = A \<union> set xs"
  by (induction xs arbitrary: A) auto

lemma fold_insert_if: "fold (\<lambda>p n. if p \<in> G then insert p n else n) xs A = A \<union> (set xs \<inter> G)"
  by (induction xs arbitrary: A) auto

lemma Restrict_granted [simp]:
  "granted (Restrict s ps) = (if ps = [] then granted s else set ps \<inter> granted s)"
  by (simp add: Restrict_def fold_insert_if)

lemma Restrict_other [simp]:
  "denied (Restrict s ps) = denied s" "Scopes (Restrict s ps) = Scopes s"
  "MFAVerifiedAt (Restrict s ps) = MFAVerifiedAt s" "UserID (Restrict s ps) = UserID s"
  "TenantID (Restrict s ps) = TenantID s" "TokenID (Restrict s ps) = TokenID s"
  by (simp_all add: Restrict_def)

lemma Can_iff: "Can (Some s) p \<longleftrightarrow> p \<in> granted s \<and> p \<notin> denied s"
  by simp

lemma Require_Inr [simp]: "Require s p = Inr () \<longleftrightarrow> Can s p"
  and Require_Inl [simp]: "Require s p = Inl e \<longleftrightarrow> e = ErrDenied \<and> \<not> Can s p"
  by (auto simp: Require_def)

lemma InScope_iff: "InScope (Some s) tags \<longleftrightarrow> Scopes s = [] \<or> set (Scopes s) \<inter> set tags \<noteq> {}"
  by (auto simp: list_ex_iff)

lemma Group_from_cut:
  "Group_from name seen cs = (if CHR ''.'' \<in> set cs then seen @ fst (cut CHR ''.'' cs) else name)"
  by (induction cs arbitrary: seen) (auto split: prod.splits)

lemma cut_no_sep: "c \<notin> set s \<Longrightarrow> cut c s = (s, [], False)"
  by (induction s) auto

lemma role_split:
  "(\<forall>r\<in>set SystemRoles. P (sr_Name r) (sr_Permissions r)) \<longleftrightarrow>
     list_all (\<lambda>r. P (sr_Name r) (sr_Permissions r)) SystemRoles"
  by (simp add: list_all_iff)

section \<open>Properties\<close>

text \<open>Deny always wins: a subject built from roles and overrides holds exactly the permissions
  that some role or allow override grants and no deny override names.\<close>

theorem deny_always_wins:
  "Can (Some (NewSubject uid tid name roles allows denies)) p \<longleftrightarrow>
     (p \<in> set roles \<or> p \<in> set allows) \<and> p \<notin> set denies"
  by (auto simp: NewSubject_def)

text \<open>The step-up gate: \<open>RequireFresh\<close> lets a request through exactly when the subject holds the
  permission and, if that permission is sensitive, completed a second factor at most \<open>window\<close>
  ago; without the permission the error is \<open>ErrDenied\<close>, otherwise \<open>ErrMFARequired\<close>.\<close>

theorem step_up_gate:
  "RequireFresh now s p window =
     (if \<not> Can (Some s) p then Inl ErrDenied
      else if Sensitive p \<and> (case MFAVerifiedAt s of None \<Rightarrow> True | Some t \<Rightarrow> window < now - t) then Inl ErrMFARequired
      else Inr ())"
  by (auto simp: RequireFresh_def Require_def split: option.splits)

declare Can.simps [simp del] InScope.simps [simp del]

lemma RequireScoped_Inr [simp]: "RequireScoped s p tags = Inr () \<longleftrightarrow> Can s p \<and> InScope s tags"
  by (auto simp: RequireScoped_def split: sum.splits)

lemma is_ok_Require [simp]: "is_ok (Require s p) \<longleftrightarrow> Can s p"
  by (auto simp: Require_def)

lemma Sensitive_simps [simp]:
  "Sensitive PermKeyReveal" "Sensitive PermKeyRevealBreakGlass" "Sensitive PermVaultRotate" "Sensitive PermRollback"
  by (simp_all add: Sensitive_def)

lemma is_ok_RequireFresh: "is_ok (RequireFresh now s p window) \<longleftrightarrow>
    Can (Some s) p \<and> (Sensitive p \<longrightarrow> (\<exists>t. MFAVerifiedAt s = Some t \<and> now - t \<le> window))"
  by (auto simp: RequireFresh_def Require_def split: option.splits)

end
