(* ===== verification/World.thy ===== *)
theory World
  imports Authz
begin

text \<open>
  The state the services share: the PostgreSQL tables of \<open>internal/store\<close> as lists of rows,
  the process memory that matters (the rotation parameter cache), the clock, and the remote
  hosts, of which only the connectors know anything (type parameter \<open>'h\<close>).

  Column sets follow the structs of the store.  The \<open>updated_at\<close> columns, display-only
  columns are left out where no modelled code reads them.
  Enumerated TEXT columns carry a CHECK constraint in the schema and are datatypes here.
\<close>

section \<open>Rows\<close>

datatype key_status = KeyPending | KeyStaged | KeyActive | KeyRetiring | KeyRetired
  | KeyRevoked | KeyCompromised | KeyDestroyed

datatype key_class = KeyClassStandard | KeyClassBreakGlass | KeyClassDiscovered | KeyClassImported

record key =
  k_ID :: uuid
  k_TenantID :: uuid
  k_Name :: string
  k_Algorithm :: string
  k_PublicKey :: string
  k_Fingerprint :: string
  k_Comment :: string
  k_Status :: key_status
  k_KeyClass :: key_class
  k_Generation :: int
  k_ParentKeyID :: "uuid option"
  k_OwnerID :: "uuid option"
  k_Tags :: "string list"
  k_HasPrivateKey :: bool
  k_Compliant :: bool
  k_ExpiresAt :: "gtime option"
  k_ActivatedAt :: "gtime option"
  k_RetiredAt :: "gtime option"
  k_CreatedAt :: gtime

record sealed =
  KEKVersion :: int
  WrappedDEK :: string
  Ciphertext :: string

text \<open>A value of a free-form \<open>config\<close> object; only strings and booleans are ever read.\<close>

datatype cfg_value = CfgString string | CfgBool bool | CfgOther

type_synonym config = "string \<Rightarrow> cfg_value option"

record target =
  t_ID :: uuid
  t_TenantID :: uuid
  t_Name :: string
  t_Kind :: string
  t_Connector :: string
  t_Address :: string
  t_Port :: int
  t_Config :: config
  t_CredentialID :: "uuid option"
  t_HostKeyPin :: string
  t_Tags :: "string list"
  t_Enabled :: bool
  t_Health :: "string \<times> string"
  t_IsCanary :: bool
  t_DriftState :: string
  t_ReconcileMode :: string

record principal =
  p_ID :: uuid
  p_TargetID :: uuid
  p_Username :: string
  p_AuthorizedKeysPath :: string
  p_UseSudo :: bool
  p_Enabled :: bool

datatype cred_kind = CredSSHKey | CredAPIToken | CredOther

record credential_row =
  cr_ID :: uuid
  cr_TenantID :: uuid
  cr_Kind :: cred_kind
  cr_Username :: string
  cr_KeyID :: "uuid option"
  cr_Secret :: "sealed option"   \<comment> \<open>\<open>HasSecret\<close> is that the column is set\<close>

datatype binding_state = StatePresent | StateAbsent | StateUnknown | StateError

record assignment =
  a_ID :: uuid
  a_TenantID :: uuid
  a_KeyID :: uuid
  a_TargetID :: uuid
  a_PrincipalID :: uuid
  a_Options :: "string list"
  a_DesiredState :: binding_state
  a_ActualState :: binding_state
  a_DeployedAt :: "gtime option"
  a_AuthVerifiedAt :: "gtime option"
  a_LastError :: string
  a_CreatedAt :: gtime

record snapshot_row =
  s_ID :: uuid
  s_TenantID :: uuid
  s_TargetID :: uuid
  s_PrincipalID :: "uuid option"
  s_ChangesetID :: "uuid option"
  s_Kind :: string
  s_RawContent :: string
  s_Checksum :: string
  s_KeyCount :: nat
  s_Existed :: bool

datatype changeset_state = ChangesetOpen | ChangesetCommitted | ChangesetRolledBack | ChangesetFailed

record changeset =
  c_ID :: uuid
  c_TenantID :: uuid
  c_State :: changeset_state
  c_InverseOps :: "(uuid \<times> uuid \<times> uuid) list"   \<comment> \<open>restore_snapshot: snapshot, target, principal\<close>

datatype rotation_state = RotationPlanned | RotationAwaiting | RotationStaging | RotationStaged
  | RotationVerifying | RotationVerified | RotationPromoting | RotationSoaking | RotationRetiring
  | RotationCompleted | RotationAborted | RotationRolledBack | RotationFailed

datatype trigger = TriggerManual | TriggerSchedule | TriggerAPI | TriggerCompromise | TriggerExpiry

record rotation =
  r_ID :: uuid
  r_TenantID :: uuid
  r_PolicyID :: "uuid option"
  r_OldKeyID :: "uuid option"
  r_NewKeyID :: "uuid option"
  r_ChangesetID :: "uuid option"
  r_State :: rotation_state
  r_Wave :: int
  r_Trigger :: trigger
  r_DryRun :: bool
  r_SoakUntil :: "gtime option"
  r_TargetsTotal :: int
  r_TargetsStaged :: int
  r_TargetsVerified :: int
  r_TargetsRetired :: int
  r_TargetsFailed :: int
  r_ApprovedBy :: "uuid option"
  r_ApprovedAt :: "gtime option"
  r_Error :: string
  r_CreatedBy :: "uuid option"
  r_CompletedAt :: "gtime option"

datatype rt_state = RTPending | RTStaged | RTVerified | RTRetired | RTFailed | RTSkipped

record rotation_target =
  rt_RotationID :: uuid
  rt_TargetID :: uuid
  rt_PrincipalID :: uuid
  rt_Wave :: int
  rt_State :: rt_state
  rt_Error :: string
  rt_StagedAt :: "gtime option"
  rt_VerifiedAt :: "gtime option"
  rt_RetiredAt :: "gtime option"

record selector =
  sel_KeyTags :: "string list"
  sel_TargetTags :: "string list"
  sel_KeyIDs :: "uuid list"
  sel_KeyClass :: "key_class option"

record policy =
  pol_ID :: uuid
  pol_TenantID :: uuid
  pol_Name :: string
  pol_Enabled :: bool
  pol_Selector :: selector
  pol_CronExpr :: string
  pol_MaxAgeSec :: int
  pol_Algorithm :: string
  pol_SoakPeriodSec :: int
  pol_CanaryPercent :: int
  pol_FailureThreshold :: int
  pol_ApprovalRequired :: bool
  pol_LastRunAt :: "gtime option"
  pol_NextRunAt :: "gtime option"
  pol_CreatedBy :: "uuid option"

record consumer =
  con_ID :: uuid
  con_TenantID :: uuid
  con_KeyID :: uuid
  con_Name :: string
  con_Kind :: string
  con_Config :: config
  con_Enabled :: bool
  con_LastDeliveredAt :: "gtime option"
  con_LastError :: string

datatype job_state = JobQueued | JobRunning | JobSucceeded | JobFailed | JobCancelled | JobDead

datatype job_payload = RotationStepPayload uuid uuid | DeployPayload uuid uuid uuid bool bool
  | ReconcilePayload "uuid option" uuid | ConsumerPayload uuid uuid | OpaquePayload string

text \<open>The two shapes of idempotency key; the printed form keeps the constructor's arguments apart.\<close>

datatype idem_key = RotationStepKey uuid rotation_state int | TextKey string

record job =
  j_ID :: uuid
  j_TenantID :: uuid
  j_Type :: string
  j_Payload :: job_payload
  j_State :: job_state
  j_Priority :: int
  j_Attempts :: int
  j_MaxAttempts :: int
  j_RunAfter :: gtime
  j_IdempotencyKey :: "idem_key option"
  j_RotationID :: "uuid option"
  j_LockedBy :: string
  j_LockedAt :: "gtime option"
  j_StartedAt :: "gtime option"
  j_FinishedAt :: "gtime option"
  j_LastError :: string
  j_CreatedBy :: "uuid option"
  j_CreatedAt :: gtime

record user_row =
  u_ID :: uuid
  u_TenantID :: uuid
  u_Username :: string
  u_Email :: string
  u_DisplayName :: string
  u_PasswordHash :: string
  u_TOTPSecret :: string
  u_TOTPEnrolled :: bool
  u_RecoveryCodes :: "string list"
  u_Active :: bool
  u_MustChangePW :: bool
  u_FailedLogins :: int
  u_LockedUntil :: "gtime option"
  u_LastLoginAt :: "gtime option"

record role_row =
  ro_ID :: uuid
  ro_TenantID :: uuid
  ro_Name :: string
  ro_IsSystem :: bool
  ro_Permissions :: "string list"

record session_row =
  ss_ID :: uuid
  ss_UserID :: uuid
  ss_TokenHash :: string
  ss_MFAVerifiedAt :: "gtime option"
  ss_ExpiresAt :: gtime
  ss_RevokedAt :: "gtime option"

record token_row =
  tk_ID :: uuid
  tk_TenantID :: uuid
  tk_UserID :: "uuid option"
  tk_Name :: string
  tk_Hash :: string
  tk_Prefix :: string
  tk_Permissions :: "string list"
  tk_Scopes :: "string list"
  tk_ExpiresAt :: "gtime option"
  tk_LastUsedAt :: "gtime option"
  tk_RevokedAt :: "gtime option"
  tk_CreatedBy :: "uuid option"
  tk_CreatedAt :: gtime

datatype discovered_state = DiscoveredUnmanaged | DiscoveredAdopted | DiscoveredIgnored | DiscoveredRemoved

record discovered_key =
  d_ID :: uuid
  d_TenantID :: uuid
  d_TargetID :: uuid
  d_PrincipalID :: uuid
  d_Fingerprint :: string
  d_PublicKey :: string
  d_Algorithm :: string
  d_Comment :: string
  d_Options :: "string list"
  d_State :: discovered_state
  d_AdoptedKeyID :: "uuid option"
  d_FirstSeenAt :: gtime
  d_LastSeenAt :: gtime

datatype effect = Allow | Deny

record rotation_params =
  rp_Algorithm :: string
  rp_SoakPeriod :: "duration option"
  rp_FailureThreshold :: int

record audit_entry =
  ae_TenantID :: uuid
  ae_ActorID :: "uuid option"
  ae_Action :: string
  ae_ResourceID :: "uuid option"
  ae_Outcome :: string
  ae_Phase :: string

section \<open>The world\<close>

text \<open>
  What happens to the next statement: it takes effect and returns (\<open>Fine\<close>), it fails without
  effect (\<open>Fails\<close>), it takes effect but its reply is lost (\<open>Lost\<close>), or the process dies
  before it (\<open>Dies\<close>).  An empty schedule means that nothing goes wrong any more.
\<close>

datatype fault = Fine | Fails | Lost | Dies

record 'h world =
  w_now :: gtime
  w_clock :: "gtime list"
  w_faults :: "fault list"
  w_next :: uuid
  w_users :: "user_row list"
  w_roles :: "role_row list"
  w_userRoles :: "(uuid \<times> uuid) list"
  w_overrides :: "(uuid \<times> permission \<times> effect) list"
  w_userScopes :: "(uuid \<times> string) list"
  w_sessions :: "session_row list"
  w_tokens :: "token_row list"
  w_keys :: "key list"
  w_material :: "(uuid \<times> sealed) list"
  w_targets :: "target list"
  w_principals :: "principal list"
  w_credentials :: "credential_row list"
  w_assignments :: "assignment list"
  w_snapshots :: "snapshot_row list"
  w_changesets :: "changeset list"
  w_policies :: "policy list"
  w_rotations :: "rotation list"
  w_rotTargets :: "rotation_target list"
  w_consumers :: "consumer list"
  w_jobs :: "job list"
  w_discovered :: "discovered_key list"
  w_params :: "uuid \<Rightarrow> rotation_params option"
  w_hosts :: 'h
  w_audit :: "audit_entry list"
  w_events :: "(string \<times> uuid option) list"
  w_log :: "string list"

type_synonym ('h, 'a) dbprog = "('h world, 'a) prog"

text \<open>One statement against the database.\<close>

definition stmt :: "('h, 'a) dbprog \<Rightarrow> ('h, 'a) dbprog" where
  "stmt q = (\<lambda>w. case w_faults w of
       [] \<Rightarrow> q w
     | f # fs \<Rightarrow> (let w' = w\<lparr>w_faults := fs\<rparr> in
         case f of Fine \<Rightarrow> q w'
                 | Fails \<Rightarrow> (Inl ErrDatabase, w')
                 | Lost \<Rightarrow> (Inl ErrDatabase, snd (q w'))
                 | Dies \<Rightarrow> (Inl Killed, w')))"

text \<open>
  One call to a remote system.  Its own failures are part of its behaviour; the schedule
  only decides whether the process dies before the call.
\<close>

definition remote :: "('h, 'a) dbprog \<Rightarrow> ('h, 'a) dbprog" where
  "remote q = (\<lambda>w. case w_faults w of
       [] \<Rightarrow> q w
     | f # fs \<Rightarrow> (let w' = w\<lparr>w_faults := fs\<rparr> in if f = Dies then (Inl Killed, w') else q w'))"

text \<open>\<open>time.Now()\<close> reads the clock, which moves as the environment likes.\<close>

definition time_Now :: "('h, gtime) dbprog" where
  "time_Now = (\<lambda>w. case w_clock w of
       [] \<Rightarrow> (Inr (w_now w), w)
     | t # ts \<Rightarrow> (Inr t, w\<lparr>w_now := t, w_clock := ts\<rparr>))"

text \<open>\<open>uuid.New()\<close>: an identifier never handed out before.\<close>

definition uuid_New :: "('h, uuid) dbprog" where
  "uuid_New = (\<lambda>w. (Inr (w_next w), w\<lparr>w_next := Suc (w_next w)\<rparr>))"

definition DefaultTenantID :: uuid where
  "DefaultTenantID = 1"

text \<open>Best-effort side channels: a failure is logged and ignored, a kill is not survived.\<close>

definition ignoring :: "('h, 'a) dbprog \<Rightarrow> ('h, unit) dbprog" where
  "ignoring m = andThen (attempt m) (\<lambda>_. ret ())"

definition audit_Log :: "audit_entry \<Rightarrow> ('h, unit) dbprog" where
  "audit_Log ev = stmt (modify (\<lambda>w. w\<lparr>w_audit := w_audit w @ [ev]\<rparr>))"

definition record_audit :: "audit_entry \<Rightarrow> ('h, unit) dbprog" where
  "record_audit ev = ignoring (audit_Log ev)"

definition emit :: "string \<Rightarrow> uuid option \<Rightarrow> ('h, unit) dbprog" where
  "emit typ rid = ignoring (stmt (modify (\<lambda>w. w\<lparr>w_events := w_events w @ [(typ, rid)]\<rparr>)))"

definition logf :: "string \<Rightarrow> ('h, unit) dbprog" where
  "logf msg = ignoring (stmt (modify (\<lambda>w. w\<lparr>w_log := w_log w @ [msg]\<rparr>)))"

text \<open>\<open>uuid.UUID.String\<close>.\<close>

definition uuid_String :: "uuid \<Rightarrow> string" where
  "uuid_String i = show_nat i"

text \<open>The text of an error as far as it is stored.\<close>

fun err_text :: "gerror \<Rightarrow> string" where
  "err_text (ErrOther s) = s"
| "err_text ErrDenied = ''denied''"
| "err_text ErrMFARequired = ''mfa required''"
| "err_text ErrOutOfScope = ''out of scope''"
| "err_text ErrNotFound = ''not found''"
| "err_text ErrConflict = ''conflict''"
| "err_text ErrBadRotation = ''bad rotation''"
| "err_text ErrBadUser = ''bad user''"
| "err_text ErrInvalidCredentials = ''invalid username or password''"
| "err_text ErrAccountLocked = ''account is temporarily locked''"
| "err_text ErrSecondFactor = ''a second factor is required''"
| "err_text ErrSessionInvalid = ''session is invalid or expired''"
| "err_text ErrWouldLockOut = ''would lock out''"
| "err_text ErrDatabase = ''database''"
| "err_text Panic = ''panic''"
| "err_text Killed = ''killed''"

text \<open>A world with empty tables, the starting point of the concrete runs.\<close>

definition blank :: "'h \<Rightarrow> 'h world" where
  "blank h = \<lparr>w_now = 0, w_clock = [], w_faults = [], w_next = 100, w_users = [], w_roles = [], w_userRoles = [],
     w_overrides = [], w_userScopes = [], w_sessions = [], w_tokens = [], w_keys = [], w_material = [], w_targets = [], w_principals = [],
     w_credentials = [], w_assignments = [], w_snapshots = [], w_changesets = [], w_policies = [],
     w_rotations = [], w_rotTargets = [], w_consumers = [], w_jobs = [], w_discovered = [], w_params = Map.empty, w_hosts = h,
     w_audit = [], w_events = [], w_log = []\<rparr>"

section \<open>Lemmas\<close>

lemma no_faults_id [simp]: "w_faults w = fs \<Longrightarrow> w\<lparr>w_faults := fs\<rparr> = w"
  by (cases w) simp

text \<open>A statement that returns ran its query on the same tables.\<close>

lemma wlp_stmt [wlp_intros]:
  assumes "\<And>fs. wlp q Q (w\<lparr>w_faults := fs\<rparr>)"
  shows "wlp (stmt q) Q w"
proof -
  have "wlp q Q w" using assms [of "w_faults w"] by simp
  with assms show ?thesis
    by (cases "w_faults w") (auto simp: wlp_def stmt_def Let_def split: fault.split)
qed

lemma wlp_remote [wlp_intros]:
  assumes "\<And>fs. wlp q Q (w\<lparr>w_faults := fs\<rparr>)"
  shows "wlp (remote q) Q w"
proof -
  have "wlp q Q w" using assms [of "w_faults w"] by simp
  with assms show ?thesis
    by (cases "w_faults w") (auto simp: wlp_def remote_def Let_def)
qed

lemma wlp_time_Now [wlp_intros]:
  "(\<And>t ts. Q t (w\<lparr>w_now := t, w_clock := ts\<rparr>)) \<Longrightarrow> wlp time_Now Q w"
proof -
  assume *: "\<And>t ts. Q t (w\<lparr>w_now := t, w_clock := ts\<rparr>)"
  have "w\<lparr>w_now := w_now w, w_clock := w_clock w\<rparr> = w" by (cases w) simp
  with * [of "w_now w" "w_clock w"] * show ?thesis
    by (auto simp: wlp_def time_Now_def split: list.splits)
qed

text \<open>What the next reading of the clock gives, and the world after it.\<close>

definition clock_read :: "'h world \<Rightarrow> gtime" where
  "clock_read w = (case w_clock w of [] \<Rightarrow> w_now w | t # _ \<Rightarrow> t)"

definition clock_moved :: "'h world \<Rightarrow> 'h world" where
  "clock_moved w = (case w_clock w of [] \<Rightarrow> w | t # ts \<Rightarrow> w\<lparr>w_now := t, w_clock := ts\<rparr>)"

lemma wlp_time_read: "Q (clock_read w) (clock_moved w) \<Longrightarrow> wlp time_Now Q w"
  by (cases "w_clock w") (auto simp: wlp_def time_Now_def clock_read_def clock_moved_def)

lemma wlp_uuid_New [wlp_intros]: "Q (w_next w) (w\<lparr>w_next := Suc (w_next w)\<rparr>) \<Longrightarrow> wlp uuid_New Q w"
  by (simp add: wlp_def uuid_New_def)

text \<open>The side channels change nothing but their own log, the fault schedule aside.\<close>

lemma wlp_ignoring_stmt:
  assumes "\<And>fs. Q () (w\<lparr>w_faults := fs\<rparr>)" and "\<And>fs. Q () (f (w\<lparr>w_faults := fs\<rparr>))"
  shows "wlp (ignoring (stmt (modify f))) Q w"
proof -
  have "Q () (f w)" using assms(2) [of "w_faults w"] by simp
  with assms show ?thesis
    by (cases "w_faults w") (auto simp: wlp_def ignoring_def attempt_def andThen_def ret_def stmt_def modify_def Let_def
        split: fault.split)
qed

lemma wlp_record_audit [wlp_intros]:
  "(\<And>fs l. Q () (w\<lparr>w_faults := fs, w_audit := l\<rparr>)) \<Longrightarrow> wlp (record_audit ev) Q w"
  and wlp_emit [wlp_intros]: "(\<And>fs l. Q () (w\<lparr>w_faults := fs, w_events := l\<rparr>)) \<Longrightarrow> wlp (emit ty rid) Q w"
  and wlp_logf [wlp_intros]: "(\<And>fs l. Q () (w\<lparr>w_faults := fs, w_log := l\<rparr>)) \<Longrightarrow> wlp (logf msg) Q w"
proof -
  have id: "w\<lparr>w_faults := fs, w_audit := w_audit w\<rparr> = w\<lparr>w_faults := fs\<rparr>"
    "w\<lparr>w_faults := fs, w_events := w_events w\<rparr> = w\<lparr>w_faults := fs\<rparr>"
    "w\<lparr>w_faults := fs, w_log := w_log w\<rparr> = w\<lparr>w_faults := fs\<rparr>" for fs by (cases w; simp)+
  show "wlp (record_audit ev) Q w" if "\<And>fs l. Q () (w\<lparr>w_faults := fs, w_audit := l\<rparr>)"
    unfolding record_audit_def audit_Log_def
    by (rule wlp_ignoring_stmt) (use that [of "w_audit w"] that id in auto)
  show "wlp (emit ty rid) Q w" if "\<And>fs l. Q () (w\<lparr>w_faults := fs, w_events := l\<rparr>)"
    unfolding emit_def
    by (rule wlp_ignoring_stmt) (use that [of "w_events w"] that id in auto)
  show "wlp (logf msg) Q w" if "\<And>fs l. Q () (w\<lparr>w_faults := fs, w_log := l\<rparr>)"
    unfolding logf_def
    by (rule wlp_ignoring_stmt) (use that [of "w_log w"] that id in auto)
qed

lemma ignoring_Inr: "ignoring m w = (Inr u, w') \<longleftrightarrow> (case fst (m w) of Inl e \<Rightarrow> \<not> uncaught e | Inr _ \<Rightarrow> True) \<and> w' = snd (m w)"
  by (auto simp: ignoring_def attempt_def andThen_def ret_def split: prod.splits sum.splits)

text \<open>An invariant that does not look at the fault schedule is kept by a statement whose query keeps it.\<close>

definition ignores_faults :: "('h world \<Rightarrow> bool) \<Rightarrow> bool" where
  "ignores_faults I \<longleftrightarrow> (\<forall>w fs. I (w\<lparr>w_faults := fs\<rparr>) = I w)"

lemma keeps_stmt:
  assumes "ignores_faults I" and "keeps I q"
  shows "keeps I (stmt q)"
proof (rule upholdsI)
  fix w assume "I w"
  moreover from assms(2) have "\<And>w. I w \<Longrightarrow> I (snd (q w))"
    by (simp add: upholds_def)
  ultimately show "I (snd (stmt q w))"
    using assms(1) by (auto simp: stmt_def ignores_faults_def Let_def split: list.splits fault.splits)
qed

lemma upholds_stmt:
  assumes "ignores_faults P" "ignores_faults Q" "\<And>w. P w \<Longrightarrow> Q w" "\<And>w. P w \<Longrightarrow> Q (snd (q w))"
  shows "upholds P (stmt q) (\<lambda>_. Q)"
  using assms by (auto simp: upholds_def stmt_def ignores_faults_def Let_def split: list.splits fault.splits)

lemma upholds_stmt_result:
  assumes "\<And>w fs. P w \<Longrightarrow> P (w\<lparr>w_faults := fs\<rparr>)" "\<And>w. P w \<Longrightarrow> Q (fst (q w)) (snd (q w))"
    "\<And>w e. P w \<Longrightarrow> Q (Inl e) w" "\<And>w e. P w \<Longrightarrow> Q (Inl e) (snd (q w))"
  shows "upholds P (stmt q) Q"
  using assms by (auto simp: upholds_def stmt_def Let_def split: list.splits fault.splits)

lemma keeps_remote:
  assumes "ignores_faults I" and "keeps I q"
  shows "keeps I (remote q)"
proof (rule upholdsI)
  fix w assume "I w"
  moreover from assms(2) have "\<And>w. I w \<Longrightarrow> I (snd (q w))"
    by (simp add: upholds_def)
  ultimately show "I (snd (remote q w))"
    using assms(1) by (auto simp: remote_def ignores_faults_def Let_def split: list.splits)
qed

lemma keeps_ignoring: "keeps I m \<Longrightarrow> keeps I (ignoring m)"
  unfolding ignoring_def by (intro keeps_intros)

lemma keeps_modify: "(\<And>w. I w \<Longrightarrow> I (f w)) \<Longrightarrow> keeps I (modify f)"
  by (simp add: upholds_def modify_def)

lemma stmt_no_faults [simp]: "w_faults w = [] \<Longrightarrow> stmt q w = q w"
  and remote_no_faults [simp]: "w_faults w = [] \<Longrightarrow> remote q w = q w"
  by (simp_all add: stmt_def remote_def)

end
