(* ===== verification/Store.thy ===== *)
theory Store
  imports World "HOL-Library.Product_Lexorder"
begin

text \<open>
  The repositories of \<open>internal/store\<close> that the rotation and deployment engines use: each method
  is one statement (or one transaction) against the tables of the world.  \<open>ORDER BY\<close> on text is
  byte order here; no modelled decision depends on the collation.
\<close>

section \<open>Statements\<close>

definition upd_where :: "('r \<Rightarrow> bool) \<Rightarrow> ('r \<Rightarrow> 'r) \<Rightarrow> 'r list \<Rightarrow> 'r list" where
  "upd_where P f rows = map (\<lambda>r. if P r then f r else r) rows"

text \<open>A SELECT of at most one row; \<open>ErrNotFound\<close> when there is none.\<close>

definition select_one :: "('h world \<Rightarrow> 'r list) \<Rightarrow> ('r \<Rightarrow> bool) \<Rightarrow> ('h, 'r) dbprog" where
  "select_one tab P = stmt (\<lambda>w. case List.find P (tab w) of
       None \<Rightarrow> (Inl ErrNotFound, w) | Some r \<Rightarrow> (Inr r, w))"

text \<open>An UPDATE of the rows that match, returning the row as updated; \<open>err\<close> when none matches.\<close>

definition update_returning ::
  "('h world \<Rightarrow> 'r list) \<Rightarrow> ('r list \<Rightarrow> 'h world \<Rightarrow> 'h world) \<Rightarrow> gerror \<Rightarrow> ('r \<Rightarrow> bool) \<Rightarrow>
     (gtime \<Rightarrow> 'r \<Rightarrow> 'r) \<Rightarrow> ('h, 'r) dbprog" where
  "update_returning tab put err hit upd = stmt (\<lambda>w. case List.find hit (tab w) of
       None \<Rightarrow> (Inl err, w)
     | Some r \<Rightarrow> (Inr (upd (w_now w) r), put (upd_where hit (upd (w_now w)) (tab w)) w))"

text \<open>A statement that reports \<open>err\<close> when it affected no row.\<close>

definition exec_affecting ::
  "('h world \<Rightarrow> bool) \<Rightarrow> gerror \<Rightarrow> ('h world \<Rightarrow> 'h world) \<Rightarrow> ('h, unit) dbprog" where
  "exec_affecting hits err f = stmt (\<lambda>w. if hits w then (Inr (), f w) else (Inl err, w))"

text \<open>\<open>truncate\<close> of jobs.go bounds diagnostic text; the suffix starts with U+2026.\<close>

definition trunc_text :: "string \<Rightarrow> nat \<Rightarrow> string" where
  "trunc_text s n = (if length s \<le> n then s
     else take n s @ [CHR 0xE2, CHR 0x80, CHR 0xA6] @ '' (truncated)'')"

section \<open>Rotations (rotations.go)\<close>

fun RotationFinished :: "rotation_state \<Rightarrow> bool" where
  "RotationFinished RotationCompleted = True"
| "RotationFinished RotationAborted = True"
| "RotationFinished RotationRolledBack = True"
| "RotationFinished RotationFailed = True"
| "RotationFinished _ = False"

definition CreateRotation :: "rotation \<Rightarrow> ('h, rotation) dbprog" where
  "CreateRotation r0 =
     andThen (if r_ID r0 = uuid_Nil then uuid_New else ret (r_ID r0)) (\<lambda>rid.
     stmt (\<lambda>w. let r = r0\<lparr>r_ID := rid,
          r_TenantID := (if r_TenantID r0 = uuid_Nil then DefaultTenantID else r_TenantID r0),
          r_Wave := 0, r_SoakUntil := None, r_TargetsStaged := 0, r_TargetsVerified := 0,
          r_TargetsRetired := 0, r_TargetsFailed := 0, r_ApprovedBy := None, r_ApprovedAt := None,
          r_Error := [], r_CompletedAt := None\<rparr>
        in (Inr r, w\<lparr>w_rotations := w_rotations w @ [r]\<rparr>)))"

definition GetRotation :: "uuid \<Rightarrow> uuid \<Rightarrow> ('h, rotation) dbprog" where
  "GetRotation tenantID rid = select_one w_rotations (\<lambda>r. r_TenantID r = tenantID \<and> r_ID r = rid)"

text \<open>An empty \<open>from\<close> list is SQL NULL: no constraint on the current state.\<close>

definition SetRotationState ::
  "uuid \<Rightarrow> rotation_state list \<Rightarrow> rotation_state \<Rightarrow> string \<Rightarrow> ('h, rotation) dbprog" where
  "SetRotationState rid frm to msg =
     update_returning w_rotations (\<lambda>rows w. w\<lparr>w_rotations := rows\<rparr>) ErrConflict
       (\<lambda>r. r_ID r = rid \<and> (frm = [] \<or> r_State r \<in> set frm))
       (\<lambda>now r. r\<lparr>r_State := to, r_Error := trunc_text msg 4000,
          r_CompletedAt := (if RotationFinished to then Some now else r_CompletedAt r)\<rparr>)"

definition update_rotation :: "uuid \<Rightarrow> (rotation \<Rightarrow> rotation) \<Rightarrow> ('h, unit) dbprog" where
  "update_rotation rid f = stmt (modify (\<lambda>w.
     w\<lparr>w_rotations := upd_where (\<lambda>r. r_ID r = rid) f (w_rotations w)\<rparr>))"

definition SetRotationKeys :: "uuid \<Rightarrow> uuid option \<Rightarrow> uuid option \<Rightarrow> int \<Rightarrow> ('h, unit) dbprog" where
  "SetRotationKeys rid newKeyID changesetID n = update_rotation rid (\<lambda>r.
     r\<lparr>r_NewKeyID := (case newKeyID of None \<Rightarrow> r_NewKeyID r | Some k \<Rightarrow> Some k),
       r_ChangesetID := (case changesetID of None \<Rightarrow> r_ChangesetID r | Some c \<Rightarrow> Some c),
       r_TargetsTotal := n\<rparr>)"

definition SetSoakUntil :: "uuid \<Rightarrow> gtime \<Rightarrow> ('h, unit) dbprog" where
  "SetSoakUntil rid until = update_rotation rid (\<lambda>r. r\<lparr>r_SoakUntil := Some until\<rparr>)"

definition SetWave :: "uuid \<Rightarrow> int \<Rightarrow> ('h, unit) dbprog" where
  "SetWave rid wave = update_rotation rid (\<lambda>r. r\<lparr>r_Wave := wave\<rparr>)"

definition ApproveRotation :: "uuid \<Rightarrow> uuid \<Rightarrow> uuid \<Rightarrow> ('h, rotation) dbprog" where
  "ApproveRotation tenantID rid userID =
     update_returning w_rotations (\<lambda>rows w. w\<lparr>w_rotations := rows\<rparr>) ErrConflict
       (\<lambda>r. r_TenantID r = tenantID \<and> r_ID r = rid \<and> r_State r = RotationAwaiting)
       (\<lambda>now r. r\<lparr>r_ApprovedBy := Some userID, r_ApprovedAt := Some now, r_State := RotationPlanned\<rparr>)"

definition SoakExpired :: "gtime \<Rightarrow> ('h, rotation list) dbprog" where
  "SoakExpired now = stmt (get (\<lambda>w. filter (\<lambda>r. r_State r = RotationSoaking
     \<and> (case r_SoakUntil r of None \<Rightarrow> False | Some u \<Rightarrow> u \<le> now)) (w_rotations w)))"

definition same_rt :: "uuid \<Rightarrow> uuid \<Rightarrow> uuid \<Rightarrow> rotation_target \<Rightarrow> bool" where
  "same_rt rid tid pid rt \<longleftrightarrow> rt_RotationID rt = rid \<and> rt_TargetID rt = tid \<and> rt_PrincipalID rt = pid"

text \<open>The \<open>ON CONFLICT\<close> clause updates only the wave.\<close>

definition AddRotationTarget :: "rotation_target \<Rightarrow> ('h, unit) dbprog" where
  "AddRotationTarget rt = stmt (modify (\<lambda>w.
     let hit = same_rt (rt_RotationID rt) (rt_TargetID rt) (rt_PrincipalID rt) in
     w\<lparr>w_rotTargets :=
         (if list_ex hit (w_rotTargets w)
          then upd_where hit (\<lambda>x. x\<lparr>rt_Wave := rt_Wave rt\<rparr>) (w_rotTargets w)
          else w_rotTargets w @ [rt\<lparr>rt_Error := [], rt_StagedAt := None, rt_VerifiedAt := None,
                 rt_RetiredAt := None\<rparr>])\<rparr>))"

text \<open>One transaction: the row, then the counters recomputed from the rows.\<close>

definition count_state :: "uuid \<Rightarrow> rt_state list \<Rightarrow> rotation_target list \<Rightarrow> int" where
  "count_state rid sts rows = int (length (filter (\<lambda>rt. rt_RotationID rt = rid \<and> rt_State rt \<in> set sts) rows))"

definition set_rt_row :: "gtime \<Rightarrow> rt_state \<Rightarrow> string \<Rightarrow> rotation_target \<Rightarrow> rotation_target" where
  "set_rt_row now st msg rt = (let rt' = rt\<lparr>rt_State := st, rt_Error := trunc_text msg 2000\<rparr> in
     case st of RTStaged \<Rightarrow> rt'\<lparr>rt_StagedAt := Some now\<rparr>
              | RTVerified \<Rightarrow> rt'\<lparr>rt_VerifiedAt := Some now\<rparr>
              | RTRetired \<Rightarrow> rt'\<lparr>rt_RetiredAt := Some now\<rparr>
              | _ \<Rightarrow> rt')"

definition refresh_counters :: "uuid \<Rightarrow> rotation_target list \<Rightarrow> rotation \<Rightarrow> rotation" where
  "refresh_counters rid rows r =
     r\<lparr>r_TargetsStaged := count_state rid [RTStaged, RTVerified, RTRetired] rows,
       r_TargetsVerified := count_state rid [RTVerified, RTRetired] rows,
       r_TargetsRetired := count_state rid [RTRetired] rows,
       r_TargetsFailed := count_state rid [RTFailed] rows\<rparr>"

definition SetRotationTargetState ::
  "uuid \<Rightarrow> uuid \<Rightarrow> uuid \<Rightarrow> rt_state \<Rightarrow> string \<Rightarrow> ('h, unit) dbprog" where
  "SetRotationTargetState rid tid pid st msg = stmt (modify (\<lambda>w.
     let rows = upd_where (same_rt rid tid pid) (set_rt_row (w_now w) st msg) (w_rotTargets w) in
     w\<lparr>w_rotTargets := rows,
       w_rotations := upd_where (\<lambda>r. r_ID r = rid) (refresh_counters rid rows) (w_rotations w)\<rparr>))"

text \<open>The inner joins with targets and principals, and the sort key of the listing.\<close>

definition rt_joined :: "'h world \<Rightarrow> rotation_target \<Rightarrow> bool" where
  "rt_joined w rt \<longleftrightarrow> list_ex (\<lambda>t. t_ID t = rt_TargetID rt) (w_targets w)
     \<and> list_ex (\<lambda>p. p_ID p = rt_PrincipalID rt) (w_principals w)"

definition target_name :: "'h world \<Rightarrow> uuid \<Rightarrow> string" where
  "target_name w tid = (case List.find (\<lambda>t. t_ID t = tid) (w_targets w) of None \<Rightarrow> [] | Some t \<Rightarrow> t_Name t)"

definition principal_name :: "'h world \<Rightarrow> uuid \<Rightarrow> string" where
  "principal_name w pid = (case List.find (\<lambda>p. p_ID p = pid) (w_principals w) of None \<Rightarrow> [] | Some p \<Rightarrow> p_Username p)"

definition ListRotationTargets :: "uuid \<Rightarrow> ('h, rotation_target list) dbprog" where
  "ListRotationTargets rid = stmt (get (\<lambda>w.
     sort_key (\<lambda>rt. (rt_Wave rt, target_name w (rt_TargetID rt), principal_name w (rt_PrincipalID rt)))
       (filter (\<lambda>rt. rt_RotationID rt = rid \<and> rt_joined w rt) (w_rotTargets w))))"

definition WaveTargets :: "uuid \<Rightarrow> int \<Rightarrow> rt_state list \<Rightarrow> ('h, rotation_target list) dbprog" where
  "WaveTargets rid wave sts = stmt (get (\<lambda>w.
     sort_key (\<lambda>rt. (target_name w (rt_TargetID rt), principal_name w (rt_PrincipalID rt)))
       (filter (\<lambda>rt. rt_RotationID rt = rid \<and> rt_Wave rt = wave
          \<and> (sts = [] \<or> rt_State rt \<in> set sts) \<and> rt_joined w rt) (w_rotTargets w))))"

definition MaxWave :: "uuid \<Rightarrow> ('h, int) dbprog" where
  "MaxWave rid = stmt (get (\<lambda>w.
     case map rt_Wave (filter (\<lambda>rt. rt_RotationID rt = rid) (w_rotTargets w)) of
       [] \<Rightarrow> 0 | x # xs \<Rightarrow> fold max xs x))"

definition GetPolicy :: "uuid \<Rightarrow> uuid \<Rightarrow> ('h, policy) dbprog" where
  "GetPolicy tenantID pid = select_one w_policies (\<lambda>p. pol_TenantID p = tenantID \<and> pol_ID p = pid)"

definition SoakPeriod :: "policy \<Rightarrow> duration" where
  "SoakPeriod p = pol_SoakPeriodSec p * Second"

definition MaxAge :: "policy \<Rightarrow> duration" where
  "MaxAge p = pol_MaxAgeSec p * Second"

definition selector_Empty :: "selector \<Rightarrow> bool" where
  "selector_Empty s \<longleftrightarrow> length (sel_KeyTags s) = 0 \<and> length (sel_TargetTags s) = 0
     \<and> length (sel_KeyIDs s) = 0 \<and> sel_KeyClass s = None"

definition CreatePolicy :: "policy \<Rightarrow> ('h, policy) dbprog" where
  "CreatePolicy p0 =
     andThen (if pol_ID p0 = uuid_Nil then uuid_New else ret (pol_ID p0)) (\<lambda>pid.
     let p = p0\<lparr>pol_ID := pid,
          pol_TenantID := (if pol_TenantID p0 = uuid_Nil then DefaultTenantID else pol_TenantID p0),
          pol_Algorithm := (if pol_Algorithm p0 = [] then ''ed25519'' else pol_Algorithm p0),
          pol_SoakPeriodSec := (if pol_SoakPeriodSec p0 = 0 then 24 * 60 * 60 else pol_SoakPeriodSec p0)\<rparr> in
     if selector_Empty (pol_Selector p) then fail ErrConflict
     else stmt (\<lambda>w. if list_ex (\<lambda>x. pol_TenantID x = pol_TenantID p \<and> pol_Name x = pol_Name p) (w_policies w)
                then (Inl ErrConflict, w)
                else (Inr p, w\<lparr>w_policies := w_policies w @ [p]\<rparr>)))"

definition UpdatePolicy :: "policy \<Rightarrow> ('h, policy) dbprog" where
  "UpdatePolicy p =
     (if selector_Empty (pol_Selector p) then fail ErrConflict
      else update_returning w_policies (\<lambda>rows w. w\<lparr>w_policies := rows\<rparr>) ErrNotFound
        (\<lambda>x. pol_TenantID x = pol_TenantID p \<and> pol_ID x = pol_ID p)
        (\<lambda>now x. p\<lparr>pol_LastRunAt := pol_LastRunAt x, pol_CreatedBy := pol_CreatedBy x\<rparr>))"

definition DuePolicies :: "gtime \<Rightarrow> ('h, policy list) dbprog" where
  "DuePolicies now = stmt (get (\<lambda>w. sort_key (\<lambda>p. case pol_NextRunAt p of None \<Rightarrow> 0 | Some t \<Rightarrow> t)
     (filter (\<lambda>p. pol_Enabled p \<and> (case pol_NextRunAt p of None \<Rightarrow> False | Some t \<Rightarrow> t \<le> now)) (w_policies w))))"

definition MarkPolicyRun :: "uuid \<Rightarrow> gtime option \<Rightarrow> ('h, unit) dbprog" where
  "MarkPolicyRun pid next_run = stmt (modify (\<lambda>w.
     w\<lparr>w_policies := upd_where (\<lambda>p. pol_ID p = pid)
        (\<lambda>p. p\<lparr>pol_LastRunAt := Some (w_now w), pol_NextRunAt := next_run\<rparr>) (w_policies w)\<rparr>))"

section \<open>Keys (keys.go)\<close>

definition Keys_Get :: "uuid \<Rightarrow> uuid \<Rightarrow> ('h, key) dbprog" where
  "Keys_Get tenantID kid = select_one w_keys (\<lambda>k. k_TenantID k = tenantID \<and> k_ID k = kid)"

text \<open>
  \<open>Create\<close> inserts the row and the material in one transaction; the fingerprint is unique
  within a tenant.
\<close>

definition Keys_Create :: "key \<Rightarrow> sealed option \<Rightarrow> ('h, key) dbprog" where
  "Keys_Create k0 material =
     andThen (if k_ID k0 = uuid_Nil then uuid_New else ret (k_ID k0)) (\<lambda>kid.
     stmt (\<lambda>w. let k = k0\<lparr>k_ID := kid,
          k_TenantID := (if k_TenantID k0 = uuid_Nil then DefaultTenantID else k_TenantID k0),
          k_Generation := (if k_Generation k0 = 0 then 1 else k_Generation k0),
          k_ActivatedAt := None, k_RetiredAt := None, k_CreatedAt := w_now w\<rparr>
        in if list_ex (\<lambda>x. k_TenantID x = k_TenantID k \<and> k_Fingerprint x = k_Fingerprint k) (w_keys w)
           then (Inl ErrConflict, w)
           else (Inr k, w\<lparr>w_keys := w_keys w @ [k],
                  w_material := w_material w @ (case material of None \<Rightarrow> [] | Some m \<Rightarrow> [(kid, m)])\<rparr>)))"

definition Keys_SetStatus :: "uuid \<Rightarrow> uuid \<Rightarrow> key_status \<Rightarrow> ('h, key) dbprog" where
  "Keys_SetStatus tenantID kid status =
     update_returning w_keys (\<lambda>rows w. w\<lparr>w_keys := rows\<rparr>) ErrNotFound
       (\<lambda>k. k_TenantID k = tenantID \<and> k_ID k = kid)
       (\<lambda>now k. k\<lparr>k_Status := status,
          k_ActivatedAt := (if status = KeyActive \<and> k_ActivatedAt k = None then Some now else k_ActivatedAt k),
          k_RetiredAt := (if status = KeyRetired then Some now else k_RetiredAt k)\<rparr>)"

record key_filter =
  kf_TenantID :: uuid
  kf_Statuses :: "key_status list"
  kf_Tags :: "string list"
  kf_Limit :: int
  kf_Offset :: nat

definition all_keys_filter :: "uuid \<Rightarrow> key_filter" where
  "all_keys_filter tenantID = \<lparr>kf_TenantID = tenantID, kf_Statuses = [], kf_Tags = [], kf_Limit = 0, kf_Offset = 0\<rparr>"

text \<open>A limit above 500 is replaced by 100, not by 500.\<close>

definition key_limit :: "int \<Rightarrow> nat" where
  "key_limit n = (if n \<le> 0 \<or> n > 500 then 100 else nat n)"

definition keys_matching :: "key_filter \<Rightarrow> key list \<Rightarrow> key list" where
  "keys_matching f rows =
     take (key_limit (kf_Limit f)) (drop (kf_Offset f)
       (sort_key (\<lambda>k. - k_CreatedAt k)
         (filter (\<lambda>k. k_TenantID k = (if kf_TenantID f = uuid_Nil then DefaultTenantID else kf_TenantID f)
            \<and> (kf_Statuses f = [] \<or> k_Status k \<in> set (kf_Statuses f))
            \<and> (kf_Tags f = [] \<or> list_ex (\<lambda>t. t \<in> set (kf_Tags f)) (k_Tags k))) rows)))"

definition Keys_List :: "key_filter \<Rightarrow> ('h, key list) dbprog" where
  "Keys_List f = stmt (get (\<lambda>w. keys_matching f (w_keys w)))"

definition LoadMaterial :: "uuid \<Rightarrow> ('h, sealed) dbprog" where
  "LoadMaterial kid = andThen (select_one w_material (\<lambda>m. fst m = kid)) (\<lambda>m. ret (snd m))"

text \<open>Insert or replace, one row per key.\<close>

definition StoreMaterial :: "uuid \<Rightarrow> sealed \<Rightarrow> ('h, unit) dbprog" where
  "StoreMaterial kid s = stmt (modify (\<lambda>w.
     w\<lparr>w_material := (if list_ex (\<lambda>m. fst m = kid) (w_material w)
        then upd_where (\<lambda>m. fst m = kid) (\<lambda>_. (kid, s)) (w_material w)
        else w_material w @ [(kid, s)])\<rparr>))"

definition DestroyMaterial :: "uuid \<Rightarrow> uuid \<Rightarrow> ('h, unit) dbprog" where
  "DestroyMaterial tenantID kid = stmt (modify (\<lambda>w.
     w\<lparr>w_material := filter (\<lambda>m. fst m \<noteq> kid) (w_material w),
       w_keys := upd_where (\<lambda>k. k_TenantID k = tenantID \<and> k_ID k = kid)
         (\<lambda>k. k\<lparr>k_Status := KeyDestroyed, k_HasPrivateKey := False\<rparr>) (w_keys w)\<rparr>))"

definition MaterialNeedingRewrap :: "int \<Rightarrow> nat \<Rightarrow> ('h, uuid list) dbprog" where
  "MaterialNeedingRewrap currentVersion limit = stmt (get (\<lambda>w.
     take limit (sort (map fst (filter (\<lambda>m. KEKVersion (snd m) < currentVersion) (w_material w))))))"

definition Keys_Update ::
  "uuid \<Rightarrow> uuid \<Rightarrow> string \<Rightarrow> string list \<Rightarrow> gtime option \<Rightarrow> ('h, key) dbprog" where
  "Keys_Update tenantID kid name tags expiresAt =
     update_returning w_keys (\<lambda>rows w. w\<lparr>w_keys := rows\<rparr>) ErrNotFound
       (\<lambda>k. k_TenantID k = tenantID \<and> k_ID k = kid)
       (\<lambda>now k. k\<lparr>k_Name := name, k_Tags := tags, k_ExpiresAt := expiresAt\<rparr>)"

text \<open>The row goes, and with it what the schema cascades: material, assignments, consumers.  The
  columns that may be null are cleared.\<close>

definition forget_key :: "uuid \<Rightarrow> uuid option \<Rightarrow> uuid option" where
  "forget_key kid o1 = (if o1 = Some kid then None else o1)"

definition Keys_Delete :: "uuid \<Rightarrow> uuid \<Rightarrow> ('h, unit) dbprog" where
  "Keys_Delete tenantID kid =
     (let hit = (\<lambda>k. k_TenantID k = tenantID \<and> k_ID k = kid) in
     exec_affecting (\<lambda>w. list_ex hit (w_keys w)) ErrNotFound (\<lambda>w. w\<lparr>
       w_keys := map (\<lambda>k. k\<lparr>k_ParentKeyID := forget_key kid (k_ParentKeyID k)\<rparr>)
         (filter (\<lambda>k. \<not> hit k) (w_keys w)),
       w_material := filter (\<lambda>m. fst m \<noteq> kid) (w_material w),
       w_assignments := filter (\<lambda>a. a_KeyID a \<noteq> kid) (w_assignments w),
       w_consumers := filter (\<lambda>c. con_KeyID c \<noteq> kid) (w_consumers w),
       w_credentials := map (\<lambda>c. c\<lparr>cr_KeyID := forget_key kid (cr_KeyID c)\<rparr>) (w_credentials w),
       w_rotations := map (\<lambda>r. r\<lparr>r_OldKeyID := forget_key kid (r_OldKeyID r),
         r_NewKeyID := forget_key kid (r_NewKeyID r)\<rparr>) (w_rotations w),
       w_discovered := map (\<lambda>d. d\<lparr>d_AdoptedKeyID := forget_key kid (d_AdoptedKeyID d)\<rparr>) (w_discovered w)\<rparr>))"

section \<open>Targets, principals, credentials (targets.go, credentials.go)\<close>

definition Targets_Get :: "uuid \<Rightarrow> uuid \<Rightarrow> ('h, target) dbprog" where
  "Targets_Get tenantID tid = select_one w_targets (\<lambda>t. t_TenantID t = tenantID \<and> t_ID t = tid)"

definition GetPrincipal :: "uuid \<Rightarrow> ('h, principal) dbprog" where
  "GetPrincipal pid = select_one w_principals (\<lambda>p. p_ID p = pid)"

definition update_target :: "uuid \<Rightarrow> uuid \<Rightarrow> (target \<Rightarrow> target) \<Rightarrow> ('h, unit) dbprog" where
  "update_target tenantID tid f = stmt (modify (\<lambda>w.
     w\<lparr>w_targets := upd_where (\<lambda>t. t_TenantID t = tenantID \<and> t_ID t = tid) f (w_targets w)\<rparr>))"

definition SetDrift :: "uuid \<Rightarrow> uuid \<Rightarrow> string \<Rightarrow> ('h, unit) dbprog" where
  "SetDrift tenantID tid state = update_target tenantID tid (\<lambda>t. t\<lparr>t_DriftState := state\<rparr>)"

definition SetHealth :: "uuid \<Rightarrow> uuid \<Rightarrow> string \<Rightarrow> string \<Rightarrow> ('h, unit) dbprog" where
  "SetHealth tenantID tid health msg = update_target tenantID tid (\<lambda>t. t\<lparr>t_Health := (health, msg)\<rparr>)"

definition SetHostKeyPin :: "uuid \<Rightarrow> uuid \<Rightarrow> string \<Rightarrow> ('h, unit) dbprog" where
  "SetHostKeyPin tenantID tid pin = update_target tenantID tid (\<lambda>t. t\<lparr>t_HostKeyPin := pin\<rparr>)"

definition ListPrincipals :: "uuid \<Rightarrow> ('h, principal list) dbprog" where
  "ListPrincipals tid = stmt (get (\<lambda>w. sort_key p_Username (filter (\<lambda>p. p_TargetID p = tid) (w_principals w))))"

definition Credentials_Get :: "uuid \<Rightarrow> uuid \<Rightarrow> ('h, credential_row) dbprog" where
  "Credentials_Get tenantID cid = select_one w_credentials (\<lambda>c. cr_TenantID c = tenantID \<and> cr_ID c = cid)"

text \<open>A row without a sealed secret, or with an empty ciphertext, holds none.\<close>

definition LoadSecret :: "uuid \<Rightarrow> uuid \<Rightarrow> ('h, sealed) dbprog" where
  "LoadSecret tenantID cid = andThen (select_one w_credentials (\<lambda>c. cr_TenantID c = tenantID \<and> cr_ID c = cid))
     (\<lambda>c. case cr_Secret c of None \<Rightarrow> fail ErrNotFound
        | Some s \<Rightarrow> if Ciphertext s = [] then fail ErrNotFound else ret s)"

section \<open>Assignments (assignments.go)\<close>

definition InSync :: "assignment \<Rightarrow> bool" where
  "InSync a \<longleftrightarrow> a_DesiredState a = a_ActualState a"

definition fk_ok :: "assignment \<Rightarrow> 'h world \<Rightarrow> bool" where
  "fk_ok a w \<longleftrightarrow> list_ex (\<lambda>k. k_ID k = a_KeyID a) (w_keys w)
     \<and> list_ex (\<lambda>t. t_ID t = a_TargetID a) (w_targets w)
     \<and> list_ex (\<lambda>p. p_ID p = a_PrincipalID a) (w_principals w)"

text \<open>
  Insert, or on conflict on (key, principal) overwrite the options and the desired state.  The
  insert checks the foreign keys; the update leaves them alone.
\<close>

definition Assignments_Upsert ::
  "uuid \<Rightarrow> uuid \<Rightarrow> uuid \<Rightarrow> uuid \<Rightarrow> string list \<Rightarrow> binding_state \<Rightarrow> ('h, unit) dbprog" where
  "Assignments_Upsert tenantID kid tid pid options desired =
     andThen uuid_New (\<lambda>aid. stmt (\<lambda>w.
       let hit = (\<lambda>a. a_KeyID a = kid \<and> a_PrincipalID a = pid);
           a = \<lparr>a_ID = aid, a_TenantID = (if tenantID = uuid_Nil then DefaultTenantID else tenantID),
                a_KeyID = kid, a_TargetID = tid, a_PrincipalID = pid, a_Options = options,
                a_DesiredState = desired, a_ActualState = StateUnknown, a_DeployedAt = None,
                a_AuthVerifiedAt = None, a_LastError = [], a_CreatedAt = w_now w\<rparr>
       in if list_ex hit (w_assignments w)
          then (Inr (), w\<lparr>w_assignments := upd_where hit
                 (\<lambda>x. x\<lparr>a_Options := options, a_DesiredState := desired\<rparr>) (w_assignments w)\<rparr>)
          else if \<not> fk_ok a w then (Inl ErrNotFound, w)
          else (Inr (), w\<lparr>w_assignments := w_assignments w @ [a]\<rparr>)))"

record assignment_filter =
  af_TenantID :: uuid
  af_KeyID :: "uuid option"
  af_TargetID :: "uuid option"
  af_PrincipalID :: "uuid option"
  af_DesiredState :: "binding_state option"
  af_Limit :: int

definition assignment_limit :: "int \<Rightarrow> nat" where
  "assignment_limit n = (if n \<le> 0 \<or> n > 2000 then 500 else nat n)"

definition opt_eq :: "'a option \<Rightarrow> 'a \<Rightarrow> bool" where
  "opt_eq o1 x \<longleftrightarrow> (case o1 of None \<Rightarrow> True | Some y \<Rightarrow> y = x)"

definition assignments_matching :: "assignment_filter \<Rightarrow> 'h world \<Rightarrow> assignment list" where
  "assignments_matching f w =
     take (assignment_limit (af_Limit f))
       (sort_key (\<lambda>a. (target_name w (a_TargetID a), principal_name w (a_PrincipalID a)))
         (filter (\<lambda>a. a_TenantID a = (if af_TenantID f = uuid_Nil then DefaultTenantID else af_TenantID f)
            \<and> opt_eq (af_KeyID f) (a_KeyID a) \<and> opt_eq (af_TargetID f) (a_TargetID a)
            \<and> opt_eq (af_PrincipalID f) (a_PrincipalID a) \<and> opt_eq (af_DesiredState f) (a_DesiredState a)
            \<and> fk_ok a w) (w_assignments w)))"

definition Assignments_List :: "assignment_filter \<Rightarrow> ('h, assignment list) dbprog" where
  "Assignments_List f = stmt (get (assignments_matching f))"

definition ForPrincipal :: "uuid \<Rightarrow> uuid \<Rightarrow> ('h, assignment list) dbprog" where
  "ForPrincipal tenantID pid = stmt (get (\<lambda>w. sort_key a_CreatedAt
     (filter (\<lambda>a. a_TenantID a = tenantID \<and> a_PrincipalID a = pid) (w_assignments w))))"

definition RecordDeployment :: "uuid \<Rightarrow> binding_state \<Rightarrow> string \<Rightarrow> ('h, unit) dbprog" where
  "RecordDeployment aid st msg = stmt (modify (\<lambda>w.
     w\<lparr>w_assignments := upd_where (\<lambda>a. a_ID a = aid)
        (\<lambda>a. a\<lparr>a_ActualState := st, a_LastError := msg,
               a_DeployedAt := (if st = StatePresent \<and> msg = [] then Some (w_now w) else a_DeployedAt a)\<rparr>)
        (w_assignments w)\<rparr>))"

definition RecordAuthVerified :: "uuid \<Rightarrow> ('h, unit) dbprog" where
  "RecordAuthVerified aid = stmt (modify (\<lambda>w.
     w\<lparr>w_assignments := upd_where (\<lambda>a. a_ID a = aid)
        (\<lambda>a. a\<lparr>a_AuthVerifiedAt := Some (w_now w)\<rparr>) (w_assignments w)\<rparr>))"

definition Assignments_Delete :: "uuid \<Rightarrow> uuid \<Rightarrow> ('h, unit) dbprog" where
  "Assignments_Delete tenantID aid =
     (let hit = (\<lambda>a. a_TenantID a = tenantID \<and> a_ID a = aid) in
     exec_affecting (\<lambda>w. list_ex hit (w_assignments w)) ErrNotFound
       (\<lambda>w. w\<lparr>w_assignments := filter (\<lambda>a. \<not> hit a) (w_assignments w)\<rparr>))"

section \<open>Snapshots and changesets (assignments.go)\<close>

definition Snapshots_Create ::
  "uuid \<Rightarrow> uuid \<Rightarrow> uuid option \<Rightarrow> uuid option \<Rightarrow> string \<Rightarrow> string \<Rightarrow> string \<Rightarrow> nat \<Rightarrow> bool \<Rightarrow> ('h, uuid) dbprog" where
  "Snapshots_Create tenantID tid pid csid kind content checksum count existed =
     andThen uuid_New (\<lambda>sid. stmt (\<lambda>w. (Inr sid, w\<lparr>w_snapshots := w_snapshots w @
       [\<lparr>s_ID = sid, s_TenantID = (if tenantID = uuid_Nil then DefaultTenantID else tenantID),
         s_TargetID = tid, s_PrincipalID = pid, s_ChangesetID = csid, s_Kind = kind, s_RawContent = content,
         s_Checksum = checksum, s_KeyCount = count, s_Existed = existed\<rparr>]\<rparr>)))"

definition Snapshots_Get :: "uuid \<Rightarrow> uuid \<Rightarrow> ('h, snapshot_row) dbprog" where
  "Snapshots_Get tenantID sid = select_one w_snapshots (\<lambda>s. s_TenantID s = tenantID \<and> s_ID s = sid)"

definition Changesets_Create :: "uuid \<Rightarrow> ('h, uuid) dbprog" where
  "Changesets_Create tenantID =
     andThen uuid_New (\<lambda>cid. stmt (\<lambda>w. (Inr cid, w\<lparr>w_changesets := w_changesets w @
       [\<lparr>c_ID = cid, c_TenantID = (if tenantID = uuid_Nil then DefaultTenantID else tenantID),
         c_State = ChangesetOpen, c_InverseOps = []\<rparr>]\<rparr>)))"

definition AppendInverse :: "uuid \<Rightarrow> uuid \<times> uuid \<times> uuid \<Rightarrow> ('h, unit) dbprog" where
  "AppendInverse cid op = stmt (modify (\<lambda>w.
     w\<lparr>w_changesets := upd_where (\<lambda>c. c_ID c = cid)
        (\<lambda>c. c\<lparr>c_InverseOps := c_InverseOps c @ [op]\<rparr>) (w_changesets w)\<rparr>))"

definition Changesets_SetState :: "uuid \<Rightarrow> changeset_state \<Rightarrow> ('h, unit) dbprog" where
  "Changesets_SetState cid st = stmt (modify (\<lambda>w.
     w\<lparr>w_changesets := upd_where (\<lambda>c. c_ID c = cid) (\<lambda>c. c\<lparr>c_State := st\<rparr>) (w_changesets w)\<rparr>))"

section \<open>Consumers (consumers.go)\<close>

definition Consumers_Get :: "uuid \<Rightarrow> uuid \<Rightarrow> ('h, consumer) dbprog" where
  "Consumers_Get tenantID cid = select_one w_consumers (\<lambda>c. con_TenantID c = tenantID \<and> con_ID c = cid)"

definition Consumers_List :: "uuid \<Rightarrow> uuid option \<Rightarrow> ('h, consumer list) dbprog" where
  "Consumers_List tenantID kid = stmt (get (\<lambda>w. sort_key con_Name
     (filter (\<lambda>c. con_TenantID c = tenantID \<and> opt_eq kid (con_KeyID c)) (w_consumers w))))"

definition Consumers_Create :: "consumer \<Rightarrow> ('h, consumer) dbprog" where
  "Consumers_Create c0 =
     andThen (if con_ID c0 = uuid_Nil then uuid_New else ret (con_ID c0)) (\<lambda>cid.
     let c = c0\<lparr>con_ID := cid, con_TenantID := (if con_TenantID c0 = uuid_Nil then DefaultTenantID else con_TenantID c0),
               con_LastDeliveredAt := None, con_LastError := []\<rparr> in
     stmt (\<lambda>w. if list_ex (\<lambda>k. k_ID k = con_KeyID c) (w_keys w)
        then (Inr c, w\<lparr>w_consumers := w_consumers w @ [c]\<rparr>) else (Inl ErrNotFound, w)))"

definition Consumers_Delete :: "uuid \<Rightarrow> uuid \<Rightarrow> ('h, unit) dbprog" where
  "Consumers_Delete tenantID cid =
     (let hit = (\<lambda>c. con_TenantID c = tenantID \<and> con_ID c = cid) in
     exec_affecting (\<lambda>w. list_ex hit (w_consumers w)) ErrNotFound
       (\<lambda>w. w\<lparr>w_consumers := filter (\<lambda>c. \<not> hit c) (w_consumers w)\<rparr>))"

definition Consumers_Rebind :: "uuid \<Rightarrow> uuid \<Rightarrow> uuid \<Rightarrow> ('h, unit) dbprog" where
  "Consumers_Rebind tenantID cid kid =
     (let hit = (\<lambda>c. con_TenantID c = tenantID \<and> con_ID c = cid) in
     exec_affecting (\<lambda>w. list_ex hit (w_consumers w)) ErrNotFound
       (\<lambda>w. w\<lparr>w_consumers := upd_where hit (\<lambda>c. c\<lparr>con_KeyID := kid\<rparr>) (w_consumers w)\<rparr>))"

definition RecordDelivery :: "uuid \<Rightarrow> gerror option \<Rightarrow> ('h, unit) dbprog" where
  "RecordDelivery cid cause = stmt (modify (\<lambda>w.
     w\<lparr>w_consumers := upd_where (\<lambda>c. con_ID c = cid)
        (\<lambda>c. c\<lparr>con_LastError := (case cause of None \<Rightarrow> [] | Some e \<Rightarrow> trunc_text (err_text e) 2000),
               con_LastDeliveredAt := (case cause of None \<Rightarrow> Some (w_now w) | Some _ \<Rightarrow> con_LastDeliveredAt c)\<rparr>)
        (w_consumers w)\<rparr>))"

section \<open>Users (users.go)\<close>

text \<open>\<open>LoadSubject\<close>: the user row, the permissions of all roles, the overrides, the scopes.\<close>

definition roles_of :: "'h world \<Rightarrow> uuid \<Rightarrow> role_row list" where
  "roles_of w userID = concat (map (\<lambda>ur. filter (\<lambda>r. ro_ID r = snd ur) (w_roles w))
     (filter (\<lambda>ur. fst ur = userID) (w_userRoles w)))"

definition LoadSubject :: "uuid \<Rightarrow> uuid \<Rightarrow> ('h, subject) dbprog" where
  "LoadSubject tenantID userID =
     andThen (select_one w_users (\<lambda>u. u_TenantID u = tenantID \<and> u_ID u = userID)) (\<lambda>u.
     andThen (stmt (get (\<lambda>w. concat (map ro_Permissions (roles_of w userID))))) (\<lambda>perms.
     andThen (stmt (get (\<lambda>w. filter (\<lambda>x. fst x = userID) (w_overrides w)))) (\<lambda>ovs.
     andThen (stmt (get (\<lambda>w. map snd (filter (\<lambda>x. fst x = userID) (w_userScopes w))))) (\<lambda>scs.
     ret ((NewSubject (u_ID u) (u_TenantID u) (u_Username u) perms
             (map (fst \<circ> snd) (filter (\<lambda>x. snd (snd x) = Allow) ovs))
             (map (fst \<circ> snd) (filter (\<lambda>x. snd (snd x) = Deny) ovs)))
          \<lparr>MustChangePassword := u_MustChangePW u, Scopes := scs\<rparr>)))))"

section \<open>Lemmas\<close>

text \<open>A listing of assignments depends only on the four tables it joins.\<close>

lemma assignments_matching_cong:
  assumes "w_assignments w' = w_assignments w" "w_keys w' = w_keys w" "w_targets w' = w_targets w"
    "w_principals w' = w_principals w"
  shows "assignments_matching f w' = assignments_matching f w"
  using assms by (simp add: assignments_matching_def target_name_def principal_name_def fk_ok_def)

lemma assignments_matching_faults [simp]:
  "assignments_matching f (w\<lparr>w_faults := x\<rparr>) = assignments_matching f w"
  by (rule assignments_matching_cong) simp_all

lemma wlp_select_one [wlp_intros]:
  assumes "\<And>fs r. r \<in> set (tab (w\<lparr>w_faults := fs\<rparr>)) \<Longrightarrow> P r \<Longrightarrow> Q r (w\<lparr>w_faults := fs\<rparr>)"
  shows "wlp (select_one tab P) Q w"
  unfolding select_one_def
proof (rule wlp_stmt)
  fix fs
  show "wlp (\<lambda>w. case List.find P (tab w) of None \<Rightarrow> (Inl ErrNotFound, w) | Some r \<Rightarrow> (Inr r, w)) Q (w\<lparr>w_faults := fs\<rparr>)"
    using assms [of _ fs] by (auto simp: wlp_def find_Some_iff split: option.split)
qed

lemma wlp_update_returning [wlp_intros]:
  assumes "\<And>fs r. r \<in> set (tab (w\<lparr>w_faults := fs\<rparr>)) \<Longrightarrow> hit r \<Longrightarrow>
     Q (upd (w_now w) r) (put (upd_where hit (upd (w_now w)) (tab (w\<lparr>w_faults := fs\<rparr>))) (w\<lparr>w_faults := fs\<rparr>))"
  shows "wlp (update_returning tab put err hit upd) Q w"
  unfolding update_returning_def
  by (rule wlp_stmt) (use assms in \<open>auto simp: wlp_def find_Some_iff split: option.split\<close>)

lemma wlp_exec_affecting [wlp_intros]:
  assumes "\<And>fs. hits (w\<lparr>w_faults := fs\<rparr>) \<Longrightarrow> Q () (f (w\<lparr>w_faults := fs\<rparr>))"
  shows "wlp (exec_affecting hits err f) Q w"
  unfolding exec_affecting_def
  by (rule wlp_stmt) (use assms in \<open>auto simp: wlp_def\<close>)

lemma keeps_update_returning:
  assumes "ignores_faults I" and "\<And>w rows. I w \<Longrightarrow> I (put (upd_where hit (upd (w_now w)) (tab w)) w)"
  shows "keeps I (update_returning tab put err hit upd)"
  unfolding update_returning_def
  by (rule keeps_stmt [OF assms(1)]) (use assms(2) in \<open>auto simp: upholds_def split: option.split\<close>)

lemma keeps_exec_affecting:
  assumes "ignores_faults I" and "\<And>w. I w \<Longrightarrow> I (f w)"
  shows "keeps I (exec_affecting hits err f)"
  unfolding exec_affecting_def
  by (rule keeps_stmt [OF assms(1)]) (use assms(2) in \<open>auto simp: upholds_def\<close>)

lemma keeps_select_one: "ignores_faults I \<Longrightarrow> keeps I (select_one tab P)"
  unfolding select_one_def by (rule keeps_stmt) (auto simp: upholds_def split: option.split)

end
