(* ===== verification/Vault.thy ===== *)
theory Vault
  imports World
begin

text \<open>
  The vault (\<open>internal/vault/vault.go\<close>): envelope encryption over an AEAD.  AES-GCM and the random
  source are library code: the cipher is the record \<open>aead\<close>, every random string an argument.
  The key-encryption keys are a map from version to key; the mutex and the zeroing of buffers
  have no counterpart.
\<close>

section \<open>Definitions\<close>

definition KeyLen :: nat where "KeyLen = 32"
definition NonceSize :: nat where "NonceSize = 12"
definition Overhead :: nat where "Overhead = 16"

text \<open>\<open>gcm_Seal key nonce plaintext aad\<close> is ciphertext and tag; \<open>gcm_Open\<close> is \<open>None\<close> when the tag
  does not authenticate.\<close>

record aead =
  gcm_Seal :: "string \<Rightarrow> string \<Rightarrow> string \<Rightarrow> string \<Rightarrow> string"
  gcm_Open :: "string \<Rightarrow> string \<Rightarrow> string \<Rightarrow> string \<Rightarrow> string option"

definition aeadSeal :: "aead \<Rightarrow> string \<Rightarrow> string \<Rightarrow> string \<Rightarrow> string \<Rightarrow> string result" where
  "aeadSeal A key nonce plaintext aad =
     (if length key \<noteq> KeyLen then Inl (ErrOther ''vault: key must be 32 bytes'')
      else Inr (nonce @ gcm_Seal A key nonce plaintext aad))"

definition aeadOpen :: "aead \<Rightarrow> string \<Rightarrow> string \<Rightarrow> string \<Rightarrow> string result" where
  "aeadOpen A key blob aad =
     (if length key \<noteq> KeyLen then Inl (ErrOther ''vault: key must be 32 bytes'')
      else if length blob < NonceSize + Overhead then Inl (ErrOther ''ciphertext too short'')
      else case gcm_Open A key (take NonceSize blob) (drop NonceSize blob) aad of
             None \<Rightarrow> Inl (ErrOther ''authentication failed'') | Some out \<Rightarrow> Inr out)"

record vault =
  keks :: "int \<Rightarrow> string option"
  current :: int

definition New :: vault where
  "New = \<lparr>keks = Map.empty, current = 0\<rparr>"

definition Unseal :: "int \<Rightarrow> string \<Rightarrow> vault \<Rightarrow> vault result" where
  "Unseal version kek v =
     (if length kek \<noteq> KeyLen then Inl (ErrOther ''vault: key must be 32 bytes'')
      else if version < 1 then Inl (ErrOther ''vault: KEK version must be >= 1'')
      else Inr (v\<lparr>keks := (keks v)(version \<mapsto> kek),
                  current := (if version > current v then version else current v)\<rparr>))"

definition Seal :: "vault \<Rightarrow> vault" where
  "Seal v = v\<lparr>keks := Map.empty, current := 0\<rparr>"

definition IsSealed :: "vault \<Rightarrow> bool" where
  "IsSealed v \<longleftrightarrow> current v = 0"

definition CurrentVersion :: "vault \<Rightarrow> int" where
  "CurrentVersion v = current v"

definition ErrSealed :: gerror where "ErrSealed = ErrOther ''vault: sealed''"
definition ErrUnknownKEK :: gerror where "ErrUnknownKEK = ErrOther ''vault: unknown KEK version''"

text \<open>The random strings an operation draws: a data-encryption key and two nonces.\<close>

record entropy =
  rnd_DEK :: string
  rnd_Nonce1 :: string
  rnd_Nonce2 :: string

definition Encrypt :: "aead \<Rightarrow> vault \<Rightarrow> entropy \<Rightarrow> string \<Rightarrow> string \<Rightarrow> sealed result" where
  "Encrypt A v rnd plaintext aad =
     (if current v = 0 then Inl ErrSealed
      else case keks v (current v) of None \<Rightarrow> Inl ErrSealed
      | Some kek \<Rightarrow>
          bindR (aeadSeal A (rnd_DEK rnd) (rnd_Nonce1 rnd) plaintext aad) (\<lambda>ciphertext.
          bindR (aeadSeal A kek (rnd_Nonce2 rnd) (rnd_DEK rnd) aad) (\<lambda>wrapped.
          Inr \<lparr>KEKVersion = current v, WrappedDEK = wrapped, Ciphertext = ciphertext\<rparr>)))"

definition Decrypt :: "aead \<Rightarrow> vault \<Rightarrow> sealed \<Rightarrow> string \<Rightarrow> string result" where
  "Decrypt A v s aad =
     (if current v = 0 then Inl ErrSealed
      else case keks v (KEKVersion s) of None \<Rightarrow> Inl ErrUnknownKEK
      | Some kek \<Rightarrow> bindR (aeadOpen A kek (WrappedDEK s) aad) (\<lambda>dek. aeadOpen A dek (Ciphertext s) aad))"

definition Rewrap :: "aead \<Rightarrow> vault \<Rightarrow> string \<Rightarrow> sealed \<Rightarrow> string \<Rightarrow> sealed result" where
  "Rewrap A v nonce s aad =
     (if current v = 0 then Inl ErrSealed
      else case keks v (current v) of None \<Rightarrow> Inl ErrSealed
      | Some newKEK \<Rightarrow>
          if KEKVersion s = current v then Inr s
          else case keks v (KEKVersion s) of None \<Rightarrow> Inl ErrUnknownKEK
          | Some oldKEK \<Rightarrow>
              bindR (aeadOpen A oldKEK (WrappedDEK s) aad) (\<lambda>dek.
              bindR (aeadSeal A newKEK nonce dek aad) (\<lambda>wrapped.
              Inr \<lparr>KEKVersion = current v, WrappedDEK = wrapped, Ciphertext = Ciphertext s\<rparr>)))"

section \<open>What the code relies on\<close>

text \<open>The documented contract of \<open>cipher.AEAD\<close>: \<open>Open\<close> undoes \<open>Seal\<close> under the same key, nonce and
  additional data, and the output is \<open>Overhead\<close> bytes longer than the plaintext.\<close>

definition aead_roundtrip :: "aead \<Rightarrow> bool" where
  "aead_roundtrip A \<longleftrightarrow> (\<forall>k n p a. gcm_Open A k n (gcm_Seal A k n p a) a = Some p
      \<and> length (gcm_Seal A k n p a) = length p + Overhead)"

text \<open>Authentication of the additional data, for one pair of values.\<close>

definition aead_binds :: "aead \<Rightarrow> string \<Rightarrow> string \<Rightarrow> bool" where
  "aead_binds A a a' \<longleftrightarrow> (\<forall>k n p. gcm_Open A k n (gcm_Seal A k n p a) a' = None)"

section \<open>Lemmas\<close>

lemma aeadOpen_Seal:
  assumes "aead_roundtrip A" and "length n = NonceSize" and "aeadSeal A k n p a = Inr blob"
  shows "aeadOpen A k blob a = Inr p"
  using assms by (auto simp: aeadSeal_def aeadOpen_def aead_roundtrip_def split: if_splits)

lemma aeadOpen_other:
  assumes "aead_roundtrip A" and "aead_binds A a a'" and "length n = NonceSize" and "aeadSeal A k n p a = Inr blob"
  shows "aeadOpen A k blob a' = Inl (ErrOther ''authentication failed'')"
  using assms by (auto simp: aeadSeal_def aeadOpen_def aead_roundtrip_def aead_binds_def split: if_splits)

lemma EncryptE:
  assumes "Encrypt A v rnd p a = Inr s"
  obtains kek where "current v \<noteq> 0" "keks v (current v) = Some kek" "KEKVersion s = current v"
    "aeadSeal A (rnd_DEK rnd) (rnd_Nonce1 rnd) p a = Inr (Ciphertext s)"
    "aeadSeal A kek (rnd_Nonce2 rnd) (rnd_DEK rnd) a = Inr (WrappedDEK s)"
  using assms by (auto simp: Encrypt_def split: if_splits option.splits)

lemma RewrapE:
  assumes "Rewrap A v n s a = Inr s'" and "KEKVersion s \<noteq> current v"
  obtains old new dek where "current v \<noteq> 0" "keks v (current v) = Some new" "keks v (KEKVersion s) = Some old"
    "aeadOpen A old (WrappedDEK s) a = Inr dek" "aeadSeal A new n dek a = Inr (WrappedDEK s')"
    "KEKVersion s' = current v" "Ciphertext s' = Ciphertext s"
  using assms by (auto simp: Rewrap_def split: if_splits option.splits)

text \<open>A concrete \<open>aead\<close> for the witnesses: the plaintext followed by the first 16 characters of the
  padded additional data.  It satisfies both hypotheses at the values used there.\<close>

definition toy_tag :: "string \<Rightarrow> string" where
  "toy_tag a = take 16 (a @ replicate 16 (CHR ''.''))"

definition toy_aead :: aead where
  "toy_aead = \<lparr>gcm_Seal = (\<lambda>k n p a. p @ toy_tag a),
     gcm_Open = (\<lambda>k n c a. if drop (length c - 16) c = toy_tag a then Some (take (length c - 16) c) else None)\<rparr>"

lemma length_toy_tag [simp]: "length (toy_tag a) = 16"
  by (simp add: toy_tag_def)

lemma toy_roundtrip: "aead_roundtrip toy_aead"
  by (simp add: aead_roundtrip_def toy_aead_def Overhead_def)

lemma toy_binds: "toy_tag a \<noteq> toy_tag a' \<Longrightarrow> aead_binds toy_aead a a'"
  by (simp add: aead_binds_def toy_aead_def)

definition toy_vault :: vault where
  "toy_vault = \<lparr>keks = [1 \<mapsto> replicate 32 (CHR ''k''), 2 \<mapsto> replicate 32 (CHR ''l'')], current = 2\<rparr>"

definition toy_entropy :: entropy where
  "toy_entropy = \<lparr>rnd_DEK = replicate 32 (CHR ''d''), rnd_Nonce1 = replicate 12 (CHR ''n''),
     rnd_Nonce2 = replicate 12 (CHR ''m'')\<rparr>"

section \<open>Properties\<close>

text \<open>C19. What \<open>Encrypt\<close> seals, \<open>Decrypt\<close> returns for the same additional data, now and after any
  further \<open>Unseal\<close> of another version: installing a newer KEK never makes an older secret
  unreadable.  Under any other additional data (another row's identifier) it is refused.\<close>

theorem decrypt_encrypt:
  assumes "aead_roundtrip A" and "length (rnd_Nonce1 rnd) = NonceSize" and "length (rnd_Nonce2 rnd) = NonceSize"
    and "Encrypt A v rnd p aad = Inr s"
    and "Unseal ver kek v = Inr v'" and "ver \<noteq> current v"
  shows "Decrypt A v s aad = Inr p \<and> Decrypt A v' s aad = Inr p
    \<and> (aead_binds A aad aad' \<longrightarrow> is_ok (Decrypt A v s aad') = False)"
proof -
  obtain k where k: "current v \<noteq> 0" "keks v (current v) = Some k" "KEKVersion s = current v"
      "aeadSeal A (rnd_DEK rnd) (rnd_Nonce1 rnd) p aad = Inr (Ciphertext s)"
      "aeadSeal A k (rnd_Nonce2 rnd) (rnd_DEK rnd) aad = Inr (WrappedDEK s)"
    using EncryptE [OF assms(4)] .
  note o = aeadOpen_Seal [OF assms(1,2) k(4)] aeadOpen_Seal [OF assms(1,3) k(5)]
  have v': "keks v' (current v) = Some k" "current v' \<noteq> 0"
    using assms(5,6) k(1,2) by (auto simp: Unseal_def split: if_splits)
  show ?thesis
    using k(1-3) o v' aeadOpen_other [OF assms(1) _ assms(3) k(5)] by (auto simp: Decrypt_def)
qed

theorem decrypt_encrypt_witness:
  "\<exists>s. Encrypt toy_aead toy_vault toy_entropy ''secret'' ''row-1'' = Inr s
     \<and> Decrypt toy_aead toy_vault s ''row-1'' = Inr ''secret''
     \<and> \<not> is_ok (Decrypt toy_aead toy_vault s ''row-2'')"
proof -
  let ?A = toy_aead and ?s = "\<lparr>KEKVersion = 2,
      WrappedDEK = replicate 12 (CHR ''m'') @ replicate 32 (CHR ''d'') @ toy_tag ''row-1'',
      Ciphertext = replicate 12 (CHR ''n'') @ ''secret'' @ toy_tag ''row-1''\<rparr>"
  have e: "Encrypt ?A toy_vault toy_entropy ''secret'' ''row-1'' = Inr ?s"
    by (simp add: Encrypt_def toy_vault_def toy_entropy_def aeadSeal_def KeyLen_def toy_aead_def)
  have u: "Unseal 3 (replicate 32 (CHR ''z'')) toy_vault = Inr (toy_vault\<lparr>keks := (keks toy_vault)(3 \<mapsto> replicate 32 (CHR ''z'')), current := 3\<rparr>)"
    by (simp add: Unseal_def KeyLen_def toy_vault_def)
  have "toy_tag ''row-1'' \<noteq> toy_tag ''row-2''" by (simp add: toy_tag_def)
  with decrypt_encrypt [OF toy_roundtrip _ _ e u, of "''row-2''"] e show ?thesis
    by (simp add: toy_entropy_def NonceSize_def toy_vault_def toy_binds)
qed

text \<open>C20. \<open>Rewrap\<close> moves a secret to the current KEK without touching its ciphertext: the result decrypts
  to the same plaintext, also in a vault that holds only the current KEK, and rewrapping again
  changes nothing.\<close>

theorem rewrap_correct:
  assumes "aead_roundtrip A" and "length n = NonceSize"
    and "Rewrap A v n s aad = Inr s'" and "Decrypt A v s aad = Inr p"
  shows "Ciphertext s' = Ciphertext s \<and> KEKVersion s' = current v \<and> Decrypt A v s' aad = Inr p
    \<and> Decrypt A (v\<lparr>keks := [current v \<mapsto> the (keks v (current v))]\<rparr>) s' aad = Inr p
    \<and> Rewrap A v n' s' aad = Inr s'"
proof (cases "KEKVersion s = current v")
  case True
  with assms(3,4) show ?thesis
    by (auto simp: Rewrap_def Decrypt_def split: if_splits option.splits)
next
  case False
  obtain old new dek where o: "current v \<noteq> 0" "keks v (current v) = Some new" "keks v (KEKVersion s) = Some old"
      "aeadOpen A old (WrappedDEK s) aad = Inr dek" "aeadSeal A new n dek aad = Inr (WrappedDEK s')"
      "KEKVersion s' = current v" "Ciphertext s' = Ciphertext s"
    using RewrapE [OF assms(3) False] .
  with assms(4) aeadOpen_Seal [OF assms(1,2) o(5)] show ?thesis
    by (simp add: Decrypt_def Rewrap_def)
qed

theorem rewrap_correct_witness:
  "\<exists>s s'. Rewrap toy_aead toy_vault (replicate 12 (CHR ''q'')) s ''row-1'' = Inr s'
     \<and> Decrypt toy_aead toy_vault s' ''row-1'' = Inr ''secret'' \<and> KEKVersion s = 1 \<and> KEKVersion s' = 2"
proof -
  let ?A = toy_aead and ?n = "replicate 12 (CHR ''q'')" and ?t = "toy_tag ''row-1''"
  let ?s = "\<lparr>KEKVersion = 1, WrappedDEK = replicate 12 (CHR ''m'') @ replicate 32 (CHR ''d'') @ ?t,
      Ciphertext = replicate 12 (CHR ''n'') @ ''secret'' @ ?t\<rparr>"
  have d: "Decrypt ?A toy_vault ?s ''row-1'' = Inr ''secret''"
    by (simp add: Decrypt_def toy_vault_def aeadOpen_def KeyLen_def NonceSize_def Overhead_def toy_aead_def)
  have r: "Rewrap ?A toy_vault ?n ?s ''row-1'' = Inr (?s\<lparr>KEKVersion := 2, WrappedDEK := ?n @ replicate 32 (CHR ''d'') @ ?t\<rparr>)"
    by (simp add: Rewrap_def toy_vault_def aeadOpen_def aeadSeal_def KeyLen_def NonceSize_def Overhead_def toy_aead_def)
  have "Decrypt ?A toy_vault (?s\<lparr>KEKVersion := 2, WrappedDEK := ?n @ replicate 32 (CHR ''d'') @ ?t\<rparr>) ''row-1'' = Inr ''secret''"
    using rewrap_correct [OF toy_roundtrip _ r d] by (simp add: NonceSize_def)
  with r show ?thesis
    by (intro exI [of _ ?s] exI [of _ "?s\<lparr>KEKVersion := 2, WrappedDEK := ?n @ replicate 32 (CHR ''d'') @ ?t\<rparr>"]) simp
qed

text \<open>A sealed vault does nothing: after \<open>Seal\<close>, encrypting, decrypting and rewrapping fail with
  \<open>ErrSealed\<close> whatever they are given.  The current version is always the highest one unsealed.\<close>

theorem sealed_vault_refuses:
  "Encrypt A (Seal v) rnd p aad = Inl ErrSealed \<and> Decrypt A (Seal v) s aad = Inl ErrSealed
    \<and> Rewrap A (Seal v) n s aad = Inl ErrSealed \<and> IsSealed (Seal v)
    \<and> (case Unseal ver kek v of Inl _ \<Rightarrow> (if length kek = KeyLen then ver < 1 else True)
        | Inr v' \<Rightarrow> CurrentVersion v' = max ver (CurrentVersion v) \<and> ver \<in> dom (keks v') \<and> dom (keks v) \<subseteq> dom (keks v'))"
  by (auto simp: Encrypt_def Decrypt_def Rewrap_def Seal_def IsSealed_def Unseal_def CurrentVersion_def
      split: sum.splits)

end
