(* ===== verification/AuthKeys.thy ===== *)
theory AuthKeys
  imports GoLib
begin

text \<open>
  \<open>internal/keys\<close>: the algorithm table (algorithm.go) and the \<open>authorized_keys\<close> editor
  (authorized.go).  The SSH library (\<open>golang.org/x/crypto/ssh\<close>) is not part of the
  repository: its line parser, its wire-format printer, the type name and the SHA256
  fingerprint are the fields of \<open>ssh_lib\<close>, over an opaque type \<open>'p\<close> of public keys.
\<close>

section \<open>Algorithms (algorithm.go)\<close>

datatype algorithm = Ed25519 | ECDSAP256 | ECDSAP384 | ECDSAP521 | RSA3072 | RSA4096

definition DefaultAlgorithm :: algorithm where "DefaultAlgorithm = Ed25519"
definition MinRSABits :: nat where "MinRSABits = 3072"

record algorithm_info =
  ai_bits :: nat
  ai_curve :: string
  ai_sshType :: string
  ai_generable :: bool

fun algorithms :: "algorithm \<Rightarrow> algorithm_info" where
  "algorithms Ed25519 = \<lparr>ai_bits = 256, ai_curve = '''', ai_sshType = ''ssh-ed25519'', ai_generable = True\<rparr>"
| "algorithms ECDSAP256 = \<lparr>ai_bits = 256, ai_curve = ''P-256'', ai_sshType = ''ecdsa-sha2-nistp256'', ai_generable = True\<rparr>"
| "algorithms ECDSAP384 = \<lparr>ai_bits = 384, ai_curve = ''P-384'', ai_sshType = ''ecdsa-sha2-nistp384'', ai_generable = True\<rparr>"
| "algorithms ECDSAP521 = \<lparr>ai_bits = 521, ai_curve = ''P-521'', ai_sshType = ''ecdsa-sha2-nistp521'', ai_generable = True\<rparr>"
| "algorithms RSA3072 = \<lparr>ai_bits = 3072, ai_curve = '''', ai_sshType = ''ssh-rsa'', ai_generable = True\<rparr>"
| "algorithms RSA4096 = \<lparr>ai_bits = 4096, ai_curve = '''', ai_sshType = ''ssh-rsa'', ai_generable = True\<rparr>"

definition Bits :: "algorithm \<Rightarrow> nat" where "Bits a = ai_bits (algorithms a)"
definition SSHType :: "algorithm \<Rightarrow> string" where "SSHType a = ai_sshType (algorithms a)"

fun algorithm_String :: "algorithm \<Rightarrow> string" where
  "algorithm_String Ed25519 = ''ed25519''"
| "algorithm_String ECDSAP256 = ''ecdsa-p256''"
| "algorithm_String ECDSAP384 = ''ecdsa-p384''"
| "algorithm_String ECDSAP521 = ''ecdsa-p521''"
| "algorithm_String RSA3072 = ''rsa-3072''"
| "algorithm_String RSA4096 = ''rsa-4096''"

text \<open>The normalisation of user input: trim, lower-case, underscores to hyphens.\<close>

definition norm_algorithm :: "string \<Rightarrow> string" where
  "norm_algorithm s = map (\<lambda>c. if c = CHR ''_'' then CHR ''-'' else c) (to_lower (trim_space s))"

definition ParseAlgorithm :: "string \<Rightarrow> algorithm result" where
  "ParseAlgorithm s = (let norm = norm_algorithm s in
     if norm \<in> set ['''', ''default''] then Inr DefaultAlgorithm
     else if norm \<in> set [''ed25519'', ''ssh-ed25519''] then Inr Ed25519
     else if norm \<in> set [''ecdsa'', ''ecdsa-p256'', ''ecdsa-256'', ''nistp256'', ''ecdsa-sha2-nistp256''] then Inr ECDSAP256
     else if norm \<in> set [''ecdsa-p384'', ''ecdsa-384'', ''nistp384'', ''ecdsa-sha2-nistp384''] then Inr ECDSAP384
     else if norm \<in> set [''ecdsa-p521'', ''ecdsa-521'', ''nistp521'', ''ecdsa-sha2-nistp521''] then Inr ECDSAP521
     else if norm \<in> set [''rsa'', ''rsa-3072'', ''rsa3072''] then Inr RSA3072
     else if norm \<in> set [''rsa-4096'', ''rsa4096''] then Inr RSA4096
     else if norm \<in> set [''rsa-1024'', ''rsa-2048'', ''dsa'', ''ssh-dss''] then Inl (ErrOther ''below the security floor'')
     else Inl (ErrOther ''unknown algorithm''))"

section \<open>Entries (authorized.go)\<close>

record 'p ssh_lib =
  ssh_Parse :: "string \<Rightarrow> ('p \<times> string \<times> string list) option"  \<comment> \<open>key, comment, options\<close>
  ssh_Type :: "'p \<Rightarrow> string"
  ssh_Fingerprint :: "'p \<Rightarrow> string"
  ssh_Marshal :: "'p \<Rightarrow> string"

text \<open>\<open>ssh.ParseAuthorizedKey\<close> reads a line up to its first carriage return.\<close>

definition ParseAuthorizedKey :: "'p ssh_lib \<Rightarrow> string \<Rightarrow> ('p \<times> string \<times> string list) option" where
  "ParseAuthorizedKey L line = ssh_Parse L (if LF \<in> set line then line else takeWhile (\<lambda>c. c \<noteq> CR) line)"

datatype entry_kind = EntryKey | EntryComment | EntryBlank | EntryInvalid

record 'p entry =
  e_Kind :: entry_kind
  e_Raw :: string
  e_Options :: "string list"
  e_Type :: string
  e_PublicKey :: "'p option"
  e_Comment :: string
  e_Fingerprint :: string
  e_dirty :: bool

record 'p authorized_keys =
  Entries :: "'p entry list"
  TrailingNewline :: bool

definition plain_entry :: "entry_kind \<Rightarrow> string \<Rightarrow> 'p entry" where
  "plain_entry kind line = \<lparr>e_Kind = kind, e_Raw = line, e_Options = [], e_Type = [],
     e_PublicKey = None, e_Comment = [], e_Fingerprint = [], e_dirty = False\<rparr>"

definition parseLine :: "'p ssh_lib \<Rightarrow> string \<Rightarrow> 'p entry" where
  "parseLine L line = (let trimmed = trim_space line in
     if trimmed = [] then plain_entry EntryBlank line
     else if prefix ''#'' trimmed then plain_entry EntryComment line
     else (case ParseAuthorizedKey L line of
        None \<Rightarrow> plain_entry EntryInvalid line
      | Some (pub, comment, options) \<Rightarrow>
          \<lparr>e_Kind = EntryKey, e_Raw = line, e_Options = options, e_Type = ssh_Type L pub,
           e_PublicKey = Some pub, e_Comment = comment, e_Fingerprint = ssh_Fingerprint L pub,
           e_dirty = False\<rparr>))"

definition ParseAuthorizedKeys :: "'p ssh_lib \<Rightarrow> string \<Rightarrow> 'p authorized_keys" where
  "ParseAuthorizedKeys L data =
     \<lparr>Entries = (if data = [] then []
        else map (parseLine L) (split_on LF (trim_suffix_lf (crlf_to_lf data)))),
      TrailingNewline = (data \<noteq> [] \<and> last data = LF)\<rparr>"

definition render :: "'p ssh_lib \<Rightarrow> 'p entry \<Rightarrow> string" where
  "render L e = (if e_Kind e \<noteq> EntryKey then e_Raw e
     else (if e_Options e \<noteq> [] then join_with '','' (e_Options e) @ '' '' else [])
       @ trim_space (case e_PublicKey e of None \<Rightarrow> [] | Some p \<Rightarrow> ssh_Marshal L p)
       @ (let c = trim_space (e_Comment e) in if c \<noteq> [] then '' '' @ c else []))"

definition NewEntry :: "'p ssh_lib \<Rightarrow> string \<Rightarrow> string list \<Rightarrow> 'p entry result" where
  "NewEntry L publicLine options =
     (case ParseAuthorizedKey L publicLine of
        None \<Rightarrow> Inl (ErrOther ''parsing public key line'')
      | Some (pub, comment, inlineOpts) \<Rightarrow>
          let e = \<lparr>e_Kind = EntryKey, e_Raw = [],
                   e_Options = (if options = [] then inlineOpts else options),
                   e_Type = ssh_Type L pub, e_PublicKey = Some pub, e_Comment = comment,
                   e_Fingerprint = ssh_Fingerprint L pub, e_dirty = True\<rparr>
          in Inr (e\<lparr>e_Raw := render L e\<rparr>))"

definition Line :: "'p ssh_lib \<Rightarrow> 'p entry \<Rightarrow> string" where
  "Line L e = (if e_dirty e then render L e else e_Raw e)"

definition Bytes :: "'p ssh_lib \<Rightarrow> 'p authorized_keys \<Rightarrow> string" where
  "Bytes L ak = join_with [LF] (map (Line L) (Entries ak))
     @ (if Entries ak \<noteq> [] \<and> TrailingNewline ak then [LF] else [])"

definition Keys :: "'p authorized_keys \<Rightarrow> 'p entry list" where
  "Keys ak = filter (\<lambda>e. e_Kind e = EntryKey) (Entries ak)"

definition Fingerprints :: "'p authorized_keys \<Rightarrow> string list" where
  "Fingerprints ak = map e_Fingerprint (filter (\<lambda>e. e_Kind e = EntryKey) (Entries ak))"

definition is_key_with :: "string \<Rightarrow> 'p entry \<Rightarrow> bool" where
  "is_key_with fp e \<longleftrightarrow> e_Kind e = EntryKey \<and> e_Fingerprint e = fp"

text \<open>Position of the first match; \<open>None\<close> is the source's -1.\<close>

fun index_where :: "('a \<Rightarrow> bool) \<Rightarrow> 'a list \<Rightarrow> nat option" where
  "index_where P [] = None"
| "index_where P (x # xs) = (if P x then Some 0 else map_option Suc (index_where P xs))"

definition IndexOf :: "'p authorized_keys \<Rightarrow> string \<Rightarrow> nat option" where
  "IndexOf ak fp = index_where (is_key_with fp) (Entries ak)"

definition Has :: "'p authorized_keys \<Rightarrow> string \<Rightarrow> bool" where
  "Has ak fp \<longleftrightarrow> IndexOf ak fp \<noteq> None"

fun equalOptions :: "string list \<Rightarrow> string list \<Rightarrow> bool" where
  "equalOptions [] [] = True"
| "equalOptions (a # as) (b # bs) = (a = b \<and> equalOptions as bs)"
| "equalOptions _ _ = False"

definition Upsert :: "'p authorized_keys \<Rightarrow> 'p entry \<Rightarrow> 'p authorized_keys \<times> bool" where
  "Upsert ak e =
     (if e_Kind e \<noteq> EntryKey then (ak, False)
      else (case IndexOf ak (e_Fingerprint e) of
         None \<Rightarrow> (ak\<lparr>Entries := Entries ak @ [e\<lparr>e_dirty := True\<rparr>], TrailingNewline := True\<rparr>, True)
       | Some i \<Rightarrow>
          let existing = Entries ak ! i in
          if equalOptions (e_Options existing) (e_Options e) \<and> e_Comment existing = e_Comment e
          then (ak, False)
          else (ak\<lparr>Entries := (Entries ak)[i := e\<lparr>e_dirty := True\<rparr>]\<rparr>, True)))"

definition Remove :: "'p authorized_keys \<Rightarrow> string \<Rightarrow> 'p authorized_keys \<times> bool" where
  "Remove ak fp = (case IndexOf ak fp of
       None \<Rightarrow> (ak, False)
     | Some i \<Rightarrow> (ak\<lparr>Entries := take i (Entries ak) @ drop (Suc i) (Entries ak)\<rparr>, True))"

definition Count :: "'p authorized_keys \<Rightarrow> nat" where
  "Count ak = length (Keys ak)"

section \<open>Lemmas\<close>

lemma index_where_None: "index_where P xs = None \<longleftrightarrow> (\<forall>x\<in>set xs. \<not> P x)"
  by (induction xs) auto

lemma index_where_Some:
  "index_where P xs = Some i \<longleftrightarrow> i < length xs \<and> P (xs ! i) \<and> (\<forall>j<i. \<not> P (xs ! j))"
proof (induction xs arbitrary: i)
  case (Cons x xs)
  then show ?case
    by (cases i) (auto simp: less_Suc_eq_0_disj)
qed simp

lemma equalOptions_eq [simp]: "equalOptions as bs \<longleftrightarrow> as = bs"
  by (induction as bs rule: equalOptions.induct) auto

lemma set_Fingerprints: "set (Fingerprints ak) = e_Fingerprint ` {e \<in> set (Entries ak). e_Kind e = EntryKey}"
  by (auto simp: Fingerprints_def)

lemma Has_iff: "Has ak fp \<longleftrightarrow> fp \<in> set (Fingerprints ak)"
  by (auto simp: Has_def IndexOf_def index_where_None is_key_with_def set_Fingerprints)

lemma Count_Fingerprints: "Count ak = length (Fingerprints ak)"
  by (simp add: Count_def Keys_def Fingerprints_def)

lemma IndexOf_SomeD:
  assumes "IndexOf ak fp = Some i"
  shows "i < length (Entries ak)" "e_Kind (Entries ak ! i) = EntryKey"
    "e_Fingerprint (Entries ak ! i) = fp"
  using assms by (auto simp: IndexOf_def index_where_Some is_key_with_def)

lemma split_at: "i < length xs \<Longrightarrow> xs = take i xs @ xs ! i # drop (Suc i) xs"
  by (rule id_take_nth_drop)

lemma Fingerprints_Upsert:
  "Fingerprints (fst (Upsert ak e)) =
     (if e_Kind e = EntryKey \<and> \<not> Has ak (e_Fingerprint e) then Fingerprints ak @ [e_Fingerprint e]
      else Fingerprints ak)"
proof (cases "IndexOf ak (e_Fingerprint e)")
  case None
  then show ?thesis by (simp add: Upsert_def Has_def Fingerprints_def)
next
  case (Some i)
  note i = IndexOf_SomeD [OF Some]
  let ?xs = "Entries ak"
  have "map e_Fingerprint (filter (\<lambda>e. e_Kind e = EntryKey) (?xs[i := e\<lparr>e_dirty := True\<rparr>]))
      = map e_Fingerprint (filter (\<lambda>e. e_Kind e = EntryKey) ?xs)" if "e_Kind e = EntryKey"
    using i that by (subst (2) split_at [OF i(1)]) (simp add: upd_conv_take_nth_drop)
  then show ?thesis
    using Some by (simp add: Upsert_def Has_def Fingerprints_def Let_def)
qed

lemma Fingerprints_Remove: "Fingerprints (fst (Remove ak fp)) = remove1 fp (Fingerprints ak)"
proof (cases "IndexOf ak fp")
  case None
  then show ?thesis
    using Has_iff [of ak fp] by (simp add: Remove_def Has_def remove1_idem)
next
  case (Some i)
  note i = IndexOf_SomeD [OF Some]
  let ?F = "\<lambda>xs. map e_Fingerprint (filter (\<lambda>e. e_Kind e = EntryKey) xs)"
  have "fp \<notin> set (?F (take i (Entries ak)))"
    using Some by (auto simp: IndexOf_def index_where_Some is_key_with_def in_set_conv_nth)
  moreover have "?F (Entries ak) = ?F (take i (Entries ak)) @ fp # ?F (drop (Suc i) (Entries ak))"
    using i by (subst split_at [OF i(1)]) simp
  ultimately show ?thesis
    using Some by (simp add: Remove_def Fingerprints_def remove1_append)
qed

lemma Upsert_unchanged: "\<not> snd (Upsert ak e) \<Longrightarrow> fst (Upsert ak e) = ak"
  by (auto simp: Upsert_def Let_def split: option.splits if_splits)

lemma Line_parseLine [simp]: "Line L (parseLine L s) = s"
  by (simp add: Line_def parseLine_def plain_entry_def Let_def split: option.splits prod.splits)

lemma last_crlf: "s \<noteq> [] \<Longrightarrow> last (crlf_to_lf s) = last s"
  by (induction s rule: crlf_to_lf.induct) auto

lemma trim_suffix_lf_append: "s \<noteq> [] \<Longrightarrow> trim_suffix_lf s @ (if last s = LF then [LF] else []) = s"
  using append_butlast_last_id [of s] by (auto simp: trim_suffix_lf_def simp del: append_butlast_last_id)

text \<open>An entry written out and read back is a key with the same fingerprint.\<close>

definition stable_line :: "'p ssh_lib \<Rightarrow> 'p entry \<Rightarrow> bool" where
  "stable_line L e \<longleftrightarrow> LF \<notin> set (Line L e)
     \<and> e_Kind (parseLine L (Line L e)) = e_Kind e
     \<and> (e_Kind e = EntryKey \<longrightarrow> e_Fingerprint (parseLine L (Line L e)) = e_Fingerprint e)"

text \<open>A final carriage return is white space to the parser.\<close>

definition chomp :: "string \<Rightarrow> string" where
  "chomp s = (if s \<noteq> [] \<and> last s = CR then butlast s else s)"

lemma crlf_to_lf_line: "LF \<notin> set s \<Longrightarrow> crlf_to_lf (s @ LF # t) = chomp s @ LF # crlf_to_lf t"
proof (induction s)
  case (Cons a s)
  then show ?case by (cases s) (auto simp: chomp_def)
qed (cases t; simp add: chomp_def)

lemma crlf_to_lf_no_lf: "LF \<notin> set s \<Longrightarrow> crlf_to_lf s = s"
  by (induction s rule: crlf_to_lf.induct) auto

lemma parseLine_chomp:
  assumes "LF \<notin> set s"
  shows "e_Kind (parseLine L (chomp s)) = e_Kind (parseLine L s)"
    "e_Fingerprint (parseLine L (chomp s)) = e_Fingerprint (parseLine L s)"
proof -
  have t: "trim_space (chomp s) = trim_space s"
  proof (cases "s \<noteq> [] \<and> last s = CR")
    case True
    then obtain s' where "s = s' @ [CR]" by (metis append_butlast_last_id)
    then show ?thesis by (simp add: chomp_def trim_space_snoc_cr)
  qed (auto simp: chomp_def)
  have p: "ParseAuthorizedKey L (chomp s) = ParseAuthorizedKey L s"
  proof (cases "s \<noteq> [] \<and> last s = CR")
    case True
    then obtain s' where s: "s = s' @ [CR]" by (metis append_butlast_last_id)
    have w: "takeWhile (\<lambda>c. c \<noteq> CR) (s' @ [CR]) = takeWhile (\<lambda>c. c \<noteq> CR) s'" by (induction s') auto
    have c: "chomp s = s'" by (simp add: chomp_def s)
    have "LF \<notin> set s'" using assms by (simp add: s)
    with assms show ?thesis unfolding ParseAuthorizedKey_def c by (simp only: s w if_False)
  qed (auto simp: chomp_def)
  show "e_Kind (parseLine L (chomp s)) = e_Kind (parseLine L s)"
    "e_Fingerprint (parseLine L (chomp s)) = e_Fingerprint (parseLine L s)"
    by (auto simp: parseLine_def t p plain_entry_def Let_def split: option.splits prod.splits)
qed

lemma map_Line_parseLine [simp]: "map (Line L) (map (parseLine L) ls) = ls"
  by (induction ls) simp_all

lemma stable_lineD:
  assumes "stable_line L e"
  shows "LF \<notin> set (Line L e)"
    "e_Kind (parseLine L (Line L e)) = e_Kind e"
    "e_Kind e = EntryKey \<Longrightarrow> e_Fingerprint (parseLine L (Line L e)) = e_Fingerprint e"
  using assms by (auto simp: stable_line_def)

lemma fingerprints_reparse:
  assumes "\<forall>e\<in>set es. stable_line L e"
  shows "map e_Fingerprint (filter (\<lambda>e. e_Kind e = EntryKey) (map (parseLine L \<circ> Line L) es))
       = map e_Fingerprint (filter (\<lambda>e. e_Kind e = EntryKey) es)"
  using assms by (induction es) (auto dest: stable_lineD)

lemma parseLine_Nil_kind [simp]: "e_Kind (parseLine L []) = EntryBlank"
  by (simp add: parseLine_def plain_entry_def trim_space_def strip_id)

lemma set_join_with: "set (join_with sep xs) \<subseteq> set sep \<union> \<Union> (set ` set xs)"
  by (induction sep xs rule: join_with.induct) auto

text \<open>What the parser makes of rendered text: the rendered lines, each with a final carriage return
  removed or not, except for one empty line at the very end when no newline follows it.\<close>

lemma crlf_join:
  assumes "ls \<noteq> []" and "\<forall>l\<in>set ls. LF \<notin> set l"
  shows "crlf_to_lf (join_with [LF] ls @ [LF]) = join_with [LF] (map chomp ls) @ [LF]"
    and "crlf_to_lf (join_with [LF] ls) = join_with [LF] (map chomp (butlast ls) @ [last ls])"
  using assms
proof (induction ls)
  case (Cons x xs)
  { case 1 with Cons show ?case
      by (cases "xs = []") (simp_all add: join_Cons crlf_to_lf_line)
  next
    case 2 with Cons show ?case
      by (cases "xs = []") (simp_all add: join_Cons crlf_to_lf_line crlf_to_lf_no_lf)
  }
qed simp_all

lemma chomp_no_lf: "LF \<notin> set s \<Longrightarrow> LF \<notin> set (chomp s)"
  by (auto simp: chomp_def dest: in_set_butlastD)

lemma parse_final_newline:
  assumes "ls \<noteq> []" and "\<forall>l\<in>set ls. LF \<notin> set l"
  shows "Entries (ParseAuthorizedKeys L (join_with [LF] ls @ [LF])) = map (parseLine L) (map chomp ls)"
proof -
  have "split_on LF (join_with [LF] (map chomp ls)) = map chomp ls"
    using assms by (intro split_join) (auto simp: chomp_no_lf)
  then show ?thesis
    by (simp add: ParseAuthorizedKeys_def crlf_join [OF assms] trim_suffix_lf_def)
qed

lemma parse_no_final_newline:
  assumes "ls \<noteq> []" and "\<forall>l\<in>set ls. LF \<notin> set l"
  shows "Entries (ParseAuthorizedKeys L (join_with [LF] ls)) =
    map (parseLine L) (map chomp (butlast ls) @ (if last ls = [] then [] else [last ls]))"
proof -
  let ?ls = "map chomp (butlast ls) @ [last ls]"
  have ok: "\<forall>l\<in>set ?ls. LF \<notin> set l"
    using assms by (auto simp: chomp_no_lf dest: in_set_butlastD)
  have s: "split_on LF (join_with [LF] ?ls) = ?ls"
    using ok by (intro split_join) simp_all
  show ?thesis
  proof (cases "last ls = []")
    case False
    have "LF \<notin> set (last ls)" using assms by auto
    with False have j: "join_with [LF] ?ls \<noteq> []" "last (join_with [LF] ?ls) \<noteq> LF"
      using last_join [of ?ls "[LF]"] by (auto, metis last_in_set)
    then have n: "join_with [LF] ls \<noteq> []"
      using crlf_join(2) [OF assms] no_crlf_no_cr_Nil [of "join_with [LF] ls"] by auto
    show ?thesis
      using False j n s by (simp add: ParseAuthorizedKeys_def crlf_join(2) [OF assms] trim_suffix_lf_def)
  next
    case True
    show ?thesis
    proof (cases "butlast ls")
      case Nil
      with True assms(1) have "ls = [[]]" by (metis append_Nil append_butlast_last_id)
      then show ?thesis by (simp add: ParseAuthorizedKeys_def)
    next
      case (Cons b bs)
      then have ne: "map chomp (butlast ls) \<noteq> []" by simp
      have "split_on LF (join_with [LF] (map chomp (butlast ls))) = map chomp (butlast ls)"
        using ok ne by (intro split_join) auto
      moreover have "join_with [LF] ?ls = join_with [LF] (map chomp (butlast ls)) @ [LF]"
        using True join_snoc [OF ne, of "[LF]" "[]"] by simp
      moreover from this have "join_with [LF] ls \<noteq> []"
        using crlf_join(2) [OF assms] no_crlf_no_cr_Nil [of "join_with [LF] ls"] by auto
      ultimately show ?thesis
        using True by (simp add: ParseAuthorizedKeys_def crlf_join(2) [OF assms] trim_suffix_lf_def)
    qed
  qed
qed

lemma fingerprints_chomp:
  "\<forall>l\<in>set ls. LF \<notin> set l \<Longrightarrow>
     map e_Fingerprint (filter (\<lambda>e. e_Kind e = EntryKey) (map (parseLine L) (map chomp ls)))
   = map e_Fingerprint (filter (\<lambda>e. e_Kind e = EntryKey) (map (parseLine L) ls))"
  by (induction ls) (simp_all add: parseLine_chomp)

lemma fingerprints_written:
  assumes "\<forall>e\<in>set (Entries ak). stable_line L e"
  shows "Fingerprints (ParseAuthorizedKeys L (Bytes L ak)) = Fingerprints ak"
proof (cases "Entries ak = []")
  case False
  let ?ls = "map (Line L) (Entries ak)" and ?F = "\<lambda>xs. map e_Fingerprint (filter (\<lambda>e. e_Kind e = EntryKey) xs)"
  from False assms have ls: "?ls \<noteq> []" "\<forall>l\<in>set ?ls. LF \<notin> set l"
    by (auto dest: stable_lineD)
  have "?F (Entries (ParseAuthorizedKeys L (Bytes L ak))) = ?F (map (parseLine L) ?ls)"
  proof (cases "TrailingNewline ak")
    case True
    with False show ?thesis
      using fingerprints_chomp [OF ls(2), of L] by (simp add: Bytes_def parse_final_newline [OF ls] del: map_map)
  next
    case no: False
    have split: "?ls = butlast ?ls @ [last ?ls]" using ls(1) by simp
    have "?F (Entries (ParseAuthorizedKeys L (Bytes L ak)))
        = ?F (map (parseLine L) (map chomp (butlast ?ls))) @ ?F (map (parseLine L) [last ?ls])"
      using no by (simp add: Bytes_def parse_no_final_newline [OF ls] del: map_map)
    also have "\<dots> = ?F (map (parseLine L) (butlast ?ls)) @ ?F (map (parseLine L) [last ?ls])"
      using fingerprints_chomp [of "butlast ?ls" L] ls(2) in_set_butlastD [of _ ?ls] by (simp del: map_map map_butlast) blast
    also have "\<dots> = ?F (map (parseLine L) ?ls)"
      by (subst (3) split) (simp only: map_append filter_append)
    finally show ?thesis .
  qed
  also have "\<dots> = ?F (Entries ak)"
    using fingerprints_reparse [OF assms] by simp
  finally show ?thesis by (simp add: Fingerprints_def)
qed (simp add: Bytes_def ParseAuthorizedKeys_def Fingerprints_def)

lemma other_lines_Upsert:
  assumes "e_Kind e = EntryKey"
  shows "filter (\<lambda>x. \<not> is_key_with (e_Fingerprint e) x) (Entries (fst (Upsert ak e)))
       = filter (\<lambda>x. \<not> is_key_with (e_Fingerprint e) x) (Entries ak)"
proof (cases "IndexOf ak (e_Fingerprint e)")
  case None
  with assms show ?thesis by (simp add: Upsert_def is_key_with_def)
next
  case (Some i)
  note i = IndexOf_SomeD [OF Some]
  have "filter (\<lambda>x. \<not> is_key_with (e_Fingerprint e) x) ((Entries ak)[i := e\<lparr>e_dirty := True\<rparr>])
      = filter (\<lambda>x. \<not> is_key_with (e_Fingerprint e) x) (Entries ak)"
    using i assms by (subst (2) split_at [OF i(1)]) (simp add: upd_conv_take_nth_drop is_key_with_def)
  then show ?thesis
    using assms Some by (simp add: Upsert_def Let_def)
qed

lemma other_lines_Remove:
  "filter (\<lambda>x. \<not> is_key_with fp x) (Entries (fst (Remove ak fp)))
     = filter (\<lambda>x. \<not> is_key_with fp x) (Entries ak)"
proof (cases "IndexOf ak fp")
  case (Some i)
  note i = IndexOf_SomeD [OF Some]
  show ?thesis
    using i by (subst split_at [OF i(1)]) (simp add: Remove_def Some is_key_with_def)
qed (simp add: Remove_def)

lemma Upsert_twice:
  assumes "e_Kind e = EntryKey"
  shows "\<not> snd (Upsert (fst (Upsert ak e)) e)"
proof (cases "IndexOf ak (e_Fingerprint e)")
  case None
  then have "\<forall>x\<in>set (Entries ak). \<not> is_key_with (e_Fingerprint e) x"
    by (simp add: IndexOf_def index_where_None)
  then have "index_where (is_key_with (e_Fingerprint e)) (Entries ak @ [e\<lparr>e_dirty := True\<rparr>])
      = Some (length (Entries ak))"
    using assms by (auto simp: index_where_Some nth_append is_key_with_def)
  with assms None show ?thesis
    by (simp add: Upsert_def IndexOf_def Let_def)
next
  case (Some i)
  then have "index_where (is_key_with (e_Fingerprint e)) ((Entries ak)[i := e\<lparr>e_dirty := True\<rparr>]) = Some i"
    using assms by (auto simp: IndexOf_def index_where_Some is_key_with_def)
  with assms Some IndexOf_SomeD [OF Some] show ?thesis
    by (auto simp: Upsert_def IndexOf_def Let_def)
qed

lemma parse_own_names: "ParseAlgorithm (algorithm_String a) = Inr a"
  by (induct a; code_simp)

lemma parse_wire_names: "a \<notin> {RSA3072, RSA4096} \<Longrightarrow> ParseAlgorithm (SSHType a) = Inr a"
  by (induct a; simp only: insert_iff empty_iff algorithm.distinct simp_thms; code_simp)

section \<open>Properties\<close>

text \<open>C30. Rewriting an unmodified file is the identity up to line endings: parsing any bytes and
  rendering the result gives the bytes back with every CR LF turned into LF.  Comments, blank
  lines, unparseable lines, the order and the presence of a final newline all survive.\<close>

theorem parse_bytes_roundtrip: "Bytes L (ParseAuthorizedKeys L data) = crlf_to_lf data"
proof (cases "data = []")
  case False
  then have ne: "crlf_to_lf data \<noteq> []" and last: "last (crlf_to_lf data) = last data"
    by (simp_all add: last_crlf)
  from False have "Bytes L (ParseAuthorizedKeys L data) =
      trim_suffix_lf (crlf_to_lf data) @ (if last (crlf_to_lf data) = LF then [LF] else [])"
    by (simp add: Bytes_def ParseAuthorizedKeys_def last del: map_map)
  with ne show ?thesis by (simp add: trim_suffix_lf_append)
qed (simp add: Bytes_def ParseAuthorizedKeys_def)

text \<open>\<open>Upsert\<close> of a key entry makes that fingerprint present, removes no fingerprint and adds no
  other one, keeps every other line in place, and a second \<open>Upsert\<close> of the same entry reports no
  change.\<close>

theorem upsert_correct:
  assumes "e_Kind e = EntryKey"
  shows "set (Fingerprints (fst (Upsert ak e))) = insert (e_Fingerprint e) (set (Fingerprints ak))
    \<and> filter (\<lambda>x. \<not> is_key_with (e_Fingerprint e) x) (Entries (fst (Upsert ak e)))
       = filter (\<lambda>x. \<not> is_key_with (e_Fingerprint e) x) (Entries ak)
    \<and> \<not> snd (Upsert (fst (Upsert ak e)) e)"
proof (intro conjI)
  let ?fp = "e_Fingerprint e" and ?ak = "fst (Upsert ak e)"
  show "set (Fingerprints ?ak) = insert ?fp (set (Fingerprints ak))"
    using assms by (auto simp: Fingerprints_Upsert Has_iff)
  show "filter (\<lambda>x. \<not> is_key_with ?fp x) (Entries ?ak) = filter (\<lambda>x. \<not> is_key_with ?fp x) (Entries ak)"
    using assms by (rule other_lines_Upsert)
  show "\<not> snd (Upsert ?ak e)"
    using assms by (rule Upsert_twice)
qed

theorem upsert_correct_witness:
  "set (Fingerprints (fst (Upsert \<lparr>Entries = [plain_entry EntryComment ''# a''], TrailingNewline = True\<rparr>
     ((plain_entry EntryKey ''k'' :: unit entry)\<lparr>e_Fingerprint := ''f''\<rparr>)))) = {''f''}"
  using upsert_correct [of "(plain_entry EntryKey ''k'' :: unit entry)\<lparr>e_Fingerprint := ''f''\<rparr>"
      "\<lparr>Entries = [plain_entry EntryComment ''# a''], TrailingNewline = True\<rparr>"]
  by (simp add: plain_entry_def Fingerprints_def)

text \<open>\<open>Remove\<close> deletes the first entry with the fingerprint and nothing else: it reports whether
  the key was there, the count drops by one exactly then, every other line stays, and the file is
  untouched when the key is absent.\<close>

theorem remove_correct:
  "snd (Remove ak fp) = Has ak fp
    \<and> Fingerprints (fst (Remove ak fp)) = remove1 fp (Fingerprints ak)
    \<and> Count (fst (Remove ak fp)) = Count ak - (if Has ak fp then 1 else 0)
    \<and> filter (\<lambda>x. \<not> is_key_with fp x) (Entries (fst (Remove ak fp)))
       = filter (\<lambda>x. \<not> is_key_with fp x) (Entries ak)
    \<and> (Has ak fp \<or> fst (Remove ak fp) = ak)"
  by (auto simp: Fingerprints_Remove Count_Fingerprints length_remove1 Has_iff other_lines_Remove)
    (auto simp: Remove_def Has_def simp flip: Has_iff split: option.splits)

text \<open>Algorithm names: every algorithm parses back from its own name and, RSA apart, from its
  wire type; nothing parses to an RSA modulus below the compliance floor.\<close>

theorem algorithm_names:
  "ParseAlgorithm (algorithm_String a) = Inr a
    \<and> (if a \<in> {RSA3072, RSA4096} then MinRSABits \<le> Bits a else ParseAlgorithm (SSHType a) = Inr a)"
  using parse_own_names [of a] parse_wire_names [of a] by (auto simp: MinRSABits_def Bits_def)

end
