(* ===== verification/Connector.thy ===== *)
theory Connector
  imports World AuthKeys
begin

text \<open>
  The connector interface (\<open>internal/connectors/connector.go\<close>): requests, desired keys,
  snapshots, options and results, the interface as a record of functions over the remote
  hosts \<open>'h\<close>, the registry, and the contract the engine relies on as a locale.
\<close>

section \<open>Data\<close>

record capabilities =
  CanList :: bool
  CanSnapshot :: bool
  CanRestore :: bool
  CanVerify :: bool
  SingleKey :: bool

record credential =
  cd_Kind :: cred_kind
  cd_Username :: string
  cd_Password :: string
  cd_PrivateKey :: string
  cd_Token :: string

text \<open>What a connector sees of a target and of an account (toConnectorTarget, toConnectorPrincipal of
  \<open>service/deploy.go\<close>): neither the drift state nor the reconcile mode of the row.\<close>

record connTarget =
  ct_ID :: uuid
  ct_Name :: string
  ct_Kind :: string
  ct_Connector :: string
  ct_Address :: string
  ct_Port :: int
  ct_Config :: config
  ct_HostKeyPin :: string
  ct_Tags :: "string list"

record connPrincipal =
  cp_ID :: uuid
  cp_Username :: string
  cp_AuthorizedKeysPath :: string
  cp_UseSudo :: bool

definition toConnectorTarget :: "target \<Rightarrow> connTarget" where
  "toConnectorTarget t = \<lparr>ct_ID = t_ID t, ct_Name = t_Name t, ct_Kind = t_Kind t, ct_Connector = t_Connector t,
     ct_Address = t_Address t, ct_Port = t_Port t, ct_Config = t_Config t, ct_HostKeyPin = t_HostKeyPin t,
     ct_Tags = t_Tags t\<rparr>"

definition toConnectorPrincipal :: "principal \<Rightarrow> connPrincipal" where
  "toConnectorPrincipal p = \<lparr>cp_ID = p_ID p, cp_Username = p_Username p,
     cp_AuthorizedKeysPath = p_AuthorizedKeysPath p, cp_UseSudo = p_UseSudo p\<rparr>"

definition ConfigString :: "connTarget \<Rightarrow> string \<Rightarrow> string \<Rightarrow> string" where
  "ConfigString t key def = (case ct_Config t key of
     Some (CfgString v) \<Rightarrow> if v \<noteq> [] then v else def | _ \<Rightarrow> def)"

definition ConfigBool :: "connTarget \<Rightarrow> string \<Rightarrow> bool \<Rightarrow> bool" where
  "ConfigBool t key def = (case ct_Config t key of Some (CfgBool v) \<Rightarrow> v | _ \<Rightarrow> def)"

text \<open>\<open>Request.Validate\<close> rejects nil pointers; a request of the model always has its three parts.\<close>

record request =
  rq_Target :: connTarget
  rq_Principal :: connPrincipal
  rq_Credential :: credential

record desired_key =
  dk_PublicLine :: string
  dk_Fingerprint :: string
  dk_Options :: "string list"
  dk_Comment :: string

record snapshot =
  sn_Kind :: string
  sn_Content :: string
  sn_Checksum :: string
  sn_KeyCount :: nat
  sn_Existed :: bool

record apply_options =
  ao_DryRun :: bool
  ao_Prune :: bool
  ao_AllowEmpty :: bool
  ao_PreserveUnmanaged :: bool
  ao_ManagedFingerprints :: "string list"

definition DefaultApplyOptions :: apply_options where
  "DefaultApplyOptions = \<lparr>ao_DryRun = False, ao_Prune = False, ao_AllowEmpty = False,
     ao_PreserveUnmanaged = True, ao_ManagedFingerprints = []\<rparr>"

record apply_result =
  ar_Changed :: bool
  ar_Added :: "string list"
  ar_Removed :: "string list"
  ar_Diff :: string
  ar_Before :: "snapshot option"
  ar_After :: "snapshot option"
  ar_DryRun :: bool
  ar_Warnings :: "string list"

record probe_result =
  pr_Reachable :: bool
  pr_HostKeyPin :: string
  pr_HostKeyIsNew :: bool
  pr_Message :: string

text \<open>\<open>Apply\<close> and \<open>Probe\<close> may return a result and an error together, as the Go functions do.\<close>

record ('h, 'p) connector =
  cn_Capabilities :: capabilities
  cn_TargetCapabilities :: "(connTarget \<Rightarrow> capabilities) option"
  cn_Probe :: "request \<Rightarrow> 'h \<Rightarrow> (probe_result option \<times> gerror option) \<times> 'h"
  cn_List :: "request \<Rightarrow> 'h \<Rightarrow> 'p entry list result \<times> 'h"
  cn_Apply :: "request \<Rightarrow> desired_key list \<Rightarrow> apply_options \<Rightarrow> 'h \<Rightarrow>
                 (apply_result option \<times> gerror option) \<times> 'h"
  cn_Snapshot :: "request \<Rightarrow> 'h \<Rightarrow> snapshot result \<times> 'h"
  cn_Restore :: "request \<Rightarrow> snapshot \<Rightarrow> 'h \<Rightarrow> unit result \<times> 'h"
  cn_Verify :: "request \<Rightarrow> string \<Rightarrow> 'h \<Rightarrow> unit result \<times> 'h"

text \<open>The registry maps a kind to its connector; \<open>Get\<close> of an unregistered kind is an error.\<close>

type_synonym ('h, 'p) registry = "string \<Rightarrow> ('h, 'p) connector option"

definition Registry_Get :: "('h, 'p) registry \<Rightarrow> string \<Rightarrow> ('h, 'p) connector result" where
  "Registry_Get reg kind = (case reg kind of None \<Rightarrow> Inl (ErrOther ''no connector registered'') | Some c \<Rightarrow> Inr c)"

text \<open>\<open>Register\<close> panics on a duplicate kind: \<open>None\<close>.\<close>

definition Registry_Register :: "string \<Rightarrow> ('h, 'p) connector \<Rightarrow> ('h, 'p) registry \<Rightarrow> ('h, 'p) registry option" where
  "Registry_Register kind c reg = (case reg kind of Some _ \<Rightarrow> None | None \<Rightarrow> Some (reg(kind \<mapsto> c)))"

section \<open>The contract of a connector that holds several keys per login\<close>

text \<open>
  \<open>login\<close> names the account a request addresses and \<open>held\<close> the fingerprints it accepts.
  Only \<open>Apply\<close> (and \<open>Restore\<close>, which the rotation engine never calls) may change them; without
  \<open>Prune\<close> it removes nothing, and with \<open>Prune\<close> it removes, from the addressed account only, keys
  that are managed and not desired.  \<open>good\<close> says that a desired key, written out with its options,
  is read back as the same key; \<open>Apply\<close> promises nothing for desired keys that are not.
\<close>

locale key_connector =
  fixes conn :: "('h, 'p) connector"
    and login :: "connTarget \<Rightarrow> connPrincipal \<Rightarrow> 'l"
    and held :: "'h \<Rightarrow> 'l \<Rightarrow> string set"
    and good :: "desired_key \<Rightarrow> bool"
  assumes probe_held: "held (snd (cn_Probe conn rq h)) l = held h l"
    and list_held: "held (snd (cn_List conn rq h)) l = held h l"
    and snapshot_held: "held (snd (cn_Snapshot conn rq h)) l = held h l"
    and verify_held: "held (snd (cn_Verify conn rq k h)) l = held h l"
    and apply_other: "l \<noteq> login (rq_Target rq) (rq_Principal rq) \<Longrightarrow>
        held (snd (cn_Apply conn rq ds ao h)) l = held h l"
    and apply_prunes_managed: "\<lbrakk>\<forall>d\<in>set ds. good d; ao_PreserveUnmanaged ao\<rbrakk> \<Longrightarrow>
        held h l - (if ao_Prune ao then set (ao_ManagedFingerprints ao) - set (map dk_Fingerprint ds) else {})
          \<subseteq> held (snd (cn_Apply conn rq ds ao h)) l"
begin

lemma apply_keeps_key:
  assumes "fp \<in> held h l" and "\<forall>d\<in>set ds. good d" and "ao_PreserveUnmanaged ao"
    and "ao_Prune ao \<Longrightarrow> l \<noteq> login (rq_Target rq) (rq_Principal rq)"
  shows "fp \<in> held (snd (cn_Apply conn rq ds ao h)) l"
proof (cases "ao_Prune ao")
  case True
  with assms(1,4) show ?thesis by (simp add: apply_other)
next
  case False
  with assms(1) apply_prunes_managed [OF assms(2,3), of h l rq] show ?thesis by auto
qed

lemma apply_keeps_desired:
  assumes "fp \<in> held h l" and "\<forall>d\<in>set ds. good d" and "ao_PreserveUnmanaged ao"
    and "fp \<in> dk_Fingerprint ` set ds \<or> fp \<notin> set (ao_ManagedFingerprints ao)"
  shows "fp \<in> held (snd (cn_Apply conn rq ds ao h)) l"
  using assms(1,4) apply_prunes_managed [OF assms(2,3), of h l rq] by (auto split: if_splits)

end

end
