(* ===== verification/KeyService.thy ===== *)
theory KeyService
  imports Store Vault Connector
begin

text \<open>
  Key pairs (\<open>internal/keys/keypair.go\<close>) and the key service (\<open>internal/service/keys.go\<close>), over the
  environment \<open>env\<close>: the crypto library, the vault, the connector registry and the consumer sinks
  that a running process is wired with.
\<close>

section \<open>Key pairs (keypair.go)\<close>

record key_pair =
  kp_Algorithm :: string
  kp_PrivatePEM :: string
  kp_PublicLine :: string
  kp_Fingerprint :: string
  kp_Comment :: string

text \<open>What a parsed private key is, as far as \<open>algorithmOf\<close> looks.\<close>

datatype raw_kind = RawEd25519 | RawECDSA nat | RawRSA nat | RawOther

text \<open>The crypto library.  Raw private keys are opaque strings; \<open>cl_Generate\<close> gets the randomness as
  its second argument; \<open>cl_Parse\<close> tells a missing passphrase (\<open>None\<close>) from a parse error.\<close>

record 'p crypto_lib =
  cl_Generate :: "algorithm \<Rightarrow> nat \<Rightarrow> string option"
  cl_Marshal :: "string \<Rightarrow> string \<Rightarrow> string option"
  cl_Public :: "string \<Rightarrow> 'p option"
  cl_Parse :: "string \<Rightarrow> string \<Rightarrow> string option option"
  cl_Kind :: "string \<Rightarrow> raw_kind"
  cl_CommentHeader :: "string \<Rightarrow> string option"

definition publicLine :: "'p ssh_lib \<Rightarrow> 'p \<Rightarrow> string \<Rightarrow> string" where
  "publicLine L pub comment = (let line = trim_space (ssh_Marshal L pub); c = trim_space comment in
     if c \<noteq> [] then line @ '' '' @ c else line)"

definition fromPrivate :: "'p ssh_lib \<Rightarrow> 'p crypto_lib \<Rightarrow> string \<Rightarrow> string \<Rightarrow> string \<Rightarrow> key_pair result" where
  "fromPrivate L C priv alg comment = (case cl_Marshal C priv comment of
       None \<Rightarrow> Inl (ErrOther ''keys: marshalling private key'')
     | Some pem \<Rightarrow> (case cl_Public C priv of
         None \<Rightarrow> Inl (ErrOther ''keys: deriving public key'')
       | Some pub \<Rightarrow> Inr \<lparr>kp_Algorithm = alg, kp_PrivatePEM = pem, kp_PublicLine = publicLine L pub comment,
           kp_Fingerprint = ssh_Fingerprint L pub, kp_Comment = comment\<rparr>))"

definition Generate :: "'p ssh_lib \<Rightarrow> 'p crypto_lib \<Rightarrow> algorithm \<Rightarrow> string \<Rightarrow> nat \<Rightarrow> key_pair result" where
  "Generate L C alg comment rnd = (case cl_Generate C alg rnd of
       None \<Rightarrow> Inl (ErrOther ''keys: generating'')
     | Some priv \<Rightarrow> fromPrivate L C priv (algorithm_String alg) comment)"

definition algorithmOf :: "raw_kind \<Rightarrow> string result" where
  "algorithmOf k = (case k of
       RawEd25519 \<Rightarrow> Inr (algorithm_String Ed25519)
     | RawECDSA bits \<Rightarrow>
         if bits = 256 then Inr (algorithm_String ECDSAP256)
         else if bits = 384 then Inr (algorithm_String ECDSAP384)
         else if bits = 521 then Inr (algorithm_String ECDSAP521)
         else Inl (ErrOther ''keys: unsupported ECDSA curve'')
     | RawRSA bits \<Rightarrow>
         if bits \<ge> 4096 then Inr (algorithm_String RSA4096) else Inr (''rsa-'' @ show_nat bits)
     | RawOther \<Rightarrow> Inl (ErrOther ''keys: unsupported private key type''))"

text \<open>\<open>strings.Trim\<close> with the cutset \<open>"\<close>.\<close>

definition trim_quotes :: "string \<Rightarrow> string" where
  "trim_quotes s = rev (dropWhile (\<lambda>c. c = CHR 0x22) (rev (dropWhile (\<lambda>c. c = CHR 0x22) s)))"

definition commentFromPEM :: "'p crypto_lib \<Rightarrow> string \<Rightarrow> string" where
  "commentFromPEM C pem = (case cl_CommentHeader C pem of None \<Rightarrow> [] | Some c \<Rightarrow> trim_quotes (trim_space c))"

definition ImportPrivateKey :: "'p ssh_lib \<Rightarrow> 'p crypto_lib \<Rightarrow> string \<Rightarrow> string \<Rightarrow> key_pair result" where
  "ImportPrivateKey L C pem passphrase = (case cl_Parse C pem passphrase of
       None \<Rightarrow> Inl (ErrOther ''keys: private key is passphrase-protected'')
     | Some None \<Rightarrow> Inl (ErrOther ''keys: parsing private key'')
     | Some (Some raw) \<Rightarrow> bindR (algorithmOf (cl_Kind C raw)) (\<lambda>alg. fromPrivate L C raw alg (commentFromPEM C pem)))"

section \<open>The environment of the services\<close>

text \<open>A private-key sink (\<open>internal/consumers\<close>): whether it is pulled from, and a delivery.\<close>

record remote_host =
  rh_Address :: string
  rh_Port :: int
  rh_Username :: string
  rh_HostKeyPin :: string
  rh_UseSudo :: bool
  rh_PrivateKey :: string
  rh_Password :: string

record delivery =
  dl_ConsumerName :: string
  dl_KeyName :: string
  dl_Fingerprint :: string
  dl_PublicKey :: string
  dl_PrivatePEM :: string
  dl_Config :: config
  dl_Remote :: "remote_host option"

record 'h sink =
  sk_Pull :: bool
  sk_Deliver :: "delivery \<Rightarrow> 'h \<Rightarrow> unit result \<times> 'h"

record ('h, 'p) env =
  env_ssh :: "'p ssh_lib"
  env_crypto :: "'p crypto_lib"
  env_aead :: aead
  env_vault :: vault
  env_entropy :: "nat \<Rightarrow> entropy"
  env_uuid_Parse :: "string \<Rightarrow> uuid option"
  env_registry :: "('h, 'p) registry"
  env_sinks :: "string \<Rightarrow> 'h sink option"

definition vault_Decrypt :: "('h, 'p) env \<Rightarrow> sealed \<Rightarrow> uuid \<Rightarrow> string result" where
  "vault_Decrypt E s rid = Decrypt (env_aead E) (env_vault E) s (uuid_String rid)"

text \<open>Randomness is drawn from the counter that hands out identifiers, so it is never reused.\<close>

definition draw :: "('h, nat) dbprog" where
  "draw = (\<lambda>w. (Inr (w_next w), w\<lparr>w_next := Suc (w_next w)\<rparr>))"

section \<open>The key service (keys.go)\<close>

definition MFAWindow :: duration where "MFAWindow = 5 * Minute"

definition audit_by :: "subject \<Rightarrow> string \<Rightarrow> uuid option \<Rightarrow> string \<Rightarrow> string \<Rightarrow> audit_entry" where
  "audit_by s action rid outcome phase = \<lparr>ae_TenantID = TenantID s, ae_ActorID = Some (UserID s),
     ae_Action = action, ae_ResourceID = rid, ae_Outcome = outcome, ae_Phase = phase\<rparr>"

definition audit_denied :: "subject \<Rightarrow> string \<Rightarrow> ('h, unit) dbprog" where
  "audit_denied s action = record_audit (audit_by s action None ''denied'' [])"

text \<open>The guard every handler opens with: refuse, after an audit entry for the refusal.\<close>

definition guard_audited :: "subject \<Rightarrow> string \<Rightarrow> unit result \<Rightarrow> ('h, unit) dbprog" where
  "guard_audited s action r = (case r of Inr _ \<Rightarrow> ret ()
     | Inl e \<Rightarrow> andThen (audit_denied s action) (\<lambda>_. fail e))"

definition keyClassOrDefault :: "key_class option \<Rightarrow> key_class" where
  "keyClassOrDefault c = (case c of Some KeyClassBreakGlass \<Rightarrow> KeyClassBreakGlass
     | Some KeyClassDiscovered \<Rightarrow> KeyClassDiscovered
     | Some KeyClassImported \<Rightarrow> KeyClassImported
     | _ \<Rightarrow> KeyClassStandard)"

text \<open>\<open>Algorithm.Valid\<close>: the name is one of the generable ones.\<close>

definition algorithm_Valid :: "string \<Rightarrow> bool" where
  "algorithm_Valid a \<longleftrightarrow> list_ex (\<lambda>x. algorithm_String x = a) [Ed25519, ECDSAP256, ECDSAP384, ECDSAP521, RSA3072, RSA4096]"

definition assessCompliance :: "string \<Rightarrow> bool" where
  "assessCompliance alg = algorithm_Valid alg"

record generate_request =
  gr_Name :: string
  gr_Algorithm :: string
  gr_Comment :: string
  gr_Tags :: "string list"
  gr_KeyClass :: "key_class option"
  gr_ValidFor :: duration
  gr_ParentKeyID :: "uuid option"
  gr_Generation :: int

definition new_key :: "uuid \<Rightarrow> subject \<Rightarrow> string \<Rightarrow> key_pair \<Rightarrow> string \<Rightarrow> key" where
  "new_key kid s name pair comment =
     \<lparr>k_ID = kid, k_TenantID = TenantID s, k_Name = name, k_Algorithm = kp_Algorithm pair,
      k_PublicKey = kp_PublicLine pair, k_Fingerprint = kp_Fingerprint pair, k_Comment = comment,
      k_Status = KeyPending, k_KeyClass = KeyClassStandard, k_Generation = 1, k_ParentKeyID = None,
      k_OwnerID = Some (UserID s), k_Tags = [], k_HasPrivateKey = True, k_Compliant = True,
      k_ExpiresAt = None, k_ActivatedAt = None, k_RetiredAt = None, k_CreatedAt = 0\<rparr>"

text \<open>Seal the private half under the new row's identifier and insert both.\<close>

definition store_pair :: "('h, 'p) env \<Rightarrow> key_pair \<Rightarrow> (uuid \<Rightarrow> ('h, key) dbprog) \<Rightarrow> ('h, key) dbprog" where
  "store_pair E pair mk =
     andThen uuid_New (\<lambda>kid.
     andThen draw (\<lambda>rnd.
     andThen (lift (Encrypt (env_aead E) (env_vault E) (env_entropy E rnd) (kp_PrivatePEM pair) (uuid_String kid)))
       (\<lambda>s. andThen (mk kid) (\<lambda>k. Keys_Create k (Some s)))))"

definition KeyService_Generate :: "('h, 'p) env \<Rightarrow> subject \<Rightarrow> generate_request \<Rightarrow> ('h, key) dbprog" where
  "KeyService_Generate E s req =
     andThen (guard_audited s ''key.create'' (Require (Some s) PermKeyWrite)) (\<lambda>_.
     if gr_Name req = [] then fail (ErrOther ''service: a key name is required'') else
     andThen (lift (ParseAlgorithm (gr_Algorithm req))) (\<lambda>alg.
     let comment = (if gr_Comment req = [] then ''skm:'' @ gr_Name req else gr_Comment req) in
     andThen draw (\<lambda>rnd.
     andThen (lift (Generate (env_ssh E) (env_crypto E) alg comment rnd)) (\<lambda>pair.
     andThen (store_pair E pair (\<lambda>kid.
       let k = (new_key kid s (gr_Name req) pair comment)
             \<lparr>k_Algorithm := algorithm_String alg, k_KeyClass := keyClassOrDefault (gr_KeyClass req),
              k_Generation := max (gr_Generation req) 1, k_ParentKeyID := gr_ParentKeyID req,
              k_Tags := gr_Tags req\<rparr> in
       if gr_ValidFor req > 0
       then andThen time_Now (\<lambda>now. ret (k\<lparr>k_ExpiresAt := Some (now + gr_ValidFor req)\<rparr>))
       else ret k)) (\<lambda>created.
     andThen (record_audit (audit_by s ''key.create'' (Some (k_ID created)) ''success'' [])) (\<lambda>_.
     andThen (emit ''key.created'' (Some (k_ID created))) (\<lambda>_.
     ret created)))))))"

definition KeyService_Import ::
  "('h, 'p) env \<Rightarrow> subject \<Rightarrow> string \<Rightarrow> string \<Rightarrow> string \<Rightarrow> string list \<Rightarrow> ('h, key) dbprog" where
  "KeyService_Import E s name pem passphrase tags =
     andThen (guard_audited s ''key.import'' (Require (Some s) PermKeyImport)) (\<lambda>_.
     andThen (lift (ImportPrivateKey (env_ssh E) (env_crypto E) pem passphrase)) (\<lambda>pair.
     andThen (store_pair E pair (\<lambda>kid.
       ret ((new_key kid s name pair (kp_Comment pair))
              \<lparr>k_Status := KeyActive, k_KeyClass := KeyClassImported, k_Tags := tags,
               k_Compliant := assessCompliance (kp_Algorithm pair)\<rparr>))) (\<lambda>created.
     andThen (record_audit (audit_by s ''key.import'' (Some (k_ID created)) ''success'' [])) (\<lambda>_.
     andThen (emit ''key.created'' (Some (k_ID created))) (\<lambda>_.
     ret created)))))"

definition PrivateKeyFor :: "('h, 'p) env \<Rightarrow> uuid \<Rightarrow> uuid \<Rightarrow> ('h, string) dbprog" where
  "PrivateKeyFor E tenantID kid = andThen (LoadMaterial kid) (\<lambda>s. lift (vault_Decrypt E s kid))"

definition Reveal :: "('h, 'p) env \<Rightarrow> subject \<Rightarrow> uuid \<Rightarrow> ('h, key \<times> string) dbprog" where
  "Reveal E s kid =
     andThen (Keys_Get (TenantID s) kid) (\<lambda>k.
     let perm = (if k_KeyClass k = KeyClassBreakGlass then PermKeyRevealBreakGlass else PermKeyReveal) in
     andThen time_Now (\<lambda>now.
     andThen (guard_audited s ''key.reveal'' (RequireFresh now s perm MFAWindow)) (\<lambda>_.
     if \<not> k_HasPrivateKey k then fail (ErrOther ''service: key has no stored private key'') else
     andThen (audit_Log (audit_by s ''key.reveal'' (Some (k_ID k)) ''success'' [])) (\<lambda>_.
     andThen (LoadMaterial (k_ID k)) (\<lambda>m.
     andThen (lift (vault_Decrypt E m (k_ID k))) (\<lambda>pem.
     ret (k, pem)))))))"

definition Revoke :: "subject \<Rightarrow> uuid \<Rightarrow> bool \<Rightarrow> ('h, key) dbprog" where
  "Revoke s kid compromised =
     andThen (guard_audited s ''key.revoke'' (Require (Some s) PermKeyRevoke)) (\<lambda>_.
     andThen (Keys_Get (TenantID s) kid) (\<lambda>k.
     andThen (Keys_SetStatus (TenantID s) kid (if compromised then KeyCompromised else KeyRevoked)) (\<lambda>updated.
     andThen (record_audit (audit_by s ''key.revoke'' (Some (k_ID k)) ''success'' [])) (\<lambda>_.
     andThen (emit ''key.revoked'' (Some (k_ID updated))) (\<lambda>_.
     ret updated)))))"

definition KeyService_Get :: "subject \<Rightarrow> uuid \<Rightarrow> ('h, key) dbprog" where
  "KeyService_Get s kid = andThen (lift (Require (Some s) PermKeyRead)) (\<lambda>_. Keys_Get (TenantID s) kid)"

definition KeyService_List :: "subject \<Rightarrow> key_filter \<Rightarrow> ('h, key list) dbprog" where
  "KeyService_List s f = andThen (lift (Require (Some s) PermKeyRead)) (\<lambda>_. Keys_List (f\<lparr>kf_TenantID := TenantID s\<rparr>))"

definition KeyService_Update ::
  "subject \<Rightarrow> uuid \<Rightarrow> string \<Rightarrow> string list \<Rightarrow> gtime option \<Rightarrow> ('h, key) dbprog" where
  "KeyService_Update s kid name tags expiresAt =
     andThen (lift (Require (Some s) PermKeyWrite)) (\<lambda>_. Keys_Update (TenantID s) kid name tags expiresAt)"

definition KeyService_SetStatus :: "subject \<Rightarrow> uuid \<Rightarrow> key_status \<Rightarrow> ('h, key) dbprog" where
  "KeyService_SetStatus s kid status =
     andThen (lift (Require (Some s) PermKeyWrite)) (\<lambda>_. Keys_SetStatus (TenantID s) kid status)"

text \<open>The loop of \<open>RotateKEK\<close>; \<open>fuel\<close> bounds the number of batches.\<close>

definition rewrap_one :: "('h, 'p) env \<Rightarrow> uuid \<Rightarrow> nat \<Rightarrow> ('h, nat) dbprog" where
  "rewrap_one E kid rewrapped =
     andThen (LoadMaterial kid) (\<lambda>s.
     andThen draw (\<lambda>rnd.
     andThen (lift (Rewrap (env_aead E) (env_vault E) (rnd_Nonce1 (env_entropy E rnd)) s (uuid_String kid))) (\<lambda>fresh.
     andThen (StoreMaterial kid fresh) (\<lambda>_.
     ret (Suc rewrapped)))))"

fun rewrap_loop :: "nat \<Rightarrow> ('h, 'p) env \<Rightarrow> int \<Rightarrow> nat \<Rightarrow> ('h, nat) dbprog" where
  "rewrap_loop 0 E cur rewrapped = fail (ErrOther ''out of fuel'')"
| "rewrap_loop (Suc fuel) E cur rewrapped =
     andThen (MaterialNeedingRewrap cur 100) (\<lambda>batch.
     if batch = [] then ret rewrapped else
     andThen (foldEach batch rewrapped (\<lambda>kid n. rewrap_one E kid n)) (\<lambda>n.
     rewrap_loop fuel E cur n))"

definition RotateKEK :: "nat \<Rightarrow> ('h, 'p) env \<Rightarrow> subject \<Rightarrow> ('h, nat) dbprog" where
  "RotateKEK fuel E s =
     andThen time_Now (\<lambda>now.
     andThen (guard_audited s ''vault.rotate_kek'' (RequireFresh now s PermVaultRotate MFAWindow)) (\<lambda>_.
     let cur = CurrentVersion (env_vault E) in
     if cur = 0 then fail ErrSealed else
     andThen (rewrap_loop fuel E cur 0) (\<lambda>n.
     andThen (record_audit (audit_by s ''vault.rotate_kek'' None ''success'' [])) (\<lambda>_.
     ret n))))"

text \<open>The server always wires the assignments, so the guard \<open>s.assignments != nil\<close> is left out.\<close>

definition KeyService_Delete :: "subject \<Rightarrow> uuid \<Rightarrow> ('h, unit) dbprog" where
  "KeyService_Delete s kid =
     andThen (guard_audited s ''key.destroy'' (Require (Some s) PermKeyDelete)) (\<lambda>_.
     andThen (Keys_Get (TenantID s) kid) (\<lambda>k.
     andThen (lift (RequireScoped (Some s) PermKeyDelete (k_Tags k))) (\<lambda>_.
     andThen (Assignments_List \<lparr>af_TenantID = TenantID s, af_KeyID = Some kid, af_TargetID = None,
       af_PrincipalID = None, af_DesiredState = None, af_Limit = 0\<rparr>) (\<lambda>existing.
     if existing \<noteq> [] then fail (ErrOther ''service: key is still deployed'') else
     andThen (DestroyMaterial (TenantID s) kid) (\<lambda>_.
     andThen (Keys_Delete (TenantID s) kid) (\<lambda>_.
     andThen (record_audit (audit_by s ''key.destroy'' (Some kid) ''success'' [])) (\<lambda>_.
     emit ''key.revoked'' (Some kid))))))))"

section \<open>Properties\<close>

lemma wlp_guard_audited [wlp_intros]: "(is_ok r \<Longrightarrow> Q () w) \<Longrightarrow> wlp (guard_audited s action r) Q w"
  by (cases r) (auto simp: guard_audited_def wlp_def andThen_def fail_def ret_def split: prod.splits sum.splits)

text \<open>C11. No private key leaves the vault unrecorded: when \<open>Reveal\<close> returns key material, whatever
  statements failed on the way, the audit log has gained exactly the entry of this reveal by this
  subject, the subject holds the reveal permission of the key's class, and the material is what the
  vault decrypts for that row.\<close>

theorem reveal_is_audited:
  "wlp (Reveal E s kid) (\<lambda>(k, pem) w'.
       w_audit w' = w_audit w @ [audit_by s ''key.reveal'' (Some kid) ''success'' []]
       \<and> k \<in> set (w_keys w) \<and> k_ID k = kid \<and> k_TenantID k = TenantID s
       \<and> Can (Some s) (if k_KeyClass k = KeyClassBreakGlass then PermKeyRevealBreakGlass else PermKeyReveal)
       \<and> MFAVerifiedAt s \<noteq> None
       \<and> (\<exists>m. (kid, m) \<in> set (w_material w) \<and> vault_Decrypt E m kid = Inr pem)) w"
  unfolding Reveal_def Keys_Get_def LoadMaterial_def audit_Log_def Let_def
  by (intro wlp_intros; simp add: is_ok_RequireFresh if_distrib [of Sensitive] cong: if_cong) force

text \<open>C29. A key cannot be deleted while it is assigned somewhere, nor by a subject whose scope does not
  reach it; when \<open>Delete\<close> succeeds, the row, its private material and every consumer binding of it
  are gone.\<close>

theorem delete_destroys_undeployed_key:
  "wlp (KeyService_Delete s kid) (\<lambda>_ w'.
       Can (Some s) PermKeyDelete
       \<and> (\<exists>k\<in>set (w_keys w). k_ID k = kid \<and> k_TenantID k = TenantID s \<and> InScope (Some s) (k_Tags k))
       \<and> assignments_matching \<lparr>af_TenantID = TenantID s, af_KeyID = Some kid, af_TargetID = None,
           af_PrincipalID = None, af_DesiredState = None, af_Limit = 0\<rparr> w = []
       \<and> kid \<notin> fst ` set (w_material w')
       \<and> filter (\<lambda>k. k_ID k = kid \<and> k_TenantID k = TenantID s) (w_keys w') = []
       \<and> kid \<notin> con_KeyID ` set (w_consumers w')) w"
  unfolding KeyService_Delete_def Keys_Get_def Assignments_List_def DestroyMaterial_def Keys_Delete_def Let_def
  by (intro wlp_intros; simp add: upd_where_def filter_map comp_def; blast)

end
