(* ===== verification/Deploy.thy ===== *)
theory Deploy
  imports KeyService
begin

text \<open>
  The deploy service (\<open>internal/service/deploy.go\<close>): resolving a target, building the desired set,
  the snapshot-apply-verify-record sequence, rollback, probe.  When \<open>Apply\<close> fails the Go function
  returns the partial result next to the error; no modelled caller reads it, so the model only
  fails.  The zeroing of plaintexts has no counterpart.
\<close>

section \<open>Definitions\<close>

text \<open>A connector call: the process may die before it, otherwise it happens and its outcome is a value.\<close>

definition call :: "('h \<Rightarrow> 'a \<times> 'h) \<Rightarrow> ('h, 'a) dbprog" where
  "call f = remote (\<lambda>w. case f (w_hosts w) of (a, h) \<Rightarrow> (Inr a, w\<lparr>w_hosts := h\<rparr>))"

definition call_result :: "('h \<Rightarrow> 'a result \<times> 'h) \<Rightarrow> ('h, 'a) dbprog" where
  "call_result f = andThen (call f) lift"

record deploy_options =
  do_DryRun :: bool
  do_Prune :: bool
  do_VerifyAuth :: bool
  do_ChangesetID :: "uuid option"

record deploy_result =
  dr_TargetID :: uuid
  dr_PrincipalID :: uuid
  dr_Changed :: bool
  dr_DryRun :: bool
  dr_Added :: "string list"
  dr_Removed :: "string list"
  dr_Diff :: string
  dr_KeyCount :: nat
  dr_Warnings :: "string list"
  dr_SnapshotID :: "uuid option"
  dr_ChangesetID :: "uuid option"
  dr_VerifiedKeys :: "string list"
  dr_FailedKeys :: "string list"
  dr_PromotedKeys :: "string list"

definition empty_result :: "uuid \<Rightarrow> uuid \<Rightarrow> deploy_result" where
  "empty_result tid pid = \<lparr>dr_TargetID = tid, dr_PrincipalID = pid, dr_Changed = False, dr_DryRun = False,
     dr_Added = [], dr_Removed = [], dr_Diff = [], dr_KeyCount = 0, dr_Warnings = [], dr_SnapshotID = None,
     dr_ChangesetID = None, dr_VerifiedKeys = [], dr_FailedKeys = [], dr_PromotedKeys = []\<rparr>"

subsection \<open>Reaching a target\<close>

definition secret_credential :: "cred_kind \<Rightarrow> credential \<Rightarrow> string \<Rightarrow> credential" where
  "secret_credential kind out plaintext = (case kind of
       CredSSHKey \<Rightarrow> out\<lparr>cd_PrivateKey := plaintext\<rparr>
     | CredAPIToken \<Rightarrow> out\<lparr>cd_Token := plaintext\<rparr>
     | CredOther \<Rightarrow> out\<lparr>cd_Password := plaintext\<rparr>)"

definition load_credential :: "('h, 'p) env \<Rightarrow> uuid \<Rightarrow> target \<Rightarrow> ('h, credential) dbprog" where
  "load_credential E tenantID t = (case t_CredentialID t of
       None \<Rightarrow> fail (ErrOther ''service: target has no credential'')
     | Some cid \<Rightarrow>
         andThen (Credentials_Get tenantID cid) (\<lambda>meta.
         let out = \<lparr>cd_Kind = cr_Kind meta, cd_Username = cr_Username meta, cd_Password = [],
                    cd_PrivateKey = [], cd_Token = []\<rparr> in
         case cr_KeyID meta of
           Some kid \<Rightarrow> andThen (PrivateKeyFor E tenantID kid) (\<lambda>priv. ret (out\<lparr>cd_PrivateKey := priv\<rparr>))
         | None \<Rightarrow>
             if cr_Secret meta = None then fail (ErrOther ''service: credential holds no secret'')
             else andThen (LoadSecret tenantID (cr_ID meta)) (\<lambda>s.
                  andThen (lift (vault_Decrypt E s (cr_ID meta))) (\<lambda>plaintext.
                  ret (secret_credential (cr_Kind meta) out plaintext)))))"

type_synonym ('h, 'p) resolved = "connTarget \<times> connPrincipal \<times> credential \<times> ('h, 'p) connector"

definition resolve :: "('h, 'p) env \<Rightarrow> subject \<Rightarrow> uuid \<Rightarrow> uuid \<Rightarrow> ('h, ('h, 'p) resolved) dbprog" where
  "resolve E s tid pid =
     andThen (Targets_Get (TenantID s) tid) (\<lambda>t.
     if \<not> t_Enabled t then fail (ErrOther ''service: target is disabled'') else
     andThen (GetPrincipal pid) (\<lambda>p.
     if p_TargetID p \<noteq> tid then fail (ErrOther ''service: principal does not belong to target'') else
     andThen (lift (Registry_Get (env_registry E) (t_Connector t))) (\<lambda>conn.
     andThen (load_credential E (TenantID s) t) (\<lambda>cred.
     ret (toConnectorTarget t, toConnectorPrincipal p, cred, conn)))))"

definition TargetCapabilities :: "('h, 'p) env \<Rightarrow> uuid \<Rightarrow> uuid \<Rightarrow> ('h, capabilities) dbprog" where
  "TargetCapabilities E tenantID tid =
     andThen (Targets_Get tenantID tid) (\<lambda>t.
     andThen (lift (Registry_Get (env_registry E) (t_Connector t))) (\<lambda>conn.
     ret (case cn_TargetCapabilities conn of
            Some aware \<Rightarrow> aware (toConnectorTarget t) | None \<Rightarrow> cn_Capabilities conn)))"

subsection \<open>What a target should hold\<close>

definition never_deployed :: "key_status \<Rightarrow> bool" where
  "never_deployed st \<longleftrightarrow> st = KeyRevoked \<or> st = KeyCompromised \<or> st = KeyDestroyed"

definition desired_of :: "key \<Rightarrow> assignment \<Rightarrow> desired_key" where
  "desired_of k a = \<lparr>dk_PublicLine = k_PublicKey k, dk_Fingerprint = k_Fingerprint k,
     dk_Options = a_Options a, dk_Comment = k_Comment k\<rparr>"

definition desiredKeys :: "uuid \<Rightarrow> uuid \<Rightarrow> ('h, desired_key list \<times> assignment list) dbprog" where
  "desiredKeys tenantID pid =
     andThen (ForPrincipal tenantID pid) (\<lambda>rows.
     foldEach rows ([], []) (\<lambda>a (desired, active).
       if a_DesiredState a \<noteq> StatePresent then ret (desired, active) else
       andThen (Keys_Get tenantID (a_KeyID a)) (\<lambda>k.
       if never_deployed (k_Status k) then ret (desired, active)
       else ret (desired @ [desired_of k a], active @ [a]))))"

text \<open>Pages of 500 until a short page; \<open>fuel\<close> bounds the number of pages.  An error gives \<open>nil\<close>.\<close>

fun managed_pages :: "nat \<Rightarrow> uuid \<Rightarrow> nat \<Rightarrow> string list \<Rightarrow> ('h, string list) dbprog" where
  "managed_pages 0 tenantID offset out = ret []"
| "managed_pages (Suc fuel) tenantID offset out =
     andThen (attempt (Keys_List \<lparr>kf_TenantID = tenantID, kf_Statuses = [], kf_Tags = [],
        kf_Limit = 500, kf_Offset = offset\<rparr>)) (\<lambda>r.
     case r of
       Inl e \<Rightarrow> ret []
     | Inr batch \<Rightarrow>
         (let out' = out @ map k_Fingerprint batch in
          if length batch < 500 then ret out'
          else managed_pages fuel tenantID (offset + 500) out'))"

definition managedFingerprints :: "uuid \<Rightarrow> ('h, string list) dbprog" where
  "managedFingerprints tenantID =
     andThen (get (\<lambda>w. length (w_keys w))) (\<lambda>n. managed_pages (Suc n) tenantID 0 [])"

subsection \<open>Deploy\<close>

definition warn :: "('h, 'a) dbprog \<Rightarrow> ('h, unit) dbprog" where
  "warn m = ignoring m"

definition recordFailure :: "assignment list \<Rightarrow> gerror \<Rightarrow> ('h, unit) dbprog" where
  "recordFailure rows cause = forEach rows (\<lambda>a. warn (RecordDeployment (a_ID a) StateError (err_text cause)))"

definition auditDeploy :: "subject \<Rightarrow> uuid \<Rightarrow> gerror option \<Rightarrow> ('h, unit) dbprog" where
  "auditDeploy s tid cause = record_audit (audit_by s ''key.deploy'' (Some tid)
     (case cause of None \<Rightarrow> ''success'' | Some _ \<Rightarrow> ''failure'') [])"

definition verify_one_assignment ::
  "('h, 'p) env \<Rightarrow> subject \<Rightarrow> request \<Rightarrow> ('h, 'p) connector \<Rightarrow> assignment \<Rightarrow> deploy_result \<Rightarrow> ('h, deploy_result) dbprog" where
  "verify_one_assignment E s rq conn a result =
     (if a_DesiredState a \<noteq> StatePresent then ret result else
      andThen (attempt (Keys_Get (TenantID s) (a_KeyID a))) (\<lambda>r.
      case r of
        Inl e \<Rightarrow> ret result
      | Inr k \<Rightarrow>
          if \<not> k_HasPrivateKey k then ret result else
          andThen (attempt (PrivateKeyFor E (TenantID s) (a_KeyID a))) (\<lambda>pk.
          case pk of
            Inl e \<Rightarrow> ret (result\<lparr>dr_FailedKeys := dr_FailedKeys result @ [k_Fingerprint k]\<rparr>)
          | Inr privateKey \<Rightarrow>
              andThen (call (cn_Verify conn rq privateKey)) (\<lambda>v.
              case v of
                Inl e \<Rightarrow>
                  andThen (warn (RecordDeployment (a_ID a) StateError (err_text e))) (\<lambda>_.
                  ret (result\<lparr>dr_FailedKeys := dr_FailedKeys result @ [k_Fingerprint k]\<rparr>))
              | Inr _ \<Rightarrow>
                  let result' = result\<lparr>dr_VerifiedKeys := dr_VerifiedKeys result @ [k_Fingerprint k]\<rparr> in
                  andThen (warn (RecordAuthVerified (a_ID a))) (\<lambda>_.
                  if k_Status k = KeyPending \<or> k_Status k = KeyStaged
                  then andThen (attempt (Keys_SetStatus (TenantID s) (k_ID k) KeyActive)) (\<lambda>st.
                       case st of
                         Inl e \<Rightarrow> ret result'
                       | Inr _ \<Rightarrow> ret (result'\<lparr>dr_PromotedKeys := dr_PromotedKeys result' @ [k_Fingerprint k]\<rparr>))
                  else ret result')))))"

definition verifyAssignments ::
  "('h, 'p) env \<Rightarrow> subject \<Rightarrow> request \<Rightarrow> ('h, 'p) connector \<Rightarrow> assignment list \<Rightarrow> deploy_result \<Rightarrow> ('h, deploy_result) dbprog" where
  "verifyAssignments E s rq conn rows result = foldEach rows result (\<lambda>a r. verify_one_assignment E s rq conn a r)"

text \<open>The snapshot taken before anything changes, and its entry in the changeset.\<close>

definition take_snapshot ::
  "subject \<Rightarrow> uuid \<Rightarrow> uuid \<Rightarrow> request \<Rightarrow> ('h, 'p) connector \<Rightarrow> deploy_options \<Rightarrow> ('h, uuid option) dbprog" where
  "take_snapshot s tid pid rq conn opts =
     (if CanSnapshot (cn_Capabilities conn) \<and> \<not> do_DryRun opts then
        andThen (call_result (cn_Snapshot conn rq)) (\<lambda>snap.
        andThen (Snapshots_Create (TenantID s) tid (Some pid) (do_ChangesetID opts) (sn_Kind snap) (sn_Content snap)
                   (sn_Checksum snap) (sn_KeyCount snap) (sn_Existed snap)) (\<lambda>sid.
        case do_ChangesetID opts of
          None \<Rightarrow> ret (Some sid)
        | Some cs \<Rightarrow> andThen (AppendInverse cs (sid, tid, pid)) (\<lambda>_. ret (Some sid))))
      else ret None)"

definition apply_outcome :: "deploy_result \<Rightarrow> apply_result option \<Rightarrow> deploy_result" where
  "apply_outcome result applied = (case applied of None \<Rightarrow> result
     | Some a \<Rightarrow> result\<lparr>dr_Changed := ar_Changed a, dr_Added := ar_Added a, dr_Removed := ar_Removed a,
         dr_Diff := ar_Diff a, dr_Warnings := ar_Warnings a,
         dr_KeyCount := (case ar_After a of None \<Rightarrow> dr_KeyCount result | Some sn \<Rightarrow> sn_KeyCount sn)\<rparr>)"

definition deploy_succeeded ::
  "('h, 'p) env \<Rightarrow> subject \<Rightarrow> uuid \<Rightarrow> request \<Rightarrow> ('h, 'p) connector \<Rightarrow> deploy_options \<Rightarrow> assignment list \<Rightarrow>
     deploy_result \<Rightarrow> ('h, deploy_result) dbprog" where
  "deploy_succeeded E s tid rq conn opts rows result =
     andThen (forEach rows (\<lambda>a. warn (RecordDeployment (a_ID a) StatePresent []))) (\<lambda>_.
     andThen (if do_VerifyAuth opts \<and> CanVerify (cn_Capabilities conn)
              then verifyAssignments E s rq conn rows result else ret result) (\<lambda>result'.
     andThen (warn (SetDrift (TenantID s) tid ''in_sync'')) (\<lambda>_.
     andThen (auditDeploy s tid None) (\<lambda>_.
     andThen (emit ''key.deployed'' (Some tid)) (\<lambda>_.
     ret result')))))"

text \<open>From the call of \<open>Apply\<close> on.\<close>

definition converge ::
  "('h, 'p) env \<Rightarrow> subject \<Rightarrow> uuid \<Rightarrow> uuid \<Rightarrow> request \<Rightarrow> ('h, 'p) connector \<Rightarrow> deploy_options \<Rightarrow>
     desired_key list \<Rightarrow> assignment list \<Rightarrow> uuid option \<Rightarrow> string list \<Rightarrow> ('h, deploy_result) dbprog" where
  "converge E s tid pid rq conn opts desired rows sid managed =
     (let ao = DefaultApplyOptions\<lparr>ao_DryRun := do_DryRun opts, ao_Prune := do_Prune opts,
                ao_ManagedFingerprints := managed\<rparr>;
          result0 = (empty_result tid pid)\<lparr>dr_DryRun := do_DryRun opts, dr_ChangesetID := do_ChangesetID opts,
                      dr_SnapshotID := sid\<rparr> in
     andThen (call (cn_Apply conn rq desired ao)) (\<lambda>(applied, err).
     let result = apply_outcome result0 applied in
     case err of
       Some e \<Rightarrow>
         andThen (recordFailure rows e) (\<lambda>_.
         andThen (auditDeploy s tid (Some e)) (\<lambda>_.
         andThen (emit ''deploy.failed'' (Some tid)) (\<lambda>_.
         fail e)))
     | None \<Rightarrow>
         if do_DryRun opts then ret result
         else deploy_succeeded E s tid rq conn opts rows result))"

text \<open>From the resolved target on.\<close>

definition deploy_to ::
  "('h, 'p) env \<Rightarrow> subject \<Rightarrow> uuid \<Rightarrow> uuid \<Rightarrow> deploy_options \<Rightarrow> ('h, 'p) resolved \<Rightarrow> ('h, deploy_result) dbprog" where
  "deploy_to E s tid pid opts = (\<lambda>(t, p, cred, conn).
     if \<not> InScope (Some s) (ct_Tags t) then fail ErrOutOfScope else
     let rq = \<lparr>rq_Target = t, rq_Principal = p, rq_Credential = cred\<rparr> in
     andThen (desiredKeys (TenantID s) pid) (\<lambda>(desired, rows).
     andThen (take_snapshot s tid pid rq conn opts) (\<lambda>sid.
     andThen (managedFingerprints (TenantID s)) (\<lambda>managed.
     converge E s tid pid rq conn opts desired rows sid managed))))"

definition Deploy :: "('h, 'p) env \<Rightarrow> subject \<Rightarrow> uuid \<Rightarrow> uuid \<Rightarrow> deploy_options \<Rightarrow> ('h, deploy_result) dbprog" where
  "Deploy E s tid pid opts =
     andThen (lift (Require (Some s) (if do_DryRun opts then PermDeployDryRun else PermDeployExecute))) (\<lambda>_.
     andThen (resolve E s tid pid) (deploy_to E s tid pid opts))"

subsection \<open>Rollback and probe\<close>

definition row_snapshot :: "snapshot_row \<Rightarrow> snapshot" where
  "row_snapshot r = \<lparr>sn_Kind = s_Kind r, sn_Content = s_RawContent r, sn_Checksum = s_Checksum r,
     sn_KeyCount = s_KeyCount r, sn_Existed = s_Existed r\<rparr>"

definition Rollback :: "('h, 'p) env \<Rightarrow> subject \<Rightarrow> uuid \<Rightarrow> ('h, deploy_result) dbprog" where
  "Rollback E s sid =
     andThen time_Now (\<lambda>now.
     andThen (lift (RequireFresh now s PermRollback MFAWindow)) (\<lambda>_.
     andThen (Snapshots_Get (TenantID s) sid) (\<lambda>snap.
     case s_PrincipalID snap of
       None \<Rightarrow> fail (ErrOther ''service: snapshot is not bound to a principal'')
     | Some pid \<Rightarrow>
         andThen (resolve E s (s_TargetID snap) pid) (\<lambda>(t, p, cred, conn).
         if \<not> CanRestore (cn_Capabilities conn) then fail (ErrOther ''service: the connector cannot restore snapshots'') else
         let rq = \<lparr>rq_Target = t, rq_Principal = p, rq_Credential = cred\<rparr> in
         andThen (call (cn_Snapshot conn rq)) (\<lambda>pre.
         andThen (case pre of Inl e \<Rightarrow> ret ()
                  | Inr sn \<Rightarrow> warn (Snapshots_Create (TenantID s) (s_TargetID snap) (Some pid) None (sn_Kind sn)
                      (sn_Content sn) (sn_Checksum sn) (sn_KeyCount sn) (sn_Existed sn))) (\<lambda>_.
         andThen (call_result (cn_Restore conn rq (row_snapshot snap))) (\<lambda>_.
         andThen (record_audit (audit_by s ''changeset.rollback'' (Some (s_TargetID snap)) ''success'' [])) (\<lambda>_.
         andThen (warn (SetDrift (TenantID s) (s_TargetID snap) ''unknown'')) (\<lambda>_.
         ret ((empty_result (s_TargetID snap) pid)\<lparr>dr_Changed := True, dr_KeyCount := s_KeyCount snap,
                dr_SnapshotID := Some sid\<rparr>)))))))))) "

definition Probe :: "('h, 'p) env \<Rightarrow> subject \<Rightarrow> uuid \<Rightarrow> ('h, probe_result option \<times> gerror option) dbprog" where
  "Probe E s tid =
     andThen (lift (Require (Some s) PermTargetRead)) (\<lambda>_.
     andThen (Targets_Get (TenantID s) tid) (\<lambda>target.
     andThen (ListPrincipals tid) (\<lambda>principals.
     case principals of
       [] \<Rightarrow> fail (ErrOther ''service: target has no managed accounts to probe'')
     | p0 # _ \<Rightarrow>
         andThen (resolve E s tid (p_ID p0)) (\<lambda>(t, p, cred, conn).
         andThen (call (cn_Probe conn \<lparr>rq_Target = t, rq_Principal = p, rq_Credential = cred\<rparr>)) (\<lambda>(res, probeErr).
         let (health, message) = (case probeErr of
               Some e \<Rightarrow> (''unreachable'', err_text e)
             | None \<Rightarrow> (case res of
                 Some r \<Rightarrow> if pr_Reachable r then (''healthy'', pr_Message r) else (''unreachable'', [])
               | None \<Rightarrow> (''unreachable'', []))) in
         andThen (warn (SetHealth (TenantID s) tid health message)) (\<lambda>_.
         andThen (case (probeErr, res) of
             (None, Some r) \<Rightarrow>
               if pr_HostKeyIsNew r \<and> pr_HostKeyPin r \<noteq> [] \<and> t_HostKeyPin target = []
               then warn (SetHostKeyPin (TenantID s) tid (pr_HostKeyPin r)) else ret ()
           | _ \<Rightarrow> ret ()) (\<lambda>_.
         ret (res, probeErr))))))))"

end
