(* ===== verification/ConsumerService.thy ===== *)
theory ConsumerService
  imports Deploy
begin

text \<open>
  The consumer service (\<open>internal/service/consumers.go\<close>): handing private keys to the systems that use
  them.  The service is modelled with remote delivery wired in, as the server wires it.
\<close>

section \<open>Definitions\<close>

definition config_string :: "config \<Rightarrow> string \<Rightarrow> string" where
  "config_string c key = (case c key of Some (CfgString s) \<Rightarrow> s | _ \<Rightarrow> [])"

definition remoteFor :: "('h, 'p) env \<Rightarrow> uuid \<Rightarrow> consumer \<Rightarrow> ('h, remote_host option) dbprog" where
  "remoteFor E tenantID c =
     (if config_string (con_Config c) ''target_id'' = [] then ret None else
      case env_uuid_Parse E (config_string (con_Config c) ''target_id'') of
        None \<Rightarrow> fail (ErrOther ''service: consumer has an unreadable target_id'')
      | Some tid \<Rightarrow>
          andThen (Targets_Get tenantID tid) (\<lambda>t.
          let r0 = \<lparr>rh_Address = t_Address t, rh_Port = t_Port t,
                    rh_Username = config_string (con_Config c) ''username'', rh_HostKeyPin = t_HostKeyPin t,
                    rh_UseSudo = (case con_Config c ''use_sudo'' of Some (CfgBool b) \<Rightarrow> b | _ \<Rightarrow> False),
                    rh_PrivateKey = [], rh_Password = []\<rparr> in
          case t_CredentialID t of
            None \<Rightarrow> fail (ErrOther ''service: target has no credential'')
          | Some cid \<Rightarrow>
              andThen (Credentials_Get tenantID cid) (\<lambda>meta.
              let r1 = (if rh_Username r0 = [] then r0\<lparr>rh_Username := cr_Username meta\<rparr> else r0) in
              case cr_KeyID meta of
                Some kid \<Rightarrow> andThen (PrivateKeyFor E tenantID kid) (\<lambda>priv. ret (Some (r1\<lparr>rh_PrivateKey := priv\<rparr>)))
              | None \<Rightarrow>
                  if cr_Secret meta = None then fail (ErrOther ''service: credential holds no secret'')
                  else andThen (LoadSecret tenantID (cr_ID meta)) (\<lambda>s.
                       andThen (lift (vault_Decrypt E s (cr_ID meta))) (\<lambda>plaintext.
                       ret (Some (if cr_Kind meta = CredSSHKey then r1\<lparr>rh_PrivateKey := plaintext\<rparr>
                                  else r1\<lparr>rh_Password := plaintext\<rparr>)))))))"

definition sink_Get :: "('h, 'p) env \<Rightarrow> string \<Rightarrow> 'h sink result" where
  "sink_Get E kind = (case env_sinks E kind of None \<Rightarrow> Inl (ErrOther ''consumers: unknown kind'') | Some s \<Rightarrow> Inr s)"

definition deliver :: "('h, 'p) env \<Rightarrow> subject \<Rightarrow> consumer \<Rightarrow> uuid \<Rightarrow> ('h, unit) dbprog" where
  "deliver E s c kid =
     andThen (lift (sink_Get E (con_Kind c))) (\<lambda>sk.
     andThen (Keys_Get (TenantID s) kid) (\<lambda>k.
     if sk_Pull sk then record_audit (audit_by s ''consumer.bind'' (Some (con_ID c)) ''success'' ''pull'') else
     andThen (PrivateKeyFor E (TenantID s) kid) (\<lambda>pem.
     andThen (remoteFor E (TenantID s) c) (\<lambda>rh.
     andThen (call (sk_Deliver sk \<lparr>dl_ConsumerName = con_Name c, dl_KeyName = k_Name k, dl_Fingerprint = k_Fingerprint k,
        dl_PublicKey = k_PublicKey k, dl_PrivatePEM = pem, dl_Config = con_Config c, dl_Remote = rh\<rparr>)) (\<lambda>r.
     andThen (record_audit (audit_by s ''consumer.send'' (Some (con_ID c))
                (case r of Inl _ \<Rightarrow> ''failure'' | Inr _ \<Rightarrow> ''success'') [])) (\<lambda>_.
     lift r))))))"

definition Rebind :: "('h, 'p) env \<Rightarrow> subject \<Rightarrow> uuid \<Rightarrow> uuid \<Rightarrow> ('h, unit) dbprog" where
  "Rebind E s cid kid =
     andThen (Consumers_Get (TenantID s) cid) (\<lambda>c.
     andThen (attempt (deliver E s c kid)) (\<lambda>r.
     case r of
       Inl e \<Rightarrow> andThen (warn (RecordDelivery (con_ID c) (Some e))) (\<lambda>_. fail e)
     | Inr _ \<Rightarrow>
         andThen (Consumers_Rebind (TenantID s) cid kid) (\<lambda>_.
         RecordDelivery (con_ID c) None)))"

definition Redeliver :: "('h, 'p) env \<Rightarrow> subject \<Rightarrow> uuid \<Rightarrow> ('h, unit) dbprog" where
  "Redeliver E s cid =
     andThen (lift (Require (Some s) PermKeyReveal)) (\<lambda>_.
     andThen (Consumers_Get (TenantID s) cid) (\<lambda>c.
     andThen (attempt (deliver E s c (con_KeyID c))) (\<lambda>r.
     andThen (warn (RecordDelivery (con_ID c) (case r of Inl e \<Rightarrow> Some e | Inr _ \<Rightarrow> None))) (\<lambda>_.
     lift r))))"

definition ConsumerService_Create :: "('h, 'p) env \<Rightarrow> subject \<Rightarrow> consumer \<Rightarrow> ('h, consumer) dbprog" where
  "ConsumerService_Create E s c =
     andThen (lift (Require (Some s) PermKeyReveal)) (\<lambda>_.
     andThen (lift (sink_Get E (con_Kind c))) (\<lambda>_.
     andThen (Keys_Get (TenantID s) (con_KeyID c)) (\<lambda>k.
     if \<not> InScope (Some s) (k_Tags k) then fail ErrOutOfScope else
     andThen (Consumers_Create (c\<lparr>con_TenantID := TenantID s\<rparr>)) (\<lambda>created.
     andThen (record_audit (audit_by s ''consumer.add'' (Some (con_ID created)) ''success'' [])) (\<lambda>_.
     ret created)))))"

definition ConsumerService_List :: "subject \<Rightarrow> uuid option \<Rightarrow> ('h, consumer list) dbprog" where
  "ConsumerService_List s kid = andThen (lift (Require (Some s) PermKeyRead)) (\<lambda>_. Consumers_List (TenantID s) kid)"

definition ConsumerService_Delete :: "subject \<Rightarrow> uuid \<Rightarrow> ('h, unit) dbprog" where
  "ConsumerService_Delete s cid =
     andThen (lift (Require (Some s) PermKeyReveal)) (\<lambda>_. Consumers_Delete (TenantID s) cid)"

end
