(* ===== verification/JobQueue.thy ===== *)
theory JobQueue
  imports Store
begin

text \<open>
  The job queue (\<open>internal/store/jobs.go\<close>) and the worker pool that drains it
  (\<open>internal/jobs/runner.go\<close>).  \<open>FOR UPDATE SKIP LOCKED\<close> makes each lease one atomic statement, which
  is how it appears here.  Handlers are an argument of the runner; a panic in one is the error
  \<open>Panic\<close>.  Heartbeats of a running handler are a separate operation of the model.
\<close>

section \<open>The queue (store/jobs.go)\<close>

fun JobTerminal :: "job_state \<Rightarrow> bool" where
  "JobTerminal JobSucceeded = True"
| "JobTerminal JobCancelled = True"
| "JobTerminal JobDead = True"
| "JobTerminal _ = False"

text \<open>The partial unique index \<open>jobs_idempotency_idx\<close>: it covers queued and running rows with a key.\<close>

definition indexed :: "job \<Rightarrow> bool" where
  "indexed j \<longleftrightarrow> j_IdempotencyKey j \<noteq> None \<and> (j_State j = JobQueued \<or> j_State j = JobRunning)"

definition collides :: "job \<Rightarrow> job \<Rightarrow> bool" where
  "collides j j' \<longleftrightarrow> indexed j \<and> indexed j' \<and> j_TenantID j = j_TenantID j'
     \<and> j_IdempotencyKey j = j_IdempotencyKey j' \<and> j_ID j \<noteq> j_ID j'"

definition byIdempotencyKey :: "uuid \<Rightarrow> idem_key \<Rightarrow> ('h, job) dbprog" where
  "byIdempotencyKey tenantID key = stmt (\<lambda>w.
     case sort_key (\<lambda>j. - j_CreatedAt j)
         (filter (\<lambda>j. j_TenantID j = tenantID \<and> j_IdempotencyKey j = Some key \<and> indexed j) (w_jobs w)) of
       [] \<Rightarrow> (Inl ErrNotFound, w) | j # _ \<Rightarrow> (Inr j, w))"

definition fill_job :: "uuid \<Rightarrow> gtime \<Rightarrow> job \<Rightarrow> job" where
  "fill_job jid now j = j\<lparr>j_ID := jid,
     j_TenantID := (if j_TenantID j = uuid_Nil then DefaultTenantID else j_TenantID j),
     j_Priority := (if j_Priority j = 0 then 100 else j_Priority j),
     j_MaxAttempts := (if j_MaxAttempts j = 0 then 5 else j_MaxAttempts j),
     j_State := JobQueued, j_Attempts := 0, j_LockedBy := [], j_LockedAt := None, j_StartedAt := None,
     j_FinishedAt := None, j_LastError := [], j_CreatedAt := now\<rparr>"

text \<open>\<open>RunAfter\<close> is always set by the modelled callers, so the default of a zero time is not needed.
  The result says whether the row went in; a row that collides with the index does not.\<close>

definition insert_job :: "job \<Rightarrow> uuid \<Rightarrow> ('h, job \<times> bool) dbprog" where
  "insert_job j0 jid = stmt (\<lambda>w. let j = fill_job jid (w_now w) j0 in
     if list_ex (collides j) (w_jobs w) then (Inr (j, False), w)
     else (Inr (j, True), w\<lparr>w_jobs := w_jobs w @ [j]\<rparr>))"

definition Enqueue :: "job \<Rightarrow> ('h, job) dbprog" where
  "Enqueue j0 =
     andThen (if j_ID j0 = uuid_Nil then uuid_New else ret (j_ID j0)) (\<lambda>jid.
     andThen (insert_job j0 jid) (\<lambda>(j, inserted).
     if inserted then ret j
     else (case j_IdempotencyKey j of
             Some key \<Rightarrow> byIdempotencyKey (j_TenantID j) key
           | None \<Rightarrow> fail ErrDatabase)))"

definition runnable :: "gtime \<Rightarrow> string list \<Rightarrow> job \<Rightarrow> bool" where
  "runnable now types j \<longleftrightarrow> j_State j = JobQueued \<and> j_RunAfter j \<le> now \<and> (types = [] \<or> j_Type j \<in> set types)"

definition lease :: "gtime \<Rightarrow> string \<Rightarrow> job \<Rightarrow> job" where
  "lease now worker j = j\<lparr>j_State := JobRunning, j_Attempts := j_Attempts j + 1, j_LockedBy := worker,
     j_LockedAt := Some now, j_StartedAt := (case j_StartedAt j of None \<Rightarrow> Some now | Some t \<Rightarrow> Some t)\<rparr>"

definition Dequeue :: "string \<Rightarrow> string list \<Rightarrow> int \<Rightarrow> ('h, job list) dbprog" where
  "Dequeue worker types limit = stmt (\<lambda>w.
     let n = (if limit \<le> 0 then 1 else nat limit);
         picked = take n (sort_key (\<lambda>j. (j_Priority j, j_RunAfter j)) (filter (runnable (w_now w) types) (w_jobs w)));
         ids = map j_ID picked
     in (Inr (map (lease (w_now w) worker) picked),
         w\<lparr>w_jobs := upd_where (\<lambda>j. j_ID j \<in> set ids) (lease (w_now w) worker) (w_jobs w)\<rparr>))"

definition update_jobs :: "(job \<Rightarrow> bool) \<Rightarrow> (gtime \<Rightarrow> job \<Rightarrow> job) \<Rightarrow> 'h world \<Rightarrow> 'h world" where
  "update_jobs P f w = w\<lparr>w_jobs := upd_where P (f (w_now w)) (w_jobs w)\<rparr>"

definition Succeed :: "uuid \<Rightarrow> ('h, unit) dbprog" where
  "Succeed jid = exec_affecting (\<lambda>w. list_ex (\<lambda>j. j_ID j = jid) (w_jobs w)) ErrNotFound
     (update_jobs (\<lambda>j. j_ID j = jid) (\<lambda>now j. j\<lparr>j_State := JobSucceeded, j_FinishedAt := Some now,
        j_LastError := [], j_LockedBy := [], j_LockedAt := None\<rparr>))"

definition failed_job :: "gerror \<Rightarrow> duration \<Rightarrow> gtime \<Rightarrow> job \<Rightarrow> job" where
  "failed_job cause backoff now j = (let dead = (j_Attempts j \<ge> j_MaxAttempts j) in
     j\<lparr>j_State := (if dead then JobDead else JobQueued), j_RunAfter := now + backoff,
       j_LastError := trunc_text (err_text cause) 4000, j_LockedBy := [], j_LockedAt := None,
       j_FinishedAt := (if dead then Some now else None)\<rparr>)"

text \<open>No guard on the current state; the unique index may refuse the update.\<close>

definition Fail :: "uuid \<Rightarrow> gerror \<Rightarrow> duration \<Rightarrow> ('h, bool) dbprog" where
  "Fail jid cause backoff = stmt (\<lambda>w.
     case List.find (\<lambda>j. j_ID j = jid) (w_jobs w) of
       None \<Rightarrow> (Inl ErrNotFound, w)
     | Some j \<Rightarrow>
         let j' = failed_job cause backoff (w_now w) j in
         if list_ex (collides j') (w_jobs w) then (Inl ErrDatabase, w)
         else (Inr (j_State j' = JobDead), update_jobs (\<lambda>x. j_ID x = jid) (failed_job cause backoff) w))"

definition Kill :: "uuid \<Rightarrow> gerror \<Rightarrow> ('h, unit) dbprog" where
  "Kill jid cause = (let hit = (\<lambda>j. j_ID j = jid \<and> j_State j \<noteq> JobSucceeded \<and> j_State j \<noteq> JobCancelled) in
     exec_affecting (\<lambda>w. list_ex hit (w_jobs w)) ErrNotFound
       (update_jobs hit (\<lambda>now j. j\<lparr>j_State := JobDead, j_LastError := trunc_text (err_text cause) 4000,
          j_FinishedAt := Some now, j_LockedBy := [], j_LockedAt := None, j_RunAfter := now\<rparr>)))"

definition Cancel :: "uuid \<Rightarrow> uuid \<Rightarrow> ('h, unit) dbprog" where
  "Cancel tenantID jid = (let hit = (\<lambda>j. j_TenantID j = tenantID \<and> j_ID j = jid
        \<and> (j_State j = JobQueued \<or> j_State j = JobRunning)) in
     exec_affecting (\<lambda>w. list_ex hit (w_jobs w)) ErrNotFound
       (update_jobs hit (\<lambda>now j. j\<lparr>j_State := JobCancelled, j_FinishedAt := Some now\<rparr>)))"

definition Heartbeat :: "uuid \<Rightarrow> string \<Rightarrow> ('h, unit) dbprog" where
  "Heartbeat jid worker = stmt (modify (update_jobs
     (\<lambda>j. j_ID j = jid \<and> j_LockedBy j = worker \<and> j_State j = JobRunning) (\<lambda>now j. j\<lparr>j_LockedAt := Some now\<rparr>)))"

definition stalled :: "gtime \<Rightarrow> duration \<Rightarrow> job \<Rightarrow> bool" where
  "stalled now olderThan j \<longleftrightarrow> j_State j = JobRunning
     \<and> (case j_LockedAt j of None \<Rightarrow> False | Some t \<Rightarrow> t < now - olderThan)"

definition reaped :: "job \<Rightarrow> job" where
  "reaped j = j\<lparr>j_State := (if j_Attempts j \<ge> j_MaxAttempts j then JobDead else JobQueued),
     j_LockedBy := [], j_LockedAt := None, j_LastError := ''worker lease expired; the job was requeued''\<rparr>"

definition ReapStalled :: "duration \<Rightarrow> ('h, nat) dbprog" where
  "ReapStalled olderThan = stmt (\<lambda>w.
     (Inr (length (filter (stalled (w_now w) olderThan) (w_jobs w))),
      w\<lparr>w_jobs := upd_where (stalled (w_now w) olderThan) reaped (w_jobs w)\<rparr>))"

definition Jobs_Get :: "uuid \<Rightarrow> uuid \<Rightarrow> ('h, job) dbprog" where
  "Jobs_Get tenantID jid = select_one w_jobs (\<lambda>j. j_TenantID j = tenantID \<and> j_ID j = jid)"

definition purgeable :: "gtime \<Rightarrow> duration \<Rightarrow> job \<Rightarrow> bool" where
  "purgeable now olderThan j \<longleftrightarrow> (j_State j = JobSucceeded \<or> j_State j = JobCancelled)
     \<and> (case j_FinishedAt j of None \<Rightarrow> False | Some t \<Rightarrow> t < now - olderThan)"

definition PurgeFinished :: "duration \<Rightarrow> ('h, nat) dbprog" where
  "PurgeFinished olderThan = stmt (\<lambda>w.
     (Inr (length (filter (purgeable (w_now w) olderThan) (w_jobs w))),
      w\<lparr>w_jobs := filter (\<lambda>j. \<not> purgeable (w_now w) olderThan j) (w_jobs w)\<rparr>))"

section \<open>The runner (jobs/runner.go)\<close>

record runner_options =
  ro_BaseBackoff :: duration
  ro_MaxBackoff :: duration
  ro_LeaseTTL :: duration

definition DefaultOptions :: runner_options where
  "DefaultOptions = \<lparr>ro_BaseBackoff = 10 * Second, ro_MaxBackoff = 30 * Minute, ro_LeaseTTL = 5 * Minute\<rparr>"

text \<open>The doubling loop: \<open>steps\<close> is the number of iterations the counter still allows.\<close>

fun double_until :: "nat \<Rightarrow> duration \<Rightarrow> duration \<Rightarrow> duration" where
  "double_until 0 delay limit = delay"
| "double_until (Suc steps) delay limit = (if delay < limit then double_until steps (delay * 2) limit else delay)"

text \<open>\<open>jitter\<close> stands for the random source; \<open>rand.Int64N (n + 1)\<close> returns at most \<open>n\<close>.\<close>

definition backoff_delay :: "runner_options \<Rightarrow> int \<Rightarrow> duration" where
  "backoff_delay opts attempt0 =
     (let a = (if attempt0 < 1 then 1 else attempt0);
          d = double_until (nat (a - 1)) (ro_BaseBackoff opts) (ro_MaxBackoff opts)
      in if d > ro_MaxBackoff opts then ro_MaxBackoff opts else d)"

definition backoff :: "runner_options \<Rightarrow> nat \<Rightarrow> int \<Rightarrow> duration" where
  "backoff opts jitter attempt0 = (let d = backoff_delay opts attempt0 in d + int jitter mod (d div 4 + 1))"

text \<open>A handler ends a job for good (\<open>Permanent\<close>), or returns, or fails and may be retried.\<close>

datatype outcome = Done | Permanent gerror

type_synonym 'h handler = "job \<Rightarrow> ('h, outcome) dbprog"

text \<open>\<open>safely\<close>: a panic of the handler is a permanent failure.\<close>

definition safely :: "'h handler \<Rightarrow> job \<Rightarrow> ('h, outcome result) dbprog" where
  "safely h j = (\<lambda>w. case h j w of
       (Inl Killed, w') \<Rightarrow> (Inl Killed, w')
     | (Inl e, w') \<Rightarrow> (Inr (if e = Panic then Inr (Permanent Panic) else Inl e), w')
     | (Inr out, w') \<Rightarrow> (Inr (Inr out), w'))"

definition execute :: "runner_options \<Rightarrow> nat \<Rightarrow> (string \<Rightarrow> 'h handler option) \<Rightarrow> job \<Rightarrow> ('h, unit) dbprog" where
  "execute opts jitter table j = (case table (j_Type j) of
       None \<Rightarrow> ignoring (Fail (j_ID j) (ErrOther ''jobs: no handler'') Minute)
     | Some h \<Rightarrow>
         andThen (safely h j) (\<lambda>r. case r of
           Inr Done \<Rightarrow> ignoring (Succeed (j_ID j))
         | Inr (Permanent e) \<Rightarrow>
             andThen (attempt (Kill (j_ID j) e)) (\<lambda>k.
             case k of Inl _ \<Rightarrow> ret () | Inr _ \<Rightarrow> logf (err_text e))
         | Inl e \<Rightarrow>
             andThen (attempt (Fail (j_ID j) e (backoff opts jitter (j_Attempts j)))) (\<lambda>k.
             case k of Inl _ \<Rightarrow> ret () | Inr _ \<Rightarrow> logf (err_text e))))"

definition runner_step ::
  "runner_options \<Rightarrow> nat \<Rightarrow> (string \<Rightarrow> 'h handler option) \<Rightarrow> string \<Rightarrow> string list \<Rightarrow> ('h, bool) dbprog" where
  "runner_step opts jitter table worker types =
     andThen (Dequeue worker types 1) (\<lambda>leased.
     case leased of
       [] \<Rightarrow> ret False
     | j # _ \<Rightarrow> andThen (execute opts jitter table j) (\<lambda>_. ret True))"

section \<open>Lemmas\<close>

text \<open>At most one queued or running job per idempotency key, and row identifiers are unique.\<close>

definition unique_active :: "job list \<Rightarrow> bool" where
  "unique_active rows \<longleftrightarrow> distinct (map j_ID rows) \<and> (\<forall>j\<in>set rows. \<forall>j'\<in>set rows. \<not> collides j j')"

text \<open>A queued job has attempts left, and no job has more attempts than it is allowed.\<close>

definition attempts_ok :: "job list \<Rightarrow> bool" where
  "attempts_ok rows \<longleftrightarrow> (\<forall>j\<in>set rows. j_Attempts j \<le> j_MaxAttempts j
     \<and> (j_State j = JobQueued \<longrightarrow> j_Attempts j < j_MaxAttempts j))"

definition queue_ok :: "'h world \<Rightarrow> bool" where
  "queue_ok w \<longleftrightarrow> unique_active (w_jobs w) \<and> attempts_ok (w_jobs w) \<and> (\<forall>j\<in>set (w_jobs w). j_ID j < w_next w)"

lemma queue_ok_faults: "ignores_faults queue_ok"
  by (simp add: ignores_faults_def queue_ok_def)

text \<open>An update that changes no identifier, tenant or key and never puts a row back into the index.\<close>

definition tame :: "(job \<Rightarrow> job) \<Rightarrow> job \<Rightarrow> bool" where
  "tame f j \<longleftrightarrow> j_ID (f j) = j_ID j \<and> j_TenantID (f j) = j_TenantID j
     \<and> j_IdempotencyKey (f j) = j_IdempotencyKey j \<and> j_MaxAttempts (f j) = j_MaxAttempts j
     \<and> (indexed (f j) \<longrightarrow> indexed j)
     \<and> (j_Attempts j \<le> j_MaxAttempts j \<longrightarrow> (j_State j = JobQueued \<longrightarrow> j_Attempts j < j_MaxAttempts j) \<longrightarrow>
          j_Attempts (f j) \<le> j_MaxAttempts j \<and> (j_State (f j) = JobQueued \<longrightarrow> j_Attempts (f j) < j_MaxAttempts j))"

lemma collides_tame: "collides (g j) (g j') \<Longrightarrow> tame g j \<Longrightarrow> tame g j' \<Longrightarrow> collides j j'"
  unfolding collides_def tame_def by force

lemma queue_ok_upd:
  assumes ok: "queue_ok w" and tame: "\<And>j. j \<in> set (w_jobs w) \<Longrightarrow> P j \<Longrightarrow> tame f j"
  shows "queue_ok (w\<lparr>w_jobs := upd_where P f (w_jobs w)\<rparr>)"
proof -
  let ?g = "\<lambda>j. if P j then f j else j"
  have g: "tame ?g j" if "j \<in> set (w_jobs w)" for j
    using tame [OF that] by (auto simp: tame_def)
  have ids: "map j_ID (upd_where P f (w_jobs w)) = map j_ID (w_jobs w)"
    using g by (auto simp: upd_where_def tame_def)
  have u: "unique_active (upd_where P f (w_jobs w))"
    unfolding unique_active_def ids
  proof (intro conjI ballI notI)
    show "distinct (map j_ID (w_jobs w))" using ok by (simp add: queue_ok_def unique_active_def)
  next
    fix a b assume "a \<in> set (upd_where P f (w_jobs w))" "b \<in> set (upd_where P f (w_jobs w))" and c: "collides a b"
    then obtain j j' where j: "j \<in> set (w_jobs w)" "a = ?g j" "j' \<in> set (w_jobs w)" "b = ?g j'"
      by (auto simp: upd_where_def)
    have "collides j j'"
      by (rule collides_tame [where g = ?g]) (use c j g in simp_all)
    with ok j show False by (simp add: queue_ok_def unique_active_def)
  qed
  have "attempts_ok (upd_where P f (w_jobs w))"
    using ok g unfolding queue_ok_def attempts_ok_def upd_where_def tame_def by force
  moreover have "\<forall>j\<in>set (upd_where P f (w_jobs w)). j_ID j < w_next w"
    using ok g unfolding queue_ok_def upd_where_def tame_def by force
  ultimately show ?thesis using u by (simp add: queue_ok_def)
qed

lemma queue_ok_update_jobs:
  "queue_ok w \<Longrightarrow> (\<And>j. j \<in> set (w_jobs w) \<Longrightarrow> P j \<Longrightarrow> tame (f (w_now w)) j) \<Longrightarrow> queue_ok (update_jobs P f w)"
  unfolding update_jobs_def by (rule queue_ok_upd)

lemma sort_key_filter_mem: "x \<in> set (take n (sort_key k (filter P xs))) \<Longrightarrow> x \<in> set xs \<and> P x"
  by (auto dest: in_set_takeD)

lemma keeps_Dequeue: "keeps queue_ok (Dequeue worker types limit)"
  unfolding Dequeue_def Let_def
proof (intro keeps_stmt queue_ok_faults upholdsI)
  fix w :: "'a world" assume ok: "queue_ok w"
  let ?picked = "take (if limit \<le> 0 then 1 else nat limit)
      (sort_key (\<lambda>j. (j_Priority j, j_RunAfter j)) (filter (runnable (w_now w) types) (w_jobs w)))"
  have "queue_ok (w\<lparr>w_jobs := upd_where (\<lambda>j. j_ID j \<in> set (map j_ID ?picked)) (lease (w_now w) worker) (w_jobs w)\<rparr>)"
  proof (rule queue_ok_upd [OF ok])
    fix j assume j: "j \<in> set (w_jobs w)" "j_ID j \<in> set (map j_ID ?picked)"
    then obtain j' where j': "j' \<in> set (w_jobs w)" "runnable (w_now w) types j'" "j_ID j' = j_ID j"
      by (auto dest!: sort_key_filter_mem)
    with j(1) ok have "j' = j"
      by (auto simp: queue_ok_def unique_active_def distinct_map dest: inj_onD)
    with j'(2) show "tame (lease (w_now w) worker) j"
      by (auto simp: tame_def lease_def runnable_def indexed_def)
  qed
  then show "queue_ok (snd (Inr (map (lease (w_now w) worker) ?picked),
      w\<lparr>w_jobs := upd_where (\<lambda>j. j_ID j \<in> set (map j_ID ?picked)) (lease (w_now w) worker) (w_jobs w)\<rparr>))"
    by simp
qed

definition fresh_id :: "uuid \<Rightarrow> 'h world \<Rightarrow> bool" where
  "fresh_id jid w \<longleftrightarrow> queue_ok w \<and> jid < w_next w \<and> jid \<notin> j_ID ` set (w_jobs w)"

lemma queue_ok_append:
  assumes "fresh_id jid w" and "0 \<le> j_MaxAttempts j0"
    and "\<not> list_ex (collides (fill_job jid (w_now w) j0)) (w_jobs w)"
  shows "queue_ok (w\<lparr>w_jobs := w_jobs w @ [fill_job jid (w_now w) j0]\<rparr>)"
  using assms
  by (fastforce simp: fresh_id_def queue_ok_def unique_active_def attempts_ok_def list_ex_iff fill_job_def collides_def indexed_def)

lemma insert_job_ok:
  assumes "0 \<le> j_MaxAttempts j0"
  shows "upholds (fresh_id jid) (insert_job j0 jid) (\<lambda>_. queue_ok)"
proof (rule upholdsI)
  fix w :: "'a world" assume I: "fresh_id jid w"
  then have I': "fresh_id jid (w\<lparr>w_faults := fs\<rparr>)" for fs by (simp add: fresh_id_def queue_ok_def)
  have ok: "queue_ok w" "\<And>fs. queue_ok (w\<lparr>w_faults := fs\<rparr>)" using I I' by (auto simp: fresh_id_def)
  show "queue_ok (snd (insert_job j0 jid w))"
    using ok queue_ok_append [OF I assms] queue_ok_append [OF I' assms]
    by (auto simp: insert_job_def stmt_def Let_def split: list.split fault.split)
qed

lemma keeps_Enqueue:
  assumes "j_ID j0 = uuid_Nil" and "0 \<le> j_MaxAttempts j0"
  shows "keeps queue_ok (Enqueue j0)"
proof -
  have new: "upholds queue_ok uuid_New (\<lambda>r w. queue_ok w \<and> (case r of Inl _ \<Rightarrow> True | Inr jid \<Rightarrow> fresh_id jid w))"
    by (auto simp: upholds_def uuid_New_def fresh_id_def queue_ok_def less_Suc_eq)
  have rest: "keeps queue_ok ((\<lambda>(j, inserted). if inserted then ret j
     else (case j_IdempotencyKey j of Some key \<Rightarrow> byIdempotencyKey (j_TenantID j) key | None \<Rightarrow> fail ErrDatabase)) x)" for x
    unfolding byIdempotencyKey_def
    by (intro keeps_intros keeps_stmt queue_ok_faults) (auto simp: upholds_def split: list.split)
  have tail: "upholds (fresh_id jid) (andThen (insert_job j0 jid) (\<lambda>(j, inserted). if inserted then ret j
     else (case j_IdempotencyKey j of Some key \<Rightarrow> byIdempotencyKey (j_TenantID j) key | None \<Rightarrow> fail ErrDatabase)))
     (\<lambda>_. queue_ok)" for jid
    by (rule upholds_andThen [OF insert_job_ok [OF assms(2)] rest])
  show ?thesis
    unfolding Enqueue_def assms(1) simp_thms if_True
    by (rule upholds_andThen [OF new]) (use tail in \<open>auto simp: upholds_def\<close>)
qed

lemma collides_sym: "collides a b \<Longrightarrow> collides b a"
  by (auto simp: collides_def)

lemma queue_ok_replace:
  assumes ok: "queue_ok w" and j: "j \<in> set (w_jobs w)" "j_ID j = jid"
    and f: "j_ID (f j) = jid" "j_MaxAttempts (f j) = j_MaxAttempts j" "j_Attempts (f j) = j_Attempts j"
      "j_State (f j) = JobQueued \<Longrightarrow> j_Attempts j < j_MaxAttempts j"
    and free: "\<not> list_ex (collides (f j)) (w_jobs w)"
  shows "queue_ok (w\<lparr>w_jobs := upd_where (\<lambda>x. j_ID x = jid) f (w_jobs w)\<rparr>)"
proof -
  let ?rows = "upd_where (\<lambda>x. j_ID x = jid) f (w_jobs w)"
  have only: "x = j" if "x \<in> set (w_jobs w)" "j_ID x = jid" for x
    using ok j that by (auto simp: queue_ok_def unique_active_def distinct_map dest: inj_onD)
  have mem: "x \<in> set ?rows \<Longrightarrow> x = f j \<or> x \<in> set (w_jobs w) \<and> j_ID x \<noteq> jid" for x
    using only by (auto simp: upd_where_def)
  have ids: "map j_ID ?rows = map j_ID (w_jobs w)"
    using only f(1) by (auto simp: upd_where_def)
  have "\<not> collides a b" if "a \<in> set ?rows" "b \<in> set ?rows" for a b
  proof
    assume c: "collides a b"
    have "\<not> collides (f j) x" if "x \<in> set (w_jobs w)" for x
      using free that by (auto simp: list_ex_iff)
    moreover have "\<not> collides x y" if "x \<in> set (w_jobs w)" "y \<in> set (w_jobs w)" for x y
      using ok that by (simp add: queue_ok_def unique_active_def)
    moreover have "\<not> collides (f j) (f j)" by (simp add: collides_def)
    ultimately show False
      using mem [OF that(1)] mem [OF that(2)] c collides_sym [OF c] by blast
  qed
  moreover have "attempts_ok ?rows"
    using mem ok j f(2-4) by (fastforce simp: queue_ok_def attempts_ok_def)
  moreover have "\<forall>x\<in>set ?rows. j_ID x < w_next w"
    using mem ok j f(1) by (fastforce simp: queue_ok_def)
  ultimately show ?thesis
    using ok by (simp add: queue_ok_def unique_active_def ids)
qed

lemma failed_job_simps [simp]:
  "j_ID (failed_job cause d now j) = j_ID j" "j_MaxAttempts (failed_job cause d now j) = j_MaxAttempts j"
  "j_Attempts (failed_job cause d now j) = j_Attempts j"
  "j_State (failed_job cause d now j) = (if j_Attempts j \<ge> j_MaxAttempts j then JobDead else JobQueued)"
  by (simp_all add: failed_job_def Let_def)

lemma find_mem: "List.find P xs = Some x \<Longrightarrow> x \<in> set xs \<and> P x"
  by (auto simp: find_Some_iff)

lemma keeps_Fail: "keeps queue_ok (Fail jid cause delay)"
  unfolding Fail_def Let_def update_jobs_def
proof (intro keeps_stmt queue_ok_faults upholdsI)
  fix w :: "'a world" assume ok: "queue_ok w"
  show "queue_ok (snd (case List.find (\<lambda>j. j_ID j = jid) (w_jobs w) of
       None \<Rightarrow> (Inl ErrNotFound, w)
     | Some j \<Rightarrow> if list_ex (collides (failed_job cause delay (w_now w) j)) (w_jobs w) then (Inl ErrDatabase, w)
         else (Inr (j_State (failed_job cause delay (w_now w) j) = JobDead),
               w\<lparr>w_jobs := upd_where (\<lambda>x. j_ID x = jid) (failed_job cause delay (w_now w)) (w_jobs w)\<rparr>)))"
  proof (cases "List.find (\<lambda>j. j_ID j = jid) (w_jobs w)")
    case (Some j)
    then have j: "j \<in> set (w_jobs w)" "j_ID j = jid" by (auto dest: find_mem)
    have "queue_ok (w\<lparr>w_jobs := upd_where (\<lambda>x. j_ID x = jid) (failed_job cause delay (w_now w)) (w_jobs w)\<rparr>)"
      if "\<not> list_ex (collides (failed_job cause delay (w_now w) j)) (w_jobs w)"
      by (rule queue_ok_replace [where f = "failed_job cause delay (w_now w)", OF ok j _ _ _ _ that]) (use j(2) in \<open>simp_all split: if_splits\<close>)
    then show ?thesis using ok by (simp add: Some)
  qed (simp add: ok)
qed

lemma keeps_update_jobs_exec:
  assumes "\<And>now j. P j \<Longrightarrow> tame (f now) j"
  shows "keeps queue_ok (exec_affecting hits err (update_jobs P f))"
  by (intro keeps_exec_affecting queue_ok_faults queue_ok_update_jobs) (use assms in auto)

lemma keeps_queue_rest:
  "keeps queue_ok (Succeed jid)" "keeps queue_ok (Kill jid cause)" "keeps queue_ok (Cancel tenant jid)"
  "keeps queue_ok (Heartbeat jid worker)" "keeps queue_ok (ReapStalled d)" "keeps queue_ok (PurgeFinished d)"
proof -
  show "keeps queue_ok (Succeed jid)" "keeps queue_ok (Kill jid cause)" "keeps queue_ok (Cancel tenant jid)"
    unfolding Succeed_def Kill_def Cancel_def Let_def
    by (intro keeps_update_jobs_exec; simp add: tame_def indexed_def)+
  show "keeps queue_ok (Heartbeat jid worker)"
    unfolding Heartbeat_def
    by (intro keeps_stmt queue_ok_faults keeps_modify queue_ok_update_jobs) (simp_all add: tame_def indexed_def)
  show "keeps queue_ok (ReapStalled d)"
    unfolding ReapStalled_def
    by (intro keeps_stmt queue_ok_faults upholdsI)
      (auto intro!: queue_ok_upd simp: tame_def indexed_def reaped_def stalled_def)
  show "keeps queue_ok (PurgeFinished d)"
    unfolding PurgeFinished_def
    by (intro keeps_stmt queue_ok_faults upholdsI)
      (auto simp: queue_ok_def unique_active_def attempts_ok_def distinct_map_filter)
qed

lemma double_until_eq:
  "0 < d \<Longrightarrow> d \<le> limit \<Longrightarrow> min (double_until n d limit) limit = min (d * 2 ^ n) limit"
proof (induction n d limit rule: double_until.induct)
  case (2 n d limit)
  show ?case
  proof (cases "d * 2 \<le> limit")
    case True
    with 2 have "min (double_until n (d * 2) limit) limit = min (d * 2 * 2 ^ n) limit" by simp
    with True 2(2) show ?thesis by (simp add: algebra_simps)
  next
    case False
    have "double_until m e limit = e" if "limit \<le> e" for m e using that by (cases m) auto
    moreover have "d * 2 \<le> d * 2 ^ Suc n" using 2(2) by simp
    with False have "limit < d * 2 ^ Suc n" by linarith
    ultimately show ?thesis using False 2(3) by (simp add: min_def del: power_Suc)
  qed
qed simp

section \<open>Properties\<close>

text \<open>C23. Every operation of the queue keeps its invariant, under any fault schedule: row identifiers
  are unique, at most one queued or running job exists per tenant and idempotency key, no job is
  leased more often than \<open>MaxAttempts\<close>, and a queued job always has an attempt left.\<close>

theorem queue_operations_keep_invariant:
  "keeps queue_ok (Dequeue worker types limit) \<and> keeps queue_ok (Succeed jid) \<and> keeps queue_ok (Fail jid cause delay)
    \<and> keeps queue_ok (Kill jid cause) \<and> keeps queue_ok (Cancel tenant jid) \<and> keeps queue_ok (Heartbeat jid worker)
    \<and> keeps queue_ok (ReapStalled ttl) \<and> keeps queue_ok (PurgeFinished ttl)
    \<and> (if j_ID j = uuid_Nil \<and> 0 \<le> j_MaxAttempts j then keeps queue_ok (Enqueue j) else True)"
  by (simp add: keeps_Dequeue keeps_queue_rest keeps_Fail keeps_Enqueue)

text \<open>The retry delay of attempt \<open>n\<close> is the base delay doubled \<open>n - 1\<close> times and capped, plus a jitter
  of at most a quarter: it is never below the capped exponential and never above 5/4 of the cap.\<close>

theorem backoff_bounds:
  assumes "0 < ro_BaseBackoff opts" and "ro_BaseBackoff opts \<le> ro_MaxBackoff opts" and "1 \<le> n"
  shows "backoff_delay opts n = min (ro_BaseBackoff opts * 2 ^ nat (n - 1)) (ro_MaxBackoff opts)
    \<and> backoff_delay opts n \<le> backoff opts jitter n
    \<and> backoff opts jitter n \<le> backoff_delay opts n + backoff_delay opts n div 4
    \<and> 4 * backoff opts jitter n \<le> 5 * ro_MaxBackoff opts"
proof -
  have d: "backoff_delay opts n = min (ro_BaseBackoff opts * 2 ^ nat (n - 1)) (ro_MaxBackoff opts)"
    using double_until_eq [OF assms(1,2), of "nat (n - 1)"] assms(3)
    by (auto simp: backoff_delay_def Let_def min_def)
  let ?x = "backoff_delay opts n"
  let ?r = "int jitter mod (?x div 4 + 1)"
  from d have x: "0 \<le> ?x" "?x \<le> ro_MaxBackoff opts" using assms by auto
  then have q: "0 \<le> ?x div 4" "4 * (?x div 4) \<le> ?x" by simp_all
  then have r: "0 \<le> ?r" "?r \<le> ?x div 4"
    using pos_mod_bound [of "?x div 4 + 1" "int jitter"] pos_mod_sign [of "?x div 4 + 1" "int jitter"] by linarith+
  have b: "backoff opts jitter n = ?x + ?r" by (simp add: backoff_def Let_def)
  have "4 * (a + e) \<le> 5 * c" if "0 \<le> a" "a \<le> c" "4 * k \<le> a" "e \<le> k" for a e c k :: int
    using that by presburger
  from this [OF x q(2) r(2)] show ?thesis unfolding b using d r by simp
qed

theorem backoff_bounds_witness:
  "backoff_delay DefaultOptions 3 = 40 * Second \<and> 4 * backoff DefaultOptions 17 3 \<le> 5 * (30 * Minute)"
  using backoff_bounds [of DefaultOptions 3 17] by (simp add: DefaultOptions_def)

text \<open>C24. Queuing the same work twice creates one job: while a job with the idempotency key is queued or
  running, \<open>Enqueue\<close> leaves the table as it is and returns that job.\<close>

theorem enqueue_is_idempotent:
  assumes "queue_ok w" and "w_faults w = []" and "x \<in> set (w_jobs w)" and "indexed x"
    and "j_ID j = uuid_Nil" and "j_TenantID j = j_TenantID x" and "j_TenantID x \<noteq> uuid_Nil"
    and "j_IdempotencyKey j = j_IdempotencyKey x"
  shows "Enqueue j w = (Inr x, w\<lparr>w_next := Suc (w_next w)\<rparr>)"
proof -
  obtain key where key: "j_IdempotencyKey x = Some key" using assms(4) by (auto simp: indexed_def)
  let ?j = "fill_job (w_next w) (w_now w) j"
  have "collides ?j x"
    using assms key by (fastforce simp: collides_def fill_job_def indexed_def queue_ok_def)
  then have c: "list_ex (collides ?j) (w_jobs w)" using assms(3) by (auto simp: list_ex_iff)
  have u: "y = x" if "y \<in> set (w_jobs w)" "j_TenantID y = j_TenantID x" "j_IdempotencyKey y = Some key" "indexed y" for y
  proof (rule ccontr)
    assume "y \<noteq> x"
    then have "j_ID y \<noteq> j_ID x"
      using assms(1,3) that(1) by (auto simp: queue_ok_def unique_active_def distinct_map dest: inj_onD)
    then have "collides y x" using that key assms(4) by (simp add: collides_def)
    with assms(1,3) that(1) show False by (simp add: queue_ok_def unique_active_def)
  qed
  let ?hits = "filter (\<lambda>y. j_TenantID y = j_TenantID x \<and> j_IdempotencyKey y = Some key \<and> indexed y) (w_jobs w)"
  have "set (sort_key (\<lambda>y. - j_CreatedAt y) ?hits) = {x}" using u assms(3,4) key by auto
  then obtain rest where "sort_key (\<lambda>y. - j_CreatedAt y) ?hits = x # rest"
    by (cases "sort_key (\<lambda>y. - j_CreatedAt y) ?hits") auto
  then show ?thesis
    using assms(2,5-8) c key
    by (simp add: Enqueue_def andThen_def uuid_New_def insert_job_def byIdempotencyKey_def Let_def)
      (simp add: fill_job_def byIdempotencyKey_def)
qed

definition sample_job :: job where
  "sample_job = \<lparr>j_ID = 7, j_TenantID = 1, j_Type = ''deploy'', j_Payload = OpaquePayload [], j_State = JobRunning,
     j_Priority = 100, j_Attempts = 1, j_MaxAttempts = 5, j_RunAfter = 0, j_IdempotencyKey = Some (TextKey ''once''),
     j_RotationID = None, j_LockedBy = ''w'', j_LockedAt = Some 0, j_StartedAt = Some 0, j_FinishedAt = None,
     j_LastError = [], j_CreatedBy = None, j_CreatedAt = 0\<rparr>"

theorem enqueue_is_idempotent_witness:
  "fst (Enqueue (sample_job\<lparr>j_ID := uuid_Nil\<rparr>) ((blank ())\<lparr>w_jobs := [sample_job]\<rparr>)) = Inr sample_job"
  using enqueue_is_idempotent [of "(blank ())\<lparr>w_jobs := [sample_job]\<rparr>" sample_job "sample_job\<lparr>j_ID := uuid_Nil\<rparr>"]
  by (simp add: sample_job_def blank_def queue_ok_def unique_active_def attempts_ok_def indexed_def collides_def)

text \<open>C39. \<open>Fail\<close> and \<open>Succeed\<close> look only at the identifier, \<open>Kill\<close> also at the state.  So a job cancelled
  while its handler runs is queued again when the handler returns an error and attempts are left,
  and is recorded as succeeded when the handler returns; only a permanent error leaves it cancelled.\<close>

theorem cancelled_job_comes_back:
  "let w' = w\<lparr>w_faults := [], w_jobs := [j\<lparr>j_State := JobCancelled\<rparr>]\<rparr> in
     map j_State (w_jobs (snd (Fail (j_ID j) cause delay w'))) =
       [if j_Attempts j < j_MaxAttempts j then JobQueued else JobDead]
   \<and> map j_State (w_jobs (snd (Succeed (j_ID j) w'))) = [JobSucceeded]
   \<and> Kill (j_ID j) cause w' = (Inl ErrNotFound, w')"
  by (simp add: Let_def Fail_def Succeed_def Kill_def exec_affecting_def update_jobs_def upd_where_def collides_def)

end
