(* ===== verification/Rotation.thy ===== *)
theory Rotation
  imports ConsumerService JobQueue
begin

text \<open>
  The rotation engine (\<open>internal/service/rotation.go\<close>): planning, the add-before-remove state machine,
  one transition per \<open>Step\<close>, and the job handler that drives it (\<open>internal/service/worker.go\<close>).
  The in-memory parameter cache is \<open>w_params\<close>; a process that dies loses it.
\<close>

section \<open>Planning\<close>

record plan_request =
  pq_KeyID :: uuid
  pq_PolicyID :: "uuid option"
  pq_Trigger :: "trigger option"
  pq_Algorithm :: string
  pq_SoakPeriod :: "duration option"
  pq_CanaryPercent :: int
  pq_FailureThreshold :: int
  pq_ApprovalRequired :: bool
  pq_DryRun :: bool

record rotation_plan =
  pl_Rotation :: rotation
  pl_OldKey :: key
  pl_Targets :: "rotation_target list"
  pl_Waves :: "int \<Rightarrow> nat"
  pl_Consumers :: "consumer list"

definition orTrigger :: "trigger option \<Rightarrow> trigger" where
  "orTrigger v = (case v of None \<Rightarrow> TriggerManual | Some t \<Rightarrow> t)"

definition remember :: "uuid \<Rightarrow> rotation_params \<Rightarrow> ('h, unit) dbprog" where
  "remember rid p = modify (\<lambda>w. w\<lparr>w_params := (w_params w)(rid \<mapsto> p)\<rparr>)"

definition no_params :: rotation_params where
  "no_params = \<lparr>rp_Algorithm = [], rp_SoakPeriod = None, rp_FailureThreshold = 0\<rparr>"

definition recall :: "uuid \<Rightarrow> ('h, rotation_params) dbprog" where
  "recall rid = get (\<lambda>w. case w_params w rid of None \<Rightarrow> no_params | Some p \<Rightarrow> p)"

text \<open>The targets flagged as canaries, or the first \<open>percent\<close> of the assignments, rounded up.\<close>

definition flagged_canaries :: "uuid \<Rightarrow> assignment list \<Rightarrow> ('h, uuid list) dbprog" where
  "flagged_canaries tenantID all = foldEach all [] (\<lambda>a out.
     andThen (attempt (Targets_Get tenantID (a_TargetID a))) (\<lambda>r.
     case r of Inl _ \<Rightarrow> ret out
             | Inr t \<Rightarrow> ret (if t_IsCanary t then out @ [a_TargetID a] else out)))"

text \<open>Integer division truncates toward zero, as in Go; \<open>percent\<close> is positive where it is used.\<close>

definition percent_canaries :: "assignment list \<Rightarrow> int \<Rightarrow> uuid list" where
  "percent_canaries all percent =
     (if percent \<le> 0 then []
      else let want = (int (length all) * percent + 99) div 100 in
           if want \<ge> int (length all) then [] else map a_TargetID (take (nat want) all))"

definition canarySet :: "uuid \<Rightarrow> assignment list \<Rightarrow> int \<Rightarrow> ('h, uuid list) dbprog" where
  "canarySet tenantID all percent =
     (if all = [] then ret []
      else andThen (flagged_canaries tenantID all) (\<lambda>flagged.
           if flagged \<noteq> [] then ret flagged else ret (percent_canaries all percent)))"

definition collapseWaves :: "uuid \<Rightarrow> ('h, unit) dbprog" where
  "collapseWaves rid =
     andThen (ListRotationTargets rid) (\<lambda>rows.
     forEach rows (\<lambda>rt. AddRotationTarget (rt\<lparr>rt_Wave := 0\<rparr>)))"

definition new_rotation_target :: "uuid \<Rightarrow> uuid list \<Rightarrow> assignment \<Rightarrow> rotation_target" where
  "new_rotation_target rid canaries a =
     \<lparr>rt_RotationID = rid, rt_TargetID = a_TargetID a, rt_PrincipalID = a_PrincipalID a,
      rt_Wave = (if a_TargetID a \<in> set canaries then 0 else 1), rt_State = RTPending,
      rt_Error = [], rt_StagedAt = None, rt_VerifiedAt = None, rt_RetiredAt = None\<rparr>"

definition wave_count :: "uuid list \<Rightarrow> assignment list \<Rightarrow> int \<Rightarrow> nat" where
  "wave_count canaries all wave = length (filter (\<lambda>a. rt_Wave (new_rotation_target 0 canaries a) = wave) all)"

definition planned_rotation :: "subject \<Rightarrow> plan_request \<Rightarrow> nat \<Rightarrow> rotation" where
  "planned_rotation s req n = \<lparr>r_ID = uuid_Nil, r_TenantID = TenantID s, r_PolicyID = pq_PolicyID req,
     r_OldKeyID = Some (pq_KeyID req), r_NewKeyID = None, r_ChangesetID = None, r_State = RotationPlanned,
     r_Wave = 0, r_Trigger = orTrigger (pq_Trigger req), r_DryRun = pq_DryRun req, r_SoakUntil = None,
     r_TargetsTotal = int n, r_TargetsStaged = 0, r_TargetsVerified = 0, r_TargetsRetired = 0,
     r_TargetsFailed = 0, r_ApprovedBy = None, r_ApprovedAt = None, r_Error = [],
     r_CreatedBy = Some (UserID s), r_CompletedAt = None\<rparr>"

definition plan_targets :: "uuid \<Rightarrow> uuid list \<Rightarrow> assignment list \<Rightarrow> ('h, int \<Rightarrow> nat) dbprog" where
  "plan_targets rid canaries all =
     andThen (forEach all (\<lambda>a. AddRotationTarget (new_rotation_target rid canaries a))) (\<lambda>_.
     if wave_count canaries all 0 = 0 \<and> wave_count canaries all 1 > 0
     then andThen (attempt (WaveTargets rid 1 [])) (\<lambda>r. case r of
            Inl _ \<Rightarrow> ret (wave_count canaries all)
          | Inr _ \<Rightarrow> andThen (collapseWaves rid) (\<lambda>_. ret ((\<lambda>_. 0)(0 := length all))))
     else ret (wave_count canaries all))"

text \<open>The warnings of a plan only name connectors and are not modelled.\<close>

definition Plan :: "subject \<Rightarrow> plan_request \<Rightarrow> ('h, rotation_plan) dbprog" where
  "Plan s req =
     andThen (lift (Require (Some s) PermRotationWrite)) (\<lambda>_.
     andThen (Keys_Get (TenantID s) (pq_KeyID req)) (\<lambda>oldKey.
     if \<not> InScope (Some s) (k_Tags oldKey) then fail ErrOutOfScope
     else if k_KeyClass oldKey = KeyClassBreakGlass then fail ErrBadRotation
     else if k_Status oldKey = KeyRetired \<or> k_Status oldKey = KeyDestroyed then fail ErrBadRotation
     else
     andThen (Assignments_List \<lparr>af_TenantID = TenantID s, af_KeyID = Some (pq_KeyID req), af_TargetID = None,
       af_PrincipalID = None, af_DesiredState = Some StatePresent, af_Limit = 1000\<rparr>) (\<lambda>all.
     andThen (CreateRotation (planned_rotation s req (length all))) (\<lambda>r0.
     andThen (if pq_ApprovalRequired req
              then SetRotationState (r_ID r0) [RotationPlanned] RotationAwaiting [] else ret r0) (\<lambda>r.
     andThen (canarySet (TenantID s) all (pq_CanaryPercent req)) (\<lambda>canaries.
     andThen (plan_targets (r_ID r) canaries all) (\<lambda>waves.
     andThen (ListRotationTargets (r_ID r)) (\<lambda>targets.
     andThen (Consumers_List (TenantID s) (Some (pq_KeyID req))) (\<lambda>sinks.
     andThen (record_audit (audit_by s ''key.rotate'' (Some (r_ID r)) ''success'' ''planned'')) (\<lambda>_.
     andThen (remember (r_ID r) \<lparr>rp_Algorithm = orString (pq_Algorithm req) (k_Algorithm oldKey),
                rp_SoakPeriod = pq_SoakPeriod req, rp_FailureThreshold = pq_FailureThreshold req\<rparr>) (\<lambda>_.
     ret \<lparr>pl_Rotation = r, pl_OldKey = oldKey, pl_Targets = targets, pl_Waves = waves, pl_Consumers = sinks\<rparr>)))))))))))"

section \<open>Queuing steps\<close>

definition step_job :: "rotation \<Rightarrow> uuid \<Rightarrow> gtime \<Rightarrow> job" where
  "step_job r userID runAfter = \<lparr>j_ID = uuid_Nil, j_TenantID = r_TenantID r, j_Type = ''rotation.step'',
     j_Payload = RotationStepPayload (r_ID r) userID, j_State = JobQueued, j_Priority = 50, j_Attempts = 0,
     j_MaxAttempts = 3, j_RunAfter = runAfter,
     j_IdempotencyKey = Some (RotationStepKey (r_ID r) (r_State r) (r_Wave r)), j_RotationID = Some (r_ID r),
     j_LockedBy = [], j_LockedAt = None, j_StartedAt = None, j_FinishedAt = None, j_LastError = [],
     j_CreatedBy = Some userID, j_CreatedAt = 0\<rparr>"

definition enqueueStep :: "rotation \<Rightarrow> uuid \<Rightarrow> duration \<Rightarrow> ('h, unit) dbprog" where
  "enqueueStep r userID delay =
     andThen time_Now (\<lambda>now.
     andThen (Enqueue (step_job r userID (now + delay))) (\<lambda>_. ret ()))"

definition EnqueueNext :: "uuid \<Rightarrow> uuid \<Rightarrow> uuid \<Rightarrow> duration \<Rightarrow> ('h, unit) dbprog" where
  "EnqueueNext tenantID rid userID delay =
     andThen (GetRotation tenantID rid) (\<lambda>r.
     if RotationFinished (r_State r) then ret () else enqueueStep r userID delay)"

definition Start :: "subject \<Rightarrow> uuid \<Rightarrow> ('h, rotation) dbprog" where
  "Start s rid =
     andThen (lift (Require (Some s) PermRotationExecute)) (\<lambda>_.
     andThen (GetRotation (TenantID s) rid) (\<lambda>r.
     if r_State r \<noteq> RotationPlanned then fail ErrBadRotation else
     andThen (enqueueStep r (UserID s) 0) (\<lambda>_.
     andThen (emit ''rotation.started'' (Some rid)) (\<lambda>_.
     ret r))))"

definition Approve :: "subject \<Rightarrow> uuid \<Rightarrow> ('h, rotation) dbprog" where
  "Approve s rid =
     andThen (lift (Require (Some s) PermRotationApprove)) (\<lambda>_.
     andThen (ApproveRotation (TenantID s) rid (UserID s)) (\<lambda>r.
     andThen (record_audit (audit_by s ''key.rotate'' (Some rid) ''success'' ''approved'')) (\<lambda>_.
     andThen (enqueueStep r (UserID s) 0) (\<lambda>_.
     ret r))))"

definition Abort :: "subject \<Rightarrow> uuid \<Rightarrow> string \<Rightarrow> ('h, rotation) dbprog" where
  "Abort s rid reason =
     andThen (lift (Require (Some s) PermRotationAbort)) (\<lambda>_.
     andThen (GetRotation (TenantID s) rid) (\<lambda>r.
     if RotationFinished (r_State r) then fail ErrBadRotation else
     andThen (SetRotationState rid [] RotationAborted (orString reason ''aborted by an operator'')) (\<lambda>updated.
     andThen (record_audit (audit_by s ''key.rotate'' (Some rid) ''success'' ''aborted'')) (\<lambda>_.
     andThen (emit ''rotation.aborted'' (Some rid)) (\<lambda>_.
     ret updated)))))"

section \<open>Names and parameters\<close>

fun last_dash :: "nat \<Rightarrow> string \<Rightarrow> nat option" where
  "last_dash 0 name = None"
| "last_dash (Suc i) name = (if name ! Suc i = CHR ''-'' then Some (Suc i) else last_dash i name)"

definition digit :: "char \<Rightarrow> bool" where
  "digit c \<longleftrightarrow> CHR ''0'' \<le> c \<and> c \<le> CHR ''9''"

definition strip_generation :: "string \<Rightarrow> string" where
  "strip_generation name = (case last_dash (length name - 1) name of
       None \<Rightarrow> name
     | Some i \<Rightarrow> (let suffix = drop (Suc i) name in
         if length suffix > 1 \<and> hd suffix = CHR ''g'' \<and> list_all digit (tl suffix)
         then take i name else name))"

definition show_int :: "int \<Rightarrow> string" where
  "show_int n = (if n < 0 then ''-'' @ show_nat (nat (- n)) else show_nat (nat n))"

definition successorName :: "string \<Rightarrow> int \<Rightarrow> string" where
  "successorName name generation = strip_generation name @ ''-g'' @ show_int generation"

definition policyThreshold :: "uuid \<Rightarrow> rotation \<Rightarrow> ('h, int) dbprog" where
  "policyThreshold tenantID r = (case r_PolicyID r of
       None \<Rightarrow> ret 0
     | Some pid \<Rightarrow> andThen (attempt (GetPolicy tenantID pid)) (\<lambda>p.
         case p of Inl _ \<Rightarrow> ret 0 | Inr p \<Rightarrow> ret (pol_FailureThreshold p)))"

definition soakPeriod :: "uuid \<Rightarrow> rotation \<Rightarrow> ('h, duration) dbprog" where
  "soakPeriod tenantID r =
     andThen (recall (r_ID r)) (\<lambda>params.
     case rp_SoakPeriod params of
       Some d \<Rightarrow> ret d
     | None \<Rightarrow> (case r_PolicyID r of
         None \<Rightarrow> ret (24 * Hour)
       | Some pid \<Rightarrow> andThen (attempt (GetPolicy tenantID pid)) (\<lambda>p.
           case p of Inl _ \<Rightarrow> ret (24 * Hour) | Inr p \<Rightarrow> ret (SoakPeriod p))))"

definition optionsFor :: "uuid \<Rightarrow> uuid \<Rightarrow> uuid \<Rightarrow> ('h, string list) dbprog" where
  "optionsFor tenantID oldKeyID pid =
     andThen (attempt (Assignments_List \<lparr>af_TenantID = tenantID, af_KeyID = Some oldKeyID, af_TargetID = None,
       af_PrincipalID = Some pid, af_DesiredState = None, af_Limit = 1\<rparr>)) (\<lambda>r.
     case r of Inl _ \<Rightarrow> ret []
             | Inr [] \<Rightarrow> ret []
             | Inr (a # _) \<Rightarrow> ret (a_Options a))"

section \<open>The state machine\<close>

text \<open>\<open>(True, d)\<close>: more to do, after \<open>d\<close>.\<close>

type_synonym next_step = "bool \<times> duration"

definition abortOnThreshold :: "subject \<Rightarrow> rotation \<Rightarrow> string \<Rightarrow> ('h, bool) dbprog" where
  "abortOnThreshold s r phase =
     andThen (GetRotation (TenantID s) (r_ID r)) (\<lambda>cur.
     if r_TargetsTotal cur = 0 \<or> r_TargetsFailed cur = 0 then ret False else
     andThen (recall (r_ID r)) (\<lambda>params.
     andThen (if rp_FailureThreshold params \<le> 0 then policyThreshold (TenantID s) r
              else ret (rp_FailureThreshold params)) (\<lambda>threshold.
     let rate = r_TargetsFailed cur * 100 div r_TargetsTotal cur in
     if rate \<le> threshold then ret False else
     andThen (SetRotationState (r_ID r) [] RotationAborted (''too many targets failed during '' @ phase)) (\<lambda>_.
     andThen (record_audit (audit_by s ''key.rotate'' (Some (r_ID r)) ''failure'' phase)) (\<lambda>_.
     andThen (emit ''rotation.aborted'' (Some (r_ID r))) (\<lambda>_.
     ret True))))))"

definition stepPlanned :: "('h, 'p) env \<Rightarrow> subject \<Rightarrow> rotation \<Rightarrow> ('h, next_step) dbprog" where
  "stepPlanned E s r =
     (if r_NewKeyID r \<noteq> None then
        andThen (SetRotationState (r_ID r) [RotationPlanned] RotationStaging []) (\<lambda>_. ret (True, 0))
      else
        andThen (deref (r_OldKeyID r)) (\<lambda>oldID.
        andThen (Keys_Get (TenantID s) oldID) (\<lambda>oldKey.
        andThen (recall (r_ID r)) (\<lambda>params.
        andThen (Changesets_Create (TenantID s)) (\<lambda>cs.
        andThen (KeyService_Generate E s
            \<lparr>gr_Name = successorName (k_Name oldKey) (k_Generation oldKey + 1),
             gr_Algorithm = orString (rp_Algorithm params) (k_Algorithm oldKey),
             gr_Comment = k_Comment oldKey, gr_Tags = k_Tags oldKey, gr_KeyClass = Some (k_KeyClass oldKey),
             gr_ValidFor = 0, gr_ParentKeyID = Some (k_ID oldKey), gr_Generation = k_Generation oldKey + 1\<rparr>) (\<lambda>newKey.
        andThen (logf ''generated'') (\<lambda>_.
        andThen (ListRotationTargets (r_ID r)) (\<lambda>rows.
        andThen (SetRotationKeys (r_ID r) (Some (k_ID newKey)) (Some cs) (int (length rows))) (\<lambda>_.
        if r_DryRun r
        then andThen (SetRotationState (r_ID r) [] RotationCompleted ''dry run'') (\<lambda>_. ret (False, 0))
        else andThen (SetRotationState (r_ID r) [RotationPlanned] RotationStaging []) (\<lambda>_. ret (True, 0)))))))))))"

definition deploy_opts :: "bool \<Rightarrow> bool \<Rightarrow> uuid option \<Rightarrow> deploy_options" where
  "deploy_opts prune verify cs = \<lparr>do_DryRun = False, do_Prune = prune, do_VerifyAuth = verify, do_ChangesetID = cs\<rparr>"

definition restorePrevious ::
  "('h, 'p) env \<Rightarrow> subject \<Rightarrow> rotation \<Rightarrow> rotation_target \<Rightarrow> string list \<Rightarrow> ('h, unit) dbprog" where
  "restorePrevious E s r rt options =
     andThen (deref (r_OldKeyID r)) (\<lambda>oldID.
     andThen (Assignments_Upsert (TenantID s) oldID (rt_TargetID rt) (rt_PrincipalID rt) options StatePresent) (\<lambda>_.
     andThen (deref (r_NewKeyID r)) (\<lambda>newID.
     andThen (Assignments_Upsert (TenantID s) newID (rt_TargetID rt) (rt_PrincipalID rt) options StateAbsent) (\<lambda>_.
     andThen (Deploy E s (rt_TargetID rt) (rt_PrincipalID rt) (deploy_opts True False (r_ChangesetID r))) (\<lambda>_.
     ret ())))))"

definition replaceOne ::
  "('h, 'p) env \<Rightarrow> subject \<Rightarrow> rotation \<Rightarrow> rotation_target \<Rightarrow> capabilities \<Rightarrow> ('h, unit) dbprog" where
  "replaceOne E s r rt caps =
     (if \<not> CanRestore caps then fail ErrBadRotation else
      andThen (logf ''replacing and verifying in a single step'') (\<lambda>_.
      andThen (deref (r_OldKeyID r)) (\<lambda>oldID.
      andThen (optionsFor (TenantID s) oldID (rt_PrincipalID rt)) (\<lambda>options.
      andThen (deref (r_NewKeyID r)) (\<lambda>newID.
      andThen (Assignments_Upsert (TenantID s) newID (rt_TargetID rt) (rt_PrincipalID rt) options StatePresent) (\<lambda>_.
      andThen (Assignments_Upsert (TenantID s) oldID (rt_TargetID rt) (rt_PrincipalID rt) options StateAbsent) (\<lambda>_.
      andThen (attempt (Deploy E s (rt_TargetID rt) (rt_PrincipalID rt) (deploy_opts True True (r_ChangesetID r)))) (\<lambda>d.
      case d of
        Inl e \<Rightarrow>
          andThen (attempt (restorePrevious E s r rt options)) (\<lambda>back.
          case back of
            Inl _ \<Rightarrow> fail (ErrOther ''replacing the key failed and restoring the previous one also failed'')
          | Inr _ \<Rightarrow> andThen (logf ''the previous one was put back'') (\<lambda>_. fail e))
      | Inr result \<Rightarrow> (if dr_Warnings result \<noteq> [] then logf ''reported'' else ret ())))))))))"

definition stageOne :: "('h, 'p) env \<Rightarrow> subject \<Rightarrow> rotation \<Rightarrow> rotation_target \<Rightarrow> ('h, unit) dbprog" where
  "stageOne E s r rt =
     andThen (TargetCapabilities E (TenantID s) (rt_TargetID rt)) (\<lambda>caps.
     if SingleKey caps then replaceOne E s r rt caps else
     andThen (deref (r_OldKeyID r)) (\<lambda>oldID.
     andThen (optionsFor (TenantID s) oldID (rt_PrincipalID rt)) (\<lambda>options.
     andThen (deref (r_NewKeyID r)) (\<lambda>newID.
     andThen (Assignments_Upsert (TenantID s) newID (rt_TargetID rt) (rt_PrincipalID rt) options StatePresent) (\<lambda>_.
     andThen (Deploy E s (rt_TargetID rt) (rt_PrincipalID rt) (deploy_opts False False (r_ChangesetID r))) (\<lambda>result.
     if dr_Warnings result \<noteq> [] then logf ''reported'' else ret ()))))))"

definition set_rt :: "rotation \<Rightarrow> rotation_target \<Rightarrow> rt_state \<Rightarrow> string \<Rightarrow> ('h, unit) dbprog" where
  "set_rt r rt st msg = SetRotationTargetState (r_ID r) (rt_TargetID rt) (rt_PrincipalID rt) st msg"

definition stage_row :: "('h, 'p) env \<Rightarrow> subject \<Rightarrow> rotation \<Rightarrow> rotation_target \<Rightarrow> ('h, unit) dbprog" where
  "stage_row E s r rt =
     andThen (attempt (stageOne E s r rt)) (\<lambda>res.
     case res of
       Inl e \<Rightarrow> andThen (logf ''staging failed'') (\<lambda>_. set_rt r rt RTFailed (err_text e))
     | Inr _ \<Rightarrow> andThen (logf ''staged the new key'') (\<lambda>_. set_rt r rt RTStaged []))"

definition stepStaging :: "('h, 'p) env \<Rightarrow> subject \<Rightarrow> rotation \<Rightarrow> ('h, next_step) dbprog" where
  "stepStaging E s r =
     (if r_NewKeyID r = None then fail (ErrOther ''service: rotation reached staging without a successor key'') else
      andThen (WaveTargets (r_ID r) (r_Wave r) [RTPending]) (\<lambda>pending.
      andThen (forEach pending (stage_row E s r)) (\<lambda>_.
      andThen (abortOnThreshold s r ''staging'') (\<lambda>aborted.
      if aborted then ret (False, 0) else
      andThen (SetRotationState (r_ID r) [RotationStaging] RotationVerifying []) (\<lambda>_.
      andThen (emit ''rotation.staged'' (Some (r_ID r))) (\<lambda>_.
      ret (True, 0)))))))"

definition verifyOne :: "('h, 'p) env \<Rightarrow> subject \<Rightarrow> rotation_target \<Rightarrow> string \<Rightarrow> ('h, unit) dbprog" where
  "verifyOne E s rt privateKey =
     andThen (resolve E s (rt_TargetID rt) (rt_PrincipalID rt)) (\<lambda>(t, p, cred, conn).
     let rq = \<lparr>rq_Target = t, rq_Principal = p, rq_Credential = cred\<rparr> in
     if \<not> CanVerify (cn_Capabilities conn) then
       (if \<not> CanList (cn_Capabilities conn) then ret () else
        andThen (call_result (cn_List conn rq)) (\<lambda>entries.
        if list_ex (\<lambda>e. e_Fingerprint e \<noteq> []) entries then ret ()
        else fail (ErrOther ''service: the new key is not present'')))
     else call_result (cn_Verify conn rq privateKey))"

definition verify_row :: "('h, 'p) env \<Rightarrow> subject \<Rightarrow> rotation \<Rightarrow> string \<Rightarrow> rotation_target \<Rightarrow> ('h, unit) dbprog" where
  "verify_row E s r privateKey rt =
     andThen (attempt (verifyOne E s rt privateKey)) (\<lambda>res.
     case res of
       Inl e \<Rightarrow>
         andThen (logf ''the new key does not authenticate'') (\<lambda>_.
         andThen (emit ''verify.failed'' (Some (rt_TargetID rt))) (\<lambda>_.
         set_rt r rt RTFailed (err_text e)))
     | Inr _ \<Rightarrow> andThen (logf ''the new key authenticated'') (\<lambda>_. set_rt r rt RTVerified []))"

definition stepVerifying :: "('h, 'p) env \<Rightarrow> subject \<Rightarrow> rotation \<Rightarrow> ('h, next_step) dbprog" where
  "stepVerifying E s r =
     andThen (WaveTargets (r_ID r) (r_Wave r) [RTStaged]) (\<lambda>staged.
     andThen (deref (r_NewKeyID r)) (\<lambda>newID.
     andThen (PrivateKeyFor E (TenantID s) newID) (\<lambda>privateKey.
     andThen (forEach staged (verify_row E s r privateKey)) (\<lambda>_.
     andThen (abortOnThreshold s r ''verification'') (\<lambda>aborted.
     if aborted then ret (False, 0) else
     andThen (MaxWave (r_ID r)) (\<lambda>maxWave.
     if r_Wave r < maxWave then
       andThen (SetWave (r_ID r) (r_Wave r + 1)) (\<lambda>_.
       andThen (SetRotationState (r_ID r) [RotationVerifying] RotationStaging []) (\<lambda>_.
       andThen (logf ''canary wave verified'') (\<lambda>_.
       ret (True, 0))))
     else
       andThen (SetRotationState (r_ID r) [RotationVerifying] RotationVerified []) (\<lambda>_.
       andThen (emit ''rotation.verified'' (Some (r_ID r))) (\<lambda>_.
       ret (True, 0)))))))))"

text \<open>Handing the new key to one consumer: \<open>False\<close> when it could not take it.\<close>

definition deliver_to :: "('h, 'p) env \<Rightarrow> subject \<Rightarrow> uuid option \<Rightarrow> consumer \<Rightarrow> ('h, bool) dbprog" where
  "deliver_to E s newKeyID c =
     (if \<not> con_Enabled c then andThen (logf ''consumer is disabled; skipping it'') (\<lambda>_. ret True) else
      andThen (deref newKeyID) (\<lambda>newID.
      andThen (attempt (Rebind E s (con_ID c) newID)) (\<lambda>res.
      case res of
        Inl _ \<Rightarrow> andThen (logf ''consumer could not be updated'') (\<lambda>_. ret False)
      | Inr _ \<Rightarrow> andThen (logf ''delivered the new private key to consumer'') (\<lambda>_. ret True))))"

definition stepPromote :: "('h, 'p) env \<Rightarrow> subject \<Rightarrow> rotation \<Rightarrow> ('h, next_step) dbprog" where
  "stepPromote E s r =
     andThen (SetRotationState (r_ID r) [RotationStaged, RotationVerified] RotationPromoting []) (\<lambda>_.
     andThen (deref (r_NewKeyID r)) (\<lambda>newID.
     andThen (Keys_SetStatus (TenantID s) newID KeyActive) (\<lambda>_.
     andThen (deref (r_OldKeyID r)) (\<lambda>oldID.
     andThen (Keys_SetStatus (TenantID s) oldID KeyRetiring) (\<lambda>_.
     andThen (logf ''promoted the new key to active and marked the old one retiring'') (\<lambda>_.
     andThen (Consumers_List (TenantID s) (r_OldKeyID r)) (\<lambda>sinks.
     andThen (foldEach sinks True (\<lambda>c ok. if ok then deliver_to E s (r_NewKeyID r) c else ret False)) (\<lambda>ok.
     if ok then ret (True, 0)
     else andThen (SetRotationState (r_ID r) [] RotationFailed ''consumer could not be updated'') (\<lambda>_.
          ret (False, 0))))))))))"

definition stepSoak :: "subject \<Rightarrow> rotation \<Rightarrow> ('h, next_step) dbprog" where
  "stepSoak s r =
     andThen (soakPeriod (TenantID s) r) (\<lambda>soak.
     andThen time_Now (\<lambda>now.
     andThen (SetSoakUntil (r_ID r) (now + soak)) (\<lambda>_.
     andThen (SetRotationState (r_ID r) [RotationPromoting] RotationSoaking []) (\<lambda>_.
     andThen (logf ''soaking'') (\<lambda>_.
     andThen (emit ''rotation.soaking'' (Some (r_ID r))) (\<lambda>_.
     ret (True, soak)))))))"

definition stepSoakWait :: "rotation \<Rightarrow> ('h, next_step) dbprog" where
  "stepSoakWait r =
     andThen time_Now (\<lambda>now.
     case r_SoakUntil r of
       Some u \<Rightarrow>
         if now < u then andThen time_Now (\<lambda>now'. andThen (logf ''still soaking'') (\<lambda>_. ret (True, u - now')))
         else andThen (SetRotationState (r_ID r) [RotationSoaking] RotationRetiring []) (\<lambda>_. ret (True, 0))
     | None \<Rightarrow> andThen (SetRotationState (r_ID r) [RotationSoaking] RotationRetiring []) (\<lambda>_. ret (True, 0)))"

definition retireOne :: "('h, 'p) env \<Rightarrow> subject \<Rightarrow> rotation \<Rightarrow> rotation_target \<Rightarrow> ('h, unit) dbprog" where
  "retireOne E s r rt =
     andThen (Assignments_List \<lparr>af_TenantID = TenantID s, af_KeyID = r_OldKeyID r, af_TargetID = Some (rt_TargetID rt),
       af_PrincipalID = Some (rt_PrincipalID rt), af_DesiredState = None, af_Limit = 10\<rparr>) (\<lambda>existing.
     andThen (forEach existing (\<lambda>a. Assignments_Delete (TenantID s) (a_ID a))) (\<lambda>_.
     andThen (Deploy E s (rt_TargetID rt) (rt_PrincipalID rt) (deploy_opts True True (r_ChangesetID r))) (\<lambda>result.
     if dr_FailedKeys result \<noteq> [] then fail (ErrOther ''service: after removing the old key, keys no longer authenticate'')
     else ret ())))"

text \<open>One row of the retirement; the count of failures is carried along.\<close>

definition retire_row :: "('h, 'p) env \<Rightarrow> subject \<Rightarrow> rotation \<Rightarrow> rotation_target \<Rightarrow> nat \<Rightarrow> ('h, nat) dbprog" where
  "retire_row E s r rt failed =
     (if rt_State rt \<noteq> RTVerified then
        (if rt_State rt = RTFailed
         then andThen (logf ''leaving both keys: it never verified'') (\<lambda>_. ret (Suc failed))
         else ret failed)
      else
        andThen (attempt (retireOne E s r rt)) (\<lambda>res.
        case res of
          Inl e \<Rightarrow>
            andThen (logf ''could not remove the old key'') (\<lambda>_.
            andThen (set_rt r rt RTFailed (err_text e)) (\<lambda>_.
            ret (Suc failed)))
        | Inr _ \<Rightarrow>
            andThen (logf ''removed the old key'') (\<lambda>_.
            andThen (set_rt r rt RTRetired []) (\<lambda>_.
            ret failed))))"

definition stepRetire :: "('h, 'p) env \<Rightarrow> subject \<Rightarrow> rotation \<Rightarrow> ('h, next_step) dbprog" where
  "stepRetire E s r =
     andThen (ListRotationTargets (r_ID r)) (\<lambda>rows.
     andThen (foldEach rows 0 (\<lambda>rt failed. retire_row E s r rt failed)) (\<lambda>failed.
     let message = (if failed > 0 then show_nat failed @ '' target(s) still hold the old key'' else []) in
     andThen (if failed > 0 then logf message
              else andThen (deref (r_OldKeyID r)) (\<lambda>oldID.
                   andThen (Keys_SetStatus (TenantID s) oldID KeyRetired) (\<lambda>_.
                   logf ''the old key is retired''))) (\<lambda>_.
     andThen (SetRotationState (r_ID r) [RotationRetiring] RotationCompleted message) (\<lambda>_.
     andThen (case r_ChangesetID r of None \<Rightarrow> ret () | Some cs \<Rightarrow> warn (Changesets_SetState cs ChangesetCommitted)) (\<lambda>_.
     andThen (record_audit (audit_by s ''key.rotate'' (Some (r_ID r)) ''success'' ''completed'')) (\<lambda>_.
     andThen (emit ''rotation.done'' (Some (r_ID r))) (\<lambda>_.
     ret (False, 0))))))))"

definition systemSubject :: "uuid \<Rightarrow> ('h, subject) dbprog" where
  "systemSubject userID =
     andThen (LoadSubject DefaultTenantID userID) (\<lambda>s.
     andThen time_Now (\<lambda>now.
     ret (s\<lparr>MFAVerifiedAt := Some now\<rparr>)))"

definition step_in_state :: "('h, 'p) env \<Rightarrow> subject \<Rightarrow> rotation \<Rightarrow> ('h, next_step) dbprog" where
  "step_in_state E s r = (case r_State r of
       RotationAwaiting \<Rightarrow> ret (False, 0)
     | RotationPlanned \<Rightarrow> stepPlanned E s r
     | RotationStaging \<Rightarrow> stepStaging E s r
     | RotationVerifying \<Rightarrow> stepVerifying E s r
     | RotationStaged \<Rightarrow> stepPromote E s r
     | RotationVerified \<Rightarrow> stepPromote E s r
     | RotationPromoting \<Rightarrow> stepSoak s r
     | RotationSoaking \<Rightarrow> stepSoakWait r
     | RotationRetiring \<Rightarrow> stepRetire E s r
     | _ \<Rightarrow> fail (ErrOther ''service: rotation is in unexpected state''))"

definition Step :: "('h, 'p) env \<Rightarrow> uuid \<Rightarrow> uuid \<Rightarrow> ('h, next_step) dbprog" where
  "Step E rid userID =
     andThen (systemSubject userID) (\<lambda>s.
     andThen (GetRotation (TenantID s) rid) (\<lambda>r.
     if RotationFinished (r_State r) then ret (False, 0) else
     andThen (logf ''rotation is in state'') (\<lambda>_.
     step_in_state E s r)))"

section \<open>The job handler (worker.go)\<close>

definition failRotation :: "uuid \<Rightarrow> gerror \<Rightarrow> ('h, unit) dbprog" where
  "failRotation rid cause =
     andThen (attempt (SetRotationState rid [] RotationFailed (err_text cause))) (\<lambda>res.
     case res of Inl _ \<Rightarrow> ret () | Inr _ \<Rightarrow> emit ''rotation.failed'' (Some rid))"

definition hopeless :: "gerror \<Rightarrow> bool" where
  "hopeless e \<longleftrightarrow> e = ErrDenied \<or> e = ErrNotFound \<or> e = ErrBadRotation"

text \<open>\<open>json.Unmarshal\<close> into the payload of a step: fields that are not there stay zero.\<close>

fun step_payload :: "job_payload \<Rightarrow> (uuid \<times> uuid) option" where
  "step_payload (RotationStepPayload rid userID) = Some (rid, userID)"
| "step_payload (DeployPayload tid pid userID prune verify) = Some (uuid_Nil, userID)"
| "step_payload (ReconcilePayload tid userID) = Some (uuid_Nil, userID)"
| "step_payload (ConsumerPayload cid userID) = Some (uuid_Nil, userID)"
| "step_payload (OpaquePayload _) = None"

definition handleRotationStep :: "('h, 'p) env \<Rightarrow> 'h handler" where
  "handleRotationStep E j = (case step_payload (j_Payload j) of
       None \<Rightarrow> ret (Permanent (ErrOther ''service: malformed rotation step payload''))
     | Some (rid, userID) \<Rightarrow>
         andThen (attempt (Step E rid userID)) (\<lambda>res.
         case res of
           Inl e \<Rightarrow>
             if hopeless e then andThen (failRotation rid e) (\<lambda>_. ret (Permanent e)) else fail e
         | Inr (requeue, delay) \<Rightarrow>
             if requeue
             then andThen (EnqueueNext DefaultTenantID rid userID delay) (\<lambda>_. ret Done)
             else ret Done))"

text \<open>\<open>tickSoak\<close> wakes the rotations whose window has closed.\<close>

definition tickSoak :: "('h, unit) dbprog" where
  "tickSoak =
     andThen time_Now (\<lambda>now.
     andThen (SoakExpired now) (\<lambda>expired.
     forEach expired (\<lambda>r.
       warn (EnqueueNext (r_TenantID r) (r_ID r) (case r_CreatedBy r of None \<Rightarrow> uuid_Nil | Some u \<Rightarrow> u) 0))))"

end
