(* ===== verification/DeploySafety.thy ===== *)
theory DeploySafety
  imports Deploy
begin

text \<open>
  What a deployment may do to the keys a login accepts.  The locale \<open>connected\<close> is the contract the
  deploy service and the reconciler rely on: every registered connector keeps the law of
  \<open>key_connector\<close>.  The locale \<open>fleet\<close> adds what the rotation engine relies on: the connectors hold several
  keys per login, sinks do not touch the managed accounts, and a generated key survives being written out.
\<close>

section \<open>The invariant\<close>

text \<open>What of the target and principal tables decides which account a request addresses.\<close>

definition places :: "'h world \<Rightarrow> (uuid \<times> connTarget) list \<times> principal list" where
  "places w = (map (\<lambda>t. (t_ID t, toConnectorTarget t)) (w_targets w), w_principals w)"

definition addresses ::
  "(connTarget \<Rightarrow> connPrincipal \<Rightarrow> 'l) \<Rightarrow> (uuid \<times> connTarget) list \<times> principal list \<Rightarrow> uuid \<Rightarrow> uuid \<Rightarrow> 'l \<Rightarrow> bool" where
  "addresses login pl tid pid l \<longleftrightarrow>
     (\<exists>(i, t)\<in>set (fst pl). \<exists>p\<in>set (snd pl). i = tid \<and> p_ID p = pid \<and> login t (toConnectorPrincipal p) = l)"

text \<open>
  The login \<open>l\<close> accepts the key \<open>fp\<close>; the fleet is the one described by \<open>pl\<close>; the rotation rows
  satisfy \<open>ro\<close>; every stored key, under every option list in use, is a good desired key.
\<close>

definition safe ::
  "('h \<Rightarrow> 'l \<Rightarrow> string set) \<Rightarrow> (desired_key \<Rightarrow> bool) \<Rightarrow> (string list \<Rightarrow> bool) \<Rightarrow> 'l \<Rightarrow> string \<Rightarrow>
     (uuid \<times> connTarget) list \<times> principal list \<Rightarrow> (rotation_target list \<Rightarrow> bool) \<Rightarrow> 'h world \<Rightarrow> bool" where
  "safe held good opts_ok l fp pl ro w \<longleftrightarrow>
     fp \<in> held (w_hosts w) l \<and> places w = pl \<and> ro (w_rotTargets w)
     \<and> (\<forall>k\<in>set (w_keys w). \<forall>os c. opts_ok os \<longrightarrow>
          good \<lparr>dk_PublicLine = k_PublicKey k, dk_Fingerprint = k_Fingerprint k, dk_Options = os, dk_Comment = c\<rparr>)
     \<and> (\<forall>a\<in>set (w_assignments w). opts_ok (a_Options a))"

locale connected =
  fixes E :: "('h, 'p) env"
    and login :: "connTarget \<Rightarrow> connPrincipal \<Rightarrow> 'l"
    and held :: "'h \<Rightarrow> 'l \<Rightarrow> string set"
    and good :: "desired_key \<Rightarrow> bool"
  assumes registered: "env_registry E kind = Some conn \<Longrightarrow> key_connector conn login held good"

locale fleet = connected E login held good
  for E :: "('h, 'p) env"
    and login :: "connTarget \<Rightarrow> connPrincipal \<Rightarrow> 'l"
    and held :: "'h \<Rightarrow> 'l \<Rightarrow> string set"
    and good :: "desired_key \<Rightarrow> bool" +
  fixes opts_ok :: "string list \<Rightarrow> bool"
  assumes several_keys: "env_registry E kind = Some conn \<Longrightarrow>
        \<not> SingleKey (case cn_TargetCapabilities conn of Some aware \<Rightarrow> aware t | None \<Rightarrow> cn_Capabilities conn)"
    and sinks_held: "env_sinks E kind = Some sk \<Longrightarrow> held (snd (sk_Deliver sk d h)) l = held h l"
    and generated_good: "\<lbrakk>Generate (env_ssh E) (env_crypto E) alg c rnd = Inr pair; opts_ok os\<rbrakk> \<Longrightarrow>
        good \<lparr>dk_PublicLine = kp_PublicLine pair, dk_Fingerprint = kp_Fingerprint pair, dk_Options = os, dk_Comment = c'\<rparr>"
    and no_options_ok: "opts_ok []"

section \<open>Statements that keep the invariant\<close>

lemma safe_ignores_faults: "ignores_faults (safe held good opts_ok l fp pl ro)"
  by (simp add: ignores_faults_def safe_def places_def)

named_theorems safe_intros "programs that keep the invariant"

lemmas safe_stmt = keeps_stmt [OF safe_ignores_faults]
  and safe_update = keeps_update_returning [OF safe_ignores_faults]
  and safe_exec = keeps_exec_affecting [OF safe_ignores_faults]
  and safe_select [safe_intros] = keeps_select_one [OF safe_ignores_faults]

lemma safe_stmt_get [safe_intros]: "keeps (safe held good opts_ok l fp pl ro) (stmt (get g))"
  by (intro safe_stmt keeps_get)

lemma safe_time [safe_intros]: "keeps (safe held good opts_ok l fp pl ro) time_Now"
  by (auto simp: upholds_def time_Now_def safe_def places_def split: list.splits)

lemma safe_uuid [safe_intros]: "keeps (safe held good opts_ok l fp pl ro) uuid_New"
  and safe_draw [safe_intros]: "keeps (safe held good opts_ok l fp pl ro) draw"
  by (auto simp: upholds_def uuid_New_def draw_def safe_def places_def)

lemma safe_side_channels [safe_intros]:
  "keeps (safe held good opts_ok l fp pl ro) (record_audit ev)"
  "keeps (safe held good opts_ok l fp pl ro) (audit_Log ev)"
  "keeps (safe held good opts_ok l fp pl ro) (emit ty rid)"
  "keeps (safe held good opts_ok l fp pl ro) (logf msg)"
  unfolding record_audit_def audit_Log_def emit_def logf_def
  by (intro keeps_ignoring safe_stmt keeps_modify; simp add: safe_def places_def)+

lemma safe_warn [safe_intros]:
  "keeps (safe held good opts_ok l fp pl ro) m \<Longrightarrow> keeps (safe held good opts_ok l fp pl ro) (warn m)"
  unfolding warn_def by (rule keeps_ignoring)

lemma toConnectorTarget_drift [simp]: "toConnectorTarget (t\<lparr>t_DriftState := d\<rparr>) = toConnectorTarget t"
  by (simp add: toConnectorTarget_def)

lemma safe_statements [safe_intros]:
  "keeps (safe held good opts_ok l fp pl ro) (RecordDeployment aid st msg)"
  "keeps (safe held good opts_ok l fp pl ro) (RecordAuthVerified aid)"
  "keeps (safe held good opts_ok l fp pl ro) (SetDrift tenant tid d)"
  "keeps (safe held good opts_ok l fp pl ro) (Keys_SetStatus tenant kid ks)"
  "keeps (safe held good opts_ok l fp pl ro) (AppendInverse cid x)"
  "keeps (safe held good opts_ok l fp pl ro) (Changesets_SetState cid cst)"
  "keeps (safe held good opts_ok l fp pl ro) (Assignments_Delete tenant aid)"
  unfolding RecordDeployment_def RecordAuthVerified_def SetDrift_def update_target_def Keys_SetStatus_def
    AppendInverse_def Changesets_SetState_def Assignments_Delete_def Let_def
  by (intro safe_stmt keeps_modify safe_update safe_exec;
      force simp: safe_def places_def upd_where_def comp_def cong: if_cong)+

lemma safe_creates [safe_intros]:
  "keeps (safe held good opts_ok l fp pl ro) (Snapshots_Create tenant tid pid cs kind content chk n ex)"
  "keeps (safe held good opts_ok l fp pl ro) (Changesets_Create tenant)"
  unfolding Snapshots_Create_def Changesets_Create_def
  by (intro keeps_intros safe_intros safe_stmt; simp add: upholds_def safe_def places_def)+

lemma safe_Upsert:
  "opts_ok os \<Longrightarrow> keeps (safe held good opts_ok l fp pl ro) (Assignments_Upsert tenant kid tid pid os st)"
  unfolding Assignments_Upsert_def
  by (intro keeps_intros safe_intros safe_stmt) (auto simp: upholds_def safe_def places_def upd_where_def Let_def)

section \<open>Deployments keep the invariant\<close>

text \<open>What \<open>resolve\<close> returns: a registered connector and a pair of rows of the fleet.\<close>

definition resolved_in ::
  "('h, 'p) env \<Rightarrow> (uuid \<times> connTarget) list \<times> principal list \<Rightarrow> uuid \<Rightarrow> uuid \<Rightarrow> ('h, 'p) resolved \<Rightarrow> bool" where
  "resolved_in E pl tid pid x \<longleftrightarrow> (case x of (t, p, cred, conn) \<Rightarrow>
     (\<exists>kind. env_registry E kind = Some conn) \<and> (tid, t) \<in> set (fst pl)
     \<and> (\<exists>p0\<in>set (snd pl). p_ID p0 = pid \<and> p = toConnectorPrincipal p0))"

lemma wlp_Registry_Get: "(\<And>c. reg kind = Some c \<Longrightarrow> Q c w) \<Longrightarrow> wlp (lift (Registry_Get reg kind)) Q w"
  by (intro wlp_lift) (auto simp: Registry_Get_def split: option.splits)

lemma resolve_result:
  assumes "places w = pl"
  shows "wlp (resolve E s tid pid) (\<lambda>x _. resolved_in E pl tid pid x) w"
  unfolding resolve_def Targets_Get_def GetPrincipal_def
proof (intro wlp_Registry_Get wlp_intros)
  fix fs t fs' p conn
  assume t: "t \<in> set (w_targets (w\<lparr>w_faults := fs\<rparr>))" "t_TenantID t = TenantID s \<and> t_ID t = tid"
    and p: "p \<in> set (w_principals (w\<lparr>w_faults := fs, w_faults := fs'\<rparr>))" "p_ID p = pid"
    and c: "env_registry E (t_Connector t) = Some conn"
  have "resolved_in E pl tid pid (toConnectorTarget t, toConnectorPrincipal p, cred, conn)" for cred
    using t p c assms by (force simp: resolved_in_def places_def)
  then show "wlp (load_credential E (TenantID s) t)
      (\<lambda>x. wlp (ret (toConnectorTarget t, toConnectorPrincipal p, x, conn)) (\<lambda>x _. resolved_in E pl tid pid x))
      (w\<lparr>w_faults := fs, w_faults := fs'\<rparr>)"
    by (auto simp: wlp_def ret_def split: prod.split sum.split)
qed

lemma safe_PrivateKeyFor [safe_intros]: "keeps (safe held good opts_ok l fp pl ro) (PrivateKeyFor E tenant kid)"
  unfolding PrivateKeyFor_def LoadMaterial_def by (intro keeps_intros safe_intros)

lemma safe_load_credential [safe_intros]: "keeps (safe held good opts_ok l fp pl ro) (load_credential E tenant t)"
  unfolding load_credential_def Credentials_Get_def LoadSecret_def Let_def
  by (intro keeps_intros safe_intros)

lemma safe_resolve [safe_intros]: "keeps (safe held good opts_ok l fp pl ro) (resolve E s tid pid)"
  unfolding resolve_def Targets_Get_def GetPrincipal_def
  by (intro keeps_intros safe_intros)

lemma safe_desiredKeys [safe_intros]: "keeps (safe held good opts_ok l fp pl ro) (desiredKeys tenant pid)"
  unfolding desiredKeys_def ForPrincipal_def Keys_Get_def
  by (intro keeps_intros safe_intros)

lemma safe_managed [safe_intros]: "keeps (safe held good opts_ok l fp pl ro) (managedFingerprints tenant)"
proof -
  have "keeps (safe held good opts_ok l fp pl ro) (managed_pages fuel tenant n out)" for fuel n out
  proof (induction fuel arbitrary: n out)
    case (Suc fuel)
    then show ?case
      unfolding managed_pages.simps Keys_List_def Let_def by (intro keeps_intros safe_intros)
  qed (simp add: keeps_intros)
  then show ?thesis unfolding managedFingerprints_def by (intro keeps_intros)
qed

lemma desired_of_good:
  assumes "safe held good opts_ok l fp pl ro w" "k \<in> set (w_keys w)" "a \<in> set (w_assignments w)"
  shows "good (desired_of k a)"
  using assms by (auto simp: safe_def desired_of_def)

lemma desiredKeys_good:
  assumes safe: "safe held good opts_ok l fp pl ro w"
  shows "wlp (desiredKeys tenant pid) (\<lambda>x _. \<forall>d\<in>set (fst x). good d) w"
  unfolding desiredKeys_def ForPrincipal_def
proof (intro wlp_andThen wlp_stmt wlp_get)
  fix fs
  let ?I = "\<lambda>w'. w_keys w' = w_keys w" and ?R = "\<lambda>(ds, _). \<forall>d\<in>set ds. good d"
  let ?rows = "sort_key a_CreatedAt (filter (\<lambda>a. a_TenantID a = tenant \<and> a_PrincipalID a = pid) (w_assignments (w\<lparr>w_faults := fs\<rparr>)))"
  let ?f = "\<lambda>a (desired, active). if a_DesiredState a \<noteq> StatePresent then ret (desired, active)
       else andThen (Keys_Get tenant (a_KeyID a)) (\<lambda>k. if never_deployed (k_Status k) then ret (desired, active)
          else ret (desired @ [desired_of k a], active @ [a]))"
  have "wlp (foldEach ?rows ([], []) ?f) (\<lambda>c' w'. ?R c' \<and> ?I w') (w\<lparr>w_faults := fs\<rparr>)"
  proof (rule wlp_foldEach)
    fix a and c :: "desired_key list \<times> assignment list" and w' :: "'a world"
    assume R: "?R c" and I: "?I w'" and a: "a \<in> set ?rows"
    have g: "good (desired_of k a)" if "k \<in> set (w_keys w)" for k
      using desired_of_good [OF safe that] a by simp
    obtain ds rows where c: "c = (ds, rows)" by (cases c)
    show "wlp (?f a c) (\<lambda>c' w'. ?R c' \<and> ?I w') w'"
      unfolding c prod.case Keys_Get_def
      by (intro wlp_intros) (use R I g in \<open>auto simp: c\<close>)
  qed simp_all
  then show "wlp (foldEach ?rows ([], []) ?f) (\<lambda>x _. \<forall>d\<in>set (fst x). good d) (w\<lparr>w_faults := fs\<rparr>)"
    by (rule wlp_weaken) auto
qed

text \<open>Continuing after the two queries whose results the next steps depend on.\<close>

lemma safe_after_desiredKeys:
  "(\<And>x. \<forall>d\<in>set (fst x). good d \<Longrightarrow> keeps (safe held good opts_ok l fp pl ro) (f x)) \<Longrightarrow>
     keeps (safe held good opts_ok l fp pl ro) (andThen (desiredKeys tenant pid) f)"
  by (rule keeps_andThen_result [where R = "\<lambda>x. \<forall>d\<in>set (fst x). good d", OF safe_desiredKeys desiredKeys_good])

lemma safe_after_resolve:
  assumes "\<And>x. resolved_in E pl tid pid x \<Longrightarrow> keeps (safe held good opts_ok l fp pl ro) (f x)"
  shows "keeps (safe held good opts_ok l fp pl ro) (andThen (resolve E s tid pid) f)"
  by (rule keeps_andThen_result [where R = "resolved_in E pl tid pid", OF safe_resolve _ assms])
    (rule resolve_result, simp add: safe_def)

lemma safe_hosts:
  assumes "\<And>h. fp \<in> held h l \<Longrightarrow> fp \<in> held (snd (f h)) l"
  shows "keeps (safe held good opts_ok l fp pl ro) (call f)"
  unfolding call_def
  by (intro keeps_remote safe_ignores_faults)
    (use assms in \<open>auto simp: upholds_def safe_def places_def split_beta\<close>)

context connected begin

lemma safe_take_snapshot:
  assumes "env_registry E kind = Some conn"
  shows "keeps (safe held good opts_ok l fp pl ro) (take_snapshot s tid pid rq conn opts)"
  unfolding take_snapshot_def call_result_def
  by (intro keeps_intros safe_intros safe_hosts)
    (simp add: key_connector.snapshot_held [OF registered [OF assms]])

lemma safe_verifyAssignments:
  assumes "env_registry E kind = Some conn"
  shows "keeps (safe held good opts_ok l fp pl ro) (verifyAssignments E s rq conn rows result)"
  unfolding verifyAssignments_def verify_one_assignment_def Keys_Get_def Let_def
  by (intro keeps_intros safe_intros safe_hosts)
    (simp_all add: key_connector.verify_held [OF registered [OF assms]])

lemma safe_deploy_succeeded:
  assumes "env_registry E kind = Some conn"
  shows "keeps (safe held good opts_ok l fp pl ro) (deploy_succeeded E s tid rq conn opts rows result)"
  unfolding deploy_succeeded_def auditDeploy_def
  by (intro keeps_intros safe_intros safe_verifyAssignments [OF assms])

lemma safe_converge:
  assumes conn: "env_registry E kind = Some conn" and good: "\<forall>d\<in>set desired. good d"
    and elsewhere: "do_Prune opts \<Longrightarrow> login (rq_Target rq) (rq_Principal rq) \<noteq> l"
  shows "keeps (safe held good opts_ok l fp pl ro) (converge E s tid pid rq conn opts desired rows sid managed)"
  unfolding converge_def auditDeploy_def recordFailure_def Let_def
  by (intro keeps_intros safe_intros safe_hosts safe_deploy_succeeded [OF conn]
        key_connector.apply_keeps_key [OF registered [OF conn] _ good])
    (use elsewhere in \<open>auto simp: DefaultApplyOptions_def\<close>)

text \<open>Without pruning a deployment removes no key anywhere; with pruning it can only remove keys from
  the login it addresses.\<close>

lemma safe_deploy_to:
  assumes r: "resolved_in E pl tid pid x" and elsewhere: "do_Prune opts \<Longrightarrow> \<not> addresses login pl tid pid l"
  shows "keeps (safe held good opts_ok l fp pl ro) (deploy_to E s tid pid opts x)"
proof -
  obtain t p cred conn where x: "x = (t, p, cred, conn)" by (cases x)
  with r obtain kind where conn: "env_registry E kind = Some conn" by (auto simp: resolved_in_def)
  have l: "do_Prune opts \<Longrightarrow> login t p \<noteq> l"
    using elsewhere r by (fastforce simp: resolved_in_def addresses_def x)
  show ?thesis
    unfolding deploy_to_def x prod.case Let_def
    by (intro keeps_if keeps_fail safe_after_desiredKeys)
      (auto intro!: keeps_andThen safe_intros safe_take_snapshot [OF conn] safe_converge [OF conn] dest: l)
qed

lemma Deploy_safe:
  assumes "do_Prune opts \<Longrightarrow> \<not> addresses login pl tid pid l"
  shows "keeps (safe held good opts_ok l fp pl ro) (Deploy E s tid pid opts)"
  unfolding Deploy_def
  by (intro keeps_andThen [OF keeps_lift] safe_after_resolve safe_deploy_to assms)

end

end
