(* ===== verification/RotationSafety.thy ===== *)
theory RotationSafety
  imports Rotation DeploySafety
begin

text \<open>
  The safety argument of add-before-remove, under any fault schedule: the rotation engine removes
  a key from a login only through the retirement of a row that was verified there.
\<close>

section \<open>The invariant of the engine\<close>

text \<open>No row of any rotation that addresses \<open>l\<close> is in the verified state.\<close>

definition unverified ::
  "(connTarget \<Rightarrow> connPrincipal \<Rightarrow> 'l) \<Rightarrow> (uuid \<times> connTarget) list \<times> principal list \<Rightarrow> 'l \<Rightarrow> rotation_target list \<Rightarrow> bool" where
  "unverified login pl l rows \<longleftrightarrow> (\<forall>rt\<in>set rows. rt_State rt = RTVerified \<longrightarrow>
     \<not> addresses login pl (rt_TargetID rt) (rt_PrincipalID rt) l)"

text \<open>Statements on tables the invariant does not look at, and on its own.\<close>

lemma safe_rotation_statements [safe_intros]:
  "keeps (safe held good opts_ok l fp pl ro) (SetRotationState rid frm st msg)"
  "keeps (safe held good opts_ok l fp pl ro) (SetRotationKeys rid nk cs n)"
  "keeps (safe held good opts_ok l fp pl ro) (SetSoakUntil rid u)"
  "keeps (safe held good opts_ok l fp pl ro) (SetWave rid wv)"
  "keeps (safe held good opts_ok l fp pl ro) (ApproveRotation tenant rid uid)"
  "keeps (safe held good opts_ok l fp pl ro) (RecordDelivery cid cause)"
  "keeps (safe held good opts_ok l fp pl ro) (Consumers_Rebind tenant cid kid)"
  "keeps (safe held good opts_ok l fp pl ro) (remember rid p)"
  unfolding SetRotationState_def SetRotationKeys_def SetSoakUntil_def SetWave_def update_rotation_def ApproveRotation_def
    RecordDelivery_def Consumers_Rebind_def remember_def Let_def
  by (intro safe_stmt keeps_modify safe_update safe_exec; simp add: safe_def places_def)+

lemma safe_rotation_queries [safe_intros]:
  "keeps (safe held good opts_ok l fp pl ro) (GetRotation tenant rid)"
  "keeps (safe held good opts_ok l fp pl ro) (ListRotationTargets rid)"
  "keeps (safe held good opts_ok l fp pl ro) (WaveTargets rid wv sts)"
  "keeps (safe held good opts_ok l fp pl ro) (MaxWave rid)"
  "keeps (safe held good opts_ok l fp pl ro) (GetPolicy tenant polid)"
  "keeps (safe held good opts_ok l fp pl ro) (Keys_Get tenant kid)"
  "keeps (safe held good opts_ok l fp pl ro) (Targets_Get tenant tid)"
  "keeps (safe held good opts_ok l fp pl ro) (Consumers_List tenant okid)"
  "keeps (safe held good opts_ok l fp pl ro) (Consumers_Get tenant cid)"
  "keeps (safe held good opts_ok l fp pl ro) (Credentials_Get tenant crid)"
  "keeps (safe held good opts_ok l fp pl ro) (LoadSecret tenant crid)"
  "keeps (safe held good opts_ok l fp pl ro) (Assignments_List f)"
  "keeps (safe held good opts_ok l fp pl ro) (SoakExpired now)"
  "keeps (safe held good opts_ok l fp pl ro) (recall rid)"
  unfolding GetRotation_def ListRotationTargets_def WaveTargets_def MaxWave_def GetPolicy_def Keys_Get_def
    Targets_Get_def Consumers_List_def Consumers_Get_def Credentials_Get_def LoadSecret_def Assignments_List_def
    SoakExpired_def recall_def
  by (intro keeps_intros safe_intros)+

lemma safe_LoadSubject [safe_intros]: "keeps (safe held good opts_ok l fp pl ro) (LoadSubject tenant uid)"
  unfolding LoadSubject_def by (intro keeps_intros safe_intros)

lemma safe_Enqueue [safe_intros]: "keeps (safe held good opts_ok l fp pl ro) (Enqueue j)"
  unfolding Enqueue_def insert_job_def byIdempotencyKey_def
  by (intro keeps_intros safe_intros safe_stmt)
    (auto simp: upholds_def safe_def places_def Let_def split: list.split)

lemma safe_CreateRotation [safe_intros]: "keeps (safe held good opts_ok l fp pl ro) (CreateRotation r)"
  unfolding CreateRotation_def
  by (intro keeps_intros safe_intros safe_stmt) (simp add: upholds_def safe_def places_def Let_def)

lemma safe_set_rt:
  assumes "st = RTVerified \<Longrightarrow> \<not> addresses login pl tid pid l"
  shows "keeps (safe held good opts_ok l fp pl (unverified login pl l)) (SetRotationTargetState rid tid pid st msg)"
  unfolding SetRotationTargetState_def Let_def
  by (intro safe_stmt keeps_modify)
    (use assms in \<open>auto simp: safe_def places_def unverified_def upd_where_def same_rt_def set_rt_row_def Let_def
       split: rt_state.splits\<close>)

lemma safe_set_rt_any:
  "keeps (safe held good opts_ok l fp pl (\<lambda>_. True)) (SetRotationTargetState rid tid pid st msg)"
  unfolding SetRotationTargetState_def Let_def
  by (intro safe_stmt keeps_modify) (simp add: safe_def places_def)

lemma safe_AddRotationTarget:
  assumes "rt_State rt = RTVerified \<Longrightarrow> \<not> addresses login pl (rt_TargetID rt) (rt_PrincipalID rt) l"
  shows "keeps (safe held good opts_ok l fp pl (unverified login pl l)) (AddRotationTarget rt)"
  unfolding AddRotationTarget_def Let_def
  by (intro safe_stmt keeps_modify)
    (use assms in \<open>auto simp: safe_def places_def unverified_def upd_where_def\<close>)

text \<open>Rows that a listing returns are rows of the table.\<close>

lemma wlp_ListRotationTargets:
  assumes "safe held good opts_ok l fp pl (unverified login pl l) w"
  shows "wlp (ListRotationTargets rid) (\<lambda>rows _. unverified login pl l rows) w"
  unfolding ListRotationTargets_def
  by (intro wlp_intros) (use assms in \<open>auto simp: safe_def unverified_def\<close>)

lemma safe_after_ListRotationTargets:
  assumes "\<And>rows. unverified login pl l rows \<Longrightarrow> keeps (safe held good opts_ok l fp pl (unverified login pl l)) (f rows)"
  shows "keeps (safe held good opts_ok l fp pl (unverified login pl l)) (andThen (ListRotationTargets rid) f)"
  by (rule keeps_andThen_result [where R = "unverified login pl l", OF _ wlp_ListRotationTargets assms])
    (intro safe_intros)

lemma safe_params [safe_intros]:
  "keeps (safe held good opts_ok l fp pl ro) (policyThreshold tenant r)"
  "keeps (safe held good opts_ok l fp pl ro) (soakPeriod tenant r)"
  "keeps (safe held good opts_ok l fp pl ro) (optionsFor tenant okid pid)"
  "keeps (safe held good opts_ok l fp pl ro) (systemSubject uid)"
  unfolding policyThreshold_def soakPeriod_def optionsFor_def systemSubject_def
  by (intro keeps_intros safe_intros)+

lemma safe_TargetCapabilities [safe_intros]: "keeps (safe held good opts_ok l fp pl ro) (TargetCapabilities E tenant tid)"
  unfolding TargetCapabilities_def by (intro keeps_intros safe_intros)

lemma safe_abortOnThreshold [safe_intros]: "keeps (safe held good opts_ok l fp pl ro) (abortOnThreshold s r phase)"
  unfolding abortOnThreshold_def Let_def by (intro keeps_intros safe_intros)

lemma safe_stepSoak [safe_intros]: "keeps (safe held good opts_ok l fp pl ro) (stepSoak s r)"
  and safe_stepSoakWait [safe_intros]: "keeps (safe held good opts_ok l fp pl ro) (stepSoakWait r)"
  unfolding stepSoak_def stepSoakWait_def by (intro keeps_intros safe_intros)+

lemma safe_guard [safe_intros]: "keeps (safe held good opts_ok l fp pl ro) (guard_audited s act res)"
  unfolding guard_audited_def audit_denied_def by (intro keeps_intros safe_intros)

text \<open>Options copied from an existing assignment are options in use.\<close>

lemma optionsFor_ok:
  assumes "safe held good opts_ok l fp pl ro w" and "opts_ok []"
  shows "wlp (optionsFor tenant okid pid) (\<lambda>os _. opts_ok os) w"
proof -
  let ?f = "\<lparr>af_TenantID = tenant, af_KeyID = Some okid, af_TargetID = None, af_PrincipalID = Some pid,
      af_DesiredState = None, af_Limit = 1\<rparr>"
  have sub: "set (assignments_matching f w) \<subseteq> set (w_assignments w)" for f
    unfolding assignments_matching_def by (rule order_trans [OF set_take_subset]) auto
  have ok: "opts_ok (a_Options a)" if "assignments_matching ?f w = a # as" for a as
    using sub [of ?f] assms that by (auto simp: safe_def)
  show ?thesis
    unfolding optionsFor_def Assignments_List_def
    by (intro wlp_intros) (use assms(2) ok in \<open>auto split: list.splits intro!: wlp_intros\<close>)
qed

lemma safe_after_optionsFor:
  assumes "opts_ok []" "\<And>os. opts_ok os \<Longrightarrow> keeps (safe held good opts_ok l fp pl ro) (f os)"
  shows "keeps (safe held good opts_ok l fp pl ro) (andThen (optionsFor tenant okid pid) f)"
  by (rule keeps_andThen_result [where R = opts_ok, OF safe_params(3) optionsFor_ok assms(2)])
    (simp_all add: assms(1))

text \<open>A new row whose public half is good under every option list in use.\<close>

lemma safe_Keys_Create:
  assumes "\<And>os c. opts_ok os \<Longrightarrow>
    good \<lparr>dk_PublicLine = k_PublicKey k, dk_Fingerprint = k_Fingerprint k, dk_Options = os, dk_Comment = c\<rparr>"
  shows "keeps (safe held good opts_ok l fp pl ro) (Keys_Create k m)"
  unfolding Keys_Create_def
  by (intro keeps_intros safe_intros safe_stmt)
    (use assms in \<open>auto simp: upholds_def safe_def places_def Let_def\<close>)

context fleet begin

lemma safe_Generate:
  "keeps (safe held good opts_ok l fp pl ro) (KeyService_Generate E s req)"
proof -
  have *: "keeps (safe held good opts_ok l fp pl ro) (store_pair E pair (\<lambda>kid.
       let k = (new_key kid s (gr_Name req) pair c)
             \<lparr>k_Algorithm := a, k_KeyClass := kc, k_Generation := g, k_ParentKeyID := pk, k_Tags := tags\<rparr> in
       if b then andThen time_Now (\<lambda>now. ret (k\<lparr>k_ExpiresAt := Some (now + v)\<rparr>)) else ret k))"
    if "Generate (env_ssh E) (env_crypto E) alg c rnd = Inr pair" for pair c a kc g pk tags b v alg rnd
  proof -
    have good: "good \<lparr>dk_PublicLine = kp_PublicLine pair, dk_Fingerprint = kp_Fingerprint pair, dk_Options = os, dk_Comment = c'\<rparr>"
      if "opts_ok os" for os c'
      by (rule generated_good [OF \<open>Generate _ _ alg c rnd = Inr pair\<close> that])
    show ?thesis
      unfolding store_pair_def Let_def
      by (rule keeps_andThen [OF safe_uuid], rule keeps_andThen [OF safe_draw], rule keeps_andThen [OF keeps_lift],
          rule keeps_andThen_result [where R = "\<lambda>k. k_PublicKey k = kp_PublicLine pair \<and> k_Fingerprint k = kp_Fingerprint pair"])
        (auto intro!: keeps_intros safe_intros wlp_intros safe_Keys_Create simp: new_key_def good)
  qed
  have **: "keeps (safe held good opts_ok l fp pl ro) (andThen (lift r) f)"
    if "\<And>x. r = Inr x \<Longrightarrow> keeps (safe held good opts_ok l fp pl ro) (f x)" for r :: "'x result" and f :: "'x \<Rightarrow> ('h, key) dbprog"
    using that by (cases r) (auto simp: upholds_def andThen_def lift_def)
  show ?thesis
    unfolding KeyService_Generate_def Let_def [of "if gr_Comment req = [] then _ else _"]
    by (rule keeps_andThen [OF safe_guard], intro keeps_if keeps_fail, rule **, rule keeps_andThen [OF safe_draw], rule **)
      (intro keeps_andThen safe_intros keeps_ret; erule *)
qed

lemma multi_key_target: "wlp (TargetCapabilities E tenant tid) (\<lambda>caps _. \<not> SingleKey caps) w"
  unfolding TargetCapabilities_def Targets_Get_def
  by (intro wlp_andThen wlp_select_one wlp_Registry_Get wlp_ret) (rule several_keys)

lemma safe_stageOne: "keeps (safe held good opts_ok l fp pl ro) (stageOne E s r rt)"
  unfolding stageOne_def
proof (rule keeps_andThen_result [OF safe_TargetCapabilities multi_key_target])
  fix caps :: capabilities
  assume caps: "\<not> SingleKey caps"
  show "keeps (safe held good opts_ok l fp pl ro) (if SingleKey caps then replaceOne E s r rt caps else
     andThen (deref (r_OldKeyID r)) (\<lambda>oldID.
     andThen (optionsFor (TenantID s) oldID (rt_PrincipalID rt)) (\<lambda>options.
     andThen (deref (r_NewKeyID r)) (\<lambda>newID.
     andThen (Assignments_Upsert (TenantID s) newID (rt_TargetID rt) (rt_PrincipalID rt) options StatePresent) (\<lambda>_.
     andThen (Deploy E s (rt_TargetID rt) (rt_PrincipalID rt) (deploy_opts False False (r_ChangesetID r))) (\<lambda>result.
     if dr_Warnings result \<noteq> [] then logf ''reported'' else ret ()))))))"
    unfolding if_not_P [OF caps]
    by (intro keeps_andThen keeps_deref safe_after_optionsFor no_options_ok safe_Upsert keeps_if safe_intros keeps_ret Deploy_safe)
      (simp_all add: deploy_opts_def)
qed

lemma safe_stepStaging:
  "keeps (safe held good opts_ok l fp pl (unverified login pl l)) (stepStaging E s r)"
  unfolding stepStaging_def stage_row_def set_rt_def WaveTargets_def
  by (intro keeps_intros safe_intros safe_stageOne safe_set_rt) simp_all

lemma safe_stepPlanned: "keeps (safe held good opts_ok l fp pl ro) (stepPlanned E s r)"
  unfolding stepPlanned_def
  by (intro keeps_intros safe_intros safe_Generate)

lemma safe_deliver: "keeps (safe held good opts_ok l fp pl ro) (deliver E s c kid)"
proof -
  have sink: "keeps (safe held good opts_ok l fp pl ro) (andThen (lift (sink_Get E kind)) f)"
    if "\<And>sk. env_sinks E kind = Some sk \<Longrightarrow> keeps (safe held good opts_ok l fp pl ro) (f sk)"
    for kind and f :: "'h sink \<Rightarrow> ('h, unit) dbprog"
    using that by (cases "env_sinks E kind") (auto simp: sink_Get_def upholds_def andThen_def lift_def)
  have remote: "keeps (safe held good opts_ok l fp pl ro) (remoteFor E tenant c)" for tenant
    unfolding remoteFor_def Let_def by (intro keeps_intros safe_intros)
  show ?thesis
    unfolding deliver_def
  proof (rule sink)
    fix sk
    assume sk: "env_sinks E (con_Kind c) = Some sk"
    show "keeps (safe held good opts_ok l fp pl ro) (andThen (Keys_Get (TenantID s) kid) (\<lambda>k.
     if sk_Pull sk then record_audit (audit_by s ''consumer.bind'' (Some (con_ID c)) ''success'' ''pull'') else
     andThen (PrivateKeyFor E (TenantID s) kid) (\<lambda>pem.
     andThen (remoteFor E (TenantID s) c) (\<lambda>rh.
     andThen (call (sk_Deliver sk \<lparr>dl_ConsumerName = con_Name c, dl_KeyName = k_Name k, dl_Fingerprint = k_Fingerprint k,
        dl_PublicKey = k_PublicKey k, dl_PrivatePEM = pem, dl_Config = con_Config c, dl_Remote = rh\<rparr>)) (\<lambda>r.
     andThen (record_audit (audit_by s ''consumer.send'' (Some (con_ID c))
                (case r of Inl _ \<Rightarrow> ''failure'' | Inr _ \<Rightarrow> ''success'') [])) (\<lambda>_.
     lift r))))))"
      by (intro keeps_intros safe_intros remote safe_hosts) (simp add: sinks_held [OF sk])
  qed
qed

lemma safe_stepPromote: "keeps (safe held good opts_ok l fp pl ro) (stepPromote E s r)"
  unfolding stepPromote_def deliver_to_def Rebind_def
  by (intro keeps_intros safe_intros safe_deliver)

text \<open>A row is retired only when it was verified, so none that addresses \<open>l\<close> is.\<close>

lemma safe_retire_row:
  assumes "unverified login pl l rows" and "rt \<in> set rows"
  shows "keeps (safe held good opts_ok l fp pl (unverified login pl l)) (retire_row E s r rt n)"
proof (cases "rt_State rt = RTVerified")
  case True
  with assms have el: "\<not> addresses login pl (rt_TargetID rt) (rt_PrincipalID rt) l"
    by (auto simp: unverified_def)
  show ?thesis
    unfolding retire_row_def retireOne_def set_rt_def
    by (intro keeps_intros safe_intros safe_set_rt Deploy_safe) (simp_all add: el)
next
  case False
  then show ?thesis
    unfolding retire_row_def by (simp add: keeps_intros safe_intros)
qed

lemma safe_stepRetire:
  "keeps (safe held good opts_ok l fp pl (unverified login pl l)) (stepRetire E s r)"
  unfolding stepRetire_def Let_def
proof (rule safe_after_ListRotationTargets)
  fix rows
  assume rows: "unverified login pl l rows"
  have fold: "keeps (safe held good opts_ok l fp pl (unverified login pl l))
      (foldEach rows n (\<lambda>rt failed. retire_row E s r rt failed))" for n
    by (rule keeps_foldEach_mem) (rule safe_retire_row [OF rows])
  show "keeps (safe held good opts_ok l fp pl (unverified login pl l))
     (andThen (foldEach rows 0 (\<lambda>rt failed. retire_row E s r rt failed)) (\<lambda>failed.
     andThen (if failed > 0 then logf (if failed > 0 then show_nat failed @ '' target(s) still hold the old key'' else [])
              else andThen (deref (r_OldKeyID r)) (\<lambda>oldID.
                   andThen (Keys_SetStatus (TenantID s) oldID KeyRetired) (\<lambda>_.
                   logf ''the old key is retired''))) (\<lambda>_.
     andThen (SetRotationState (r_ID r) [RotationRetiring] RotationCompleted
        (if failed > 0 then show_nat failed @ '' target(s) still hold the old key'' else [])) (\<lambda>_.
     andThen (case r_ChangesetID r of None \<Rightarrow> ret () | Some cs \<Rightarrow> warn (Changesets_SetState cs ChangesetCommitted)) (\<lambda>_.
     andThen (record_audit (audit_by s ''key.rotate'' (Some (r_ID r)) ''success'' ''completed'')) (\<lambda>_.
     andThen (emit ''rotation.done'' (Some (r_ID r))) (\<lambda>_.
     ret (False, 0))))))))"
    by (intro keeps_andThen keeps_if keeps_case_option keeps_ret keeps_deref safe_intros fold)
qed

text \<open>Verification may turn a row that addresses \<open>l\<close> into a verified one, but it touches no host.\<close>

lemma safe_verifyOne: "keeps (safe held good opts_ok l fp pl ro) (verifyOne E s rt pk)"
  unfolding verifyOne_def call_result_def
proof (rule safe_after_resolve)
  fix x
  assume r: "resolved_in E pl (rt_TargetID rt) (rt_PrincipalID rt) x"
  obtain t p cred conn where x: "x = (t, p, cred, conn)" by (cases x)
  with r obtain kind where conn: "env_registry E kind = Some conn" by (auto simp: resolved_in_def)
  show "keeps (safe held good opts_ok l fp pl ro) (case x of (t, p, cred, conn) \<Rightarrow>
     let rq = \<lparr>rq_Target = t, rq_Principal = p, rq_Credential = cred\<rparr> in
     if \<not> CanVerify (cn_Capabilities conn) then
       (if \<not> CanList (cn_Capabilities conn) then ret () else
        andThen (andThen (call (cn_List conn rq)) lift) (\<lambda>entries.
        if list_ex (\<lambda>e. e_Fingerprint e \<noteq> []) entries then ret ()
        else fail (ErrOther ''service: the new key is not present'')))
     else andThen (call (cn_Verify conn rq pk)) lift)"
    unfolding x prod.case Let_def
    by (intro keeps_intros safe_hosts)
      (simp_all add: key_connector.list_held [OF registered [OF conn]] key_connector.verify_held [OF registered [OF conn]])
qed

lemma safe_stepVerifying: "keeps (safe held good opts_ok l fp pl (\<lambda>_. True)) (stepVerifying E s r)"
  unfolding stepVerifying_def verify_row_def set_rt_def WaveTargets_def MaxWave_def
  by (intro keeps_intros safe_intros safe_verifyOne safe_set_rt_any)

lemma safe_forget: "safe held good opts_ok l fp pl ro w \<Longrightarrow> safe held good opts_ok l fp pl (\<lambda>_. True) w"
  by (simp add: safe_def)

lemma safe_held: "safe held good opts_ok l fp pl ro w \<Longrightarrow> fp \<in> held (w_hosts w) l"
  by (simp add: safe_def)

text \<open>The step of any state but verifying keeps the invariant; the verifying one keeps the key.\<close>

lemma safe_step_in_state:
  assumes "r_State r \<noteq> RotationVerifying"
  shows "keeps (safe held good opts_ok l fp pl (unverified login pl l)) (step_in_state E s r)"
  using assms unfolding step_in_state_def
  by (cases "r_State r")
    (simp_all add: keeps_ret keeps_fail safe_stepPlanned safe_stepStaging safe_stepPromote safe_stepSoak
      safe_stepSoakWait safe_stepRetire)

lemma held_step_in_state:
  "upholds (safe held good opts_ok l fp pl (unverified login pl l)) (step_in_state E s r)
     (\<lambda>_. safe held good opts_ok l fp pl (\<lambda>_. True))"
proof (cases "r_State r = RotationVerifying")
  case True
  then show ?thesis
    using safe_stepVerifying [of l fp pl s r] unfolding step_in_state_def upholds_def
    by (simp add: safe_forget)
next
  case False
  from safe_step_in_state [OF this, of l fp pl s] show ?thesis
    by (auto simp: upholds_def intro: safe_forget)
qed

lemma held_Step:
  "upholds (safe held good opts_ok l fp pl (unverified login pl l)) (Step E rid uid)
     (\<lambda>_. safe held good opts_ok l fp pl (\<lambda>_. True))"
proof -
  let ?U = "safe held good opts_ok l fp pl (unverified login pl l)" and ?T = "safe held good opts_ok l fp pl (\<lambda>_. True)"
  have first: "upholds ?U (andThen m f) (\<lambda>_. ?T)" if "keeps ?U m" "\<And>x. upholds ?U (f x) (\<lambda>_. ?T)"
    for m :: "('h, 'x) dbprog" and f :: "'x \<Rightarrow> ('h, next_step) dbprog"
    by (rule upholds_andThen [OF that]) (rule safe_forget)
  have stop: "upholds ?U (ret x) (\<lambda>_. ?T)" for x :: next_step by (simp add: upholds_def ret_def safe_forget)
  have "upholds ?U (if RotationFinished (r_State r) then ret (False, 0)
      else andThen (logf ''rotation is in state'') (\<lambda>_. step_in_state E s r)) (\<lambda>_. ?T)" for s r
    by (simp add: stop first [OF safe_side_channels(4) held_step_in_state])
  then show ?thesis
    unfolding Step_def GetRotation_def
    by (intro first [OF safe_params(4)] first [OF safe_select])
qed

end

section \<open>When the login refuses every new key\<close>

text \<open>Identifiers are primary keys.\<close>

definition keyed :: "(uuid \<times> connTarget) list \<times> principal list \<Rightarrow> bool" where
  "keyed pl \<longleftrightarrow> distinct (map fst (fst pl)) \<and> distinct (map p_ID (snd pl))"

text \<open>Authentication at \<open>l\<close> is tried for real and fails, whatever key is offered.\<close>

definition refuses :: "('h, 'p) env \<Rightarrow> (connTarget \<Rightarrow> connPrincipal \<Rightarrow> 'l) \<Rightarrow> 'l \<Rightarrow> bool" where
  "refuses E login l \<longleftrightarrow> (\<forall>kind conn. env_registry E kind = Some conn \<longrightarrow> CanVerify (cn_Capabilities conn)
     \<and> (\<forall>rq pk h. login (rq_Target rq) (rq_Principal rq) = l \<longrightarrow> \<not> is_ok (fst (cn_Verify conn rq pk h))))"

lemma resolved_address:
  assumes "resolved_in E pl tid pid (t, p, cred, conn)" and "addresses login pl tid pid l" and "keyed pl"
  shows "login t p = l"
proof -
  from assms(2) obtain t' p0' where a: "(tid, t') \<in> set (fst pl)" "p0' \<in> set (snd pl)" "p_ID p0' = pid"
      "login t' (toConnectorPrincipal p0') = l" by (auto simp: addresses_def)
  from assms(1) obtain p0 where r: "(tid, t) \<in> set (fst pl)" "p0 \<in> set (snd pl)" "p_ID p0 = pid" "p = toConnectorPrincipal p0"
    by (auto simp: resolved_in_def)
  have "t' = t" using a(1) r(1) assms(3) by (auto simp: keyed_def dest: eq_key_imp_eq_value)
  moreover have "p0' = p0"
    using a r assms(3) by (auto simp: keyed_def distinct_map dest: inj_onD)
  ultimately show ?thesis using a r by simp
qed

lemma verifyOne_refused:
  assumes "safe held good opts_ok l fp pl ro w" and "refuses E login l" and "keyed pl"
    and "addresses login pl (rt_TargetID rt) (rt_PrincipalID rt) l"
  shows "wlp (verifyOne E s rt pk) (\<lambda>_ _. False) w"
  unfolding verifyOne_def
proof (rule wlp_andThen, rule wlp_weaken [OF resolve_result [of w pl]])
  show "places w = pl" using assms(1) by (simp add: safe_def)
next
  fix x w'
  assume r: "resolved_in E pl (rt_TargetID rt) (rt_PrincipalID rt) x"
  obtain t p cred conn where x: "x = (t, p, cred, conn)" by (cases x)
  with r obtain kind where conn: "env_registry E kind = Some conn" by (auto simp: resolved_in_def)
  have l: "login t p = l" by (rule resolved_address [OF r [unfolded x] assms(4,3)])
  have v: "CanVerify (cn_Capabilities conn)" and no: "\<And>h y h'. cn_Verify conn
      \<lparr>rq_Target = t, rq_Principal = p, rq_Credential = cred\<rparr> pk h \<noteq> (Inr y, h')"
    using assms(2) conn l unfolding refuses_def is_ok_iff
    by (metis, metis fst_conv request.select_convs(1,2))
  show "wlp (case x of (t, p, cred, conn) \<Rightarrow>
     let rq = \<lparr>rq_Target = t, rq_Principal = p, rq_Credential = cred\<rparr> in
     if \<not> CanVerify (cn_Capabilities conn) then
       (if \<not> CanList (cn_Capabilities conn) then ret () else
        andThen (call_result (cn_List conn rq)) (\<lambda>entries.
        if list_ex (\<lambda>e. e_Fingerprint e \<noteq> []) entries then ret ()
        else fail (ErrOther ''service: the new key is not present'')))
     else call_result (cn_Verify conn rq pk)) (\<lambda>_ _. False) w'"
    using v no unfolding x prod.case Let_def call_result_def call_def
    by (intro wlp_intros) (auto simp: wlp_def lift_def split: prod.splits sum.splits)
qed

context fleet begin

lemma safe_verify_row_refused:
  assumes "refuses E login l" and "keyed pl"
  shows "keeps (safe held good opts_ok l fp pl (unverified login pl l)) (verify_row E s r pk rt)"
proof (cases "addresses login pl (rt_TargetID rt) (rt_PrincipalID rt) l")
  case True
  have no: "wlp (attempt (verifyOne E s rt pk)) (\<lambda>res _. \<not> is_ok res) w"
    if "safe held good opts_ok l fp pl (unverified login pl l) w" for w
    using verifyOne_refused [OF that assms True, of s pk]
    by (auto simp: wlp_def attempt_def split: prod.splits sum.splits)
  show ?thesis
    unfolding verify_row_def
    by (rule keeps_andThen_result [OF keeps_attempt [OF safe_verifyOne] no])
      (auto simp: set_rt_def is_ok_def split: sum.splits intro!: keeps_intros safe_intros safe_set_rt)
next
  case False
  then show ?thesis
    unfolding verify_row_def set_rt_def by (intro keeps_intros safe_intros safe_verifyOne safe_set_rt) simp_all
qed

lemma safe_Step_refused:
  assumes "refuses E login l" and "keyed pl"
  shows "keeps (safe held good opts_ok l fp pl (unverified login pl l)) (Step E rid uid)"
proof -
  have v: "keeps (safe held good opts_ok l fp pl (unverified login pl l)) (stepVerifying E s r)" for s r
    unfolding stepVerifying_def WaveTargets_def MaxWave_def
    by (intro keeps_intros safe_intros safe_verify_row_refused assms)
  have "keeps (safe held good opts_ok l fp pl (unverified login pl l)) (step_in_state E s r)" for s r
    using safe_step_in_state [of r l fp pl s] v [of s r] by (cases "r_State r = RotationVerifying") (simp_all add: step_in_state_def)
  then show ?thesis
    unfolding Step_def by (intro keeps_intros safe_intros)
qed

end

section \<open>The engine as a transition system\<close>

text \<open>Everything else that runs beside the steps: planning, operators, ticks, the queue.\<close>

lemma safe_planning [safe_intros]:
  "keeps (safe held good opts_ok l fp pl (unverified login pl l)) (Plan s req)"
  "keeps (safe held good opts_ok l fp pl (unverified login pl l)) (collapseWaves rid)"
proof -
  let ?U = "safe held good opts_ok l fp pl (unverified login pl l)"
  show c: "keeps ?U (collapseWaves rid)" for rid
    unfolding collapseWaves_def
  proof (rule safe_after_ListRotationTargets)
    fix rows assume "unverified login pl l rows"
    then show "keeps ?U (forEach rows (\<lambda>rt. AddRotationTarget (rt\<lparr>rt_Wave := 0\<rparr>)))"
      by (intro keeps_forEach_mem safe_AddRotationTarget) (simp add: unverified_def)
  qed
  have "keeps ?U (plan_targets rid cs all)" for rid cs all
    unfolding plan_targets_def WaveTargets_def
    by (intro keeps_intros safe_intros c safe_AddRotationTarget) (simp_all add: new_rotation_target_def)
  moreover have "keeps ?U (canarySet t all pc)" for t all pc
    unfolding canarySet_def flagged_canaries_def by (intro keeps_intros safe_intros)
  ultimately show "keeps ?U (Plan s req)"
    unfolding Plan_def by (intro keeps_intros safe_intros)
qed

lemma safe_enqueue [safe_intros]:
  "keeps (safe held good opts_ok l fp pl ro) (enqueueStep r uid d)"
  "keeps (safe held good opts_ok l fp pl ro) (EnqueueNext tenant rid uid d)"
proof -
  show e: "keeps (safe held good opts_ok l fp pl ro) (enqueueStep r uid d)" for r uid d
    unfolding enqueueStep_def by (intro keeps_intros safe_intros)
  show "keeps (safe held good opts_ok l fp pl ro) (EnqueueNext tenant rid uid d)"
    unfolding EnqueueNext_def by (intro keeps_intros safe_intros e)
qed

lemma safe_operators [safe_intros]:
  "keeps (safe held good opts_ok l fp pl ro) (Start s rid)"
  "keeps (safe held good opts_ok l fp pl ro) (Approve s rid)"
  "keeps (safe held good opts_ok l fp pl ro) (Abort s rid reason)"
  "keeps (safe held good opts_ok l fp pl ro) tickSoak"
  "keeps (safe held good opts_ok l fp pl ro) (failRotation rid e)"
  unfolding Start_def Approve_def Abort_def tickSoak_def failRotation_def
  by (intro keeps_intros safe_intros)+

lemma safe_queue [safe_intros]:
  "keeps (safe held good opts_ok l fp pl ro) (Dequeue worker types n)"
  "keeps (safe held good opts_ok l fp pl ro) (Succeed jid)"
  "keeps (safe held good opts_ok l fp pl ro) (Fail jid e d)"
  "keeps (safe held good opts_ok l fp pl ro) (Kill jid e)"
  "keeps (safe held good opts_ok l fp pl ro) (ReapStalled d)"
  unfolding Dequeue_def Succeed_def Fail_def Kill_def ReapStalled_def update_jobs_def Let_def
  by (intro safe_stmt safe_exec upholdsI; auto simp: safe_def places_def Let_def split: option.split)+

text \<open>One lease of the runner, with the rotation handler in its table.\<close>

definition rotation_table :: "('h, 'p) env \<Rightarrow> string \<Rightarrow> 'h handler option" where
  "rotation_table E ty = (if ty = ''rotation.step'' then Some (handleRotationStep E) else None)"

text \<open>
  What can happen around the rotations of a deployment: a worker leases and runs a job, stalled
  leases are reaped, someone plans, starts, approves or aborts, the soak tick fires, someone deploys
  without pruning.  Between two of these the clock moves, the next faults are drawn anew, and the
  process may have been restarted, which empties the parameter cache.
\<close>

inductive engine_step :: "('h, 'p) env \<Rightarrow> 'h world \<Rightarrow> 'h world \<Rightarrow> bool" for E where
  Work: "engine_step E w (snd (runner_step opts jitter (rotation_table E) worker types w))"
| Reaped: "engine_step E w (snd (ReapStalled d w))"
| Planned: "engine_step E w (snd (Plan s req w))"
| Started: "engine_step E w (snd (Start s rid w))"
| Approved: "engine_step E w (snd (Approve s rid w))"
| Aborted: "engine_step E w (snd (Abort s rid reason w))"
| Ticked: "engine_step E w (snd (tickSoak w))"
| Deployed: "\<not> do_Prune opts \<Longrightarrow> engine_step E w (snd (Deploy E s tid pid opts w))"
| Environment: "engine_step E w (w\<lparr>w_now := now, w_clock := ts, w_faults := fs\<rparr>)"
| Restarted: "engine_step E w (w\<lparr>w_params := Map.empty\<rparr>)"

inductive_cases engine_stepE: "engine_step E w w'"

context fleet begin

lemma safe_handler:
  assumes "refuses E login l" and "keyed pl"
  shows "keeps (safe held good opts_ok l fp pl (unverified login pl l)) (handleRotationStep E j)"
  unfolding handleRotationStep_def
  by (cases "step_payload (j_Payload j)") (auto intro!: keeps_intros safe_intros safe_Step_refused [OF assms])

lemma safe_runner_step:
  assumes "refuses E login l" and "keyed pl"
  shows "keeps (safe held good opts_ok l fp pl (unverified login pl l))
    (runner_step opts jitter (rotation_table E) worker types)"
proof -
  let ?U = "safe held good opts_ok l fp pl (unverified login pl l)"
  have s: "keeps ?U (safely (handleRotationStep E) j)" for j
    using safe_handler [OF assms, of fp j]
    by (auto simp: upholds_def safely_def split: prod.splits sum.splits gerror.splits)
  have "keeps ?U (execute opts jitter (rotation_table E) j)" for j
  proof (cases "j_Type j = ''rotation.step''")
    case True
    have cases: "keeps ?U (case r of Inr Done \<Rightarrow> m1 | Inr (Permanent e) \<Rightarrow> f e | Inl e \<Rightarrow> g e)"
      if "keeps ?U m1" "\<And>e. keeps ?U (f e)" "\<And>e. keeps ?U (g e)"
      for m1 :: "('h, unit) dbprog" and f g r
      using that by (auto split: sum.split outcome.split)
    show ?thesis
      unfolding execute_def rotation_table_def
      by (simp add: True) (intro keeps_andThen s cases keeps_ignoring keeps_attempt keeps_case_result keeps_ret safe_intros)
  next
    case False
    then show ?thesis
      unfolding execute_def rotation_table_def by (simp add: keeps_ignoring safe_intros)
  qed
  then show ?thesis
    unfolding runner_step_def by (intro keeps_intros safe_intros)
qed

lemma engine_step_keeps:
  assumes "engine_step E w w'" and "refuses E login l" and "keyed pl"
    and "safe held good opts_ok l fp pl (unverified login pl l) w"
  shows "safe held good opts_ok l fp pl (unverified login pl l) w'"
  using assms(1)
proof cases
  case Work
  then show ?thesis using upholdsD [OF safe_runner_step [OF assms(2,3)] assms(4)] by simp
next
  case (Deployed opts s tid pid)
  then show ?thesis using upholdsD [OF Deploy_safe assms(4), of opts tid pid s] by simp
next
  case Environment
  then show ?thesis using assms(4) by (simp add: safe_def places_def)
next
  case Restarted
  then show ?thesis using assms(4) by (simp add: safe_def places_def)
qed (use upholdsD [OF safe_queue(5) assms(4)] upholdsD [OF safe_planning(1) assms(4)]
       upholdsD [OF safe_operators(1) assms(4)] upholdsD [OF safe_operators(2) assms(4)]
       upholdsD [OF safe_operators(3) assms(4)] upholdsD [OF safe_operators(4) assms(4)] in simp_all)

lemma engine_keeps:
  assumes "rtranclp (engine_step E) w w'" and "refuses E login l" and "keyed pl"
    and "safe held good opts_ok l fp pl (unverified login pl l) w"
  shows "safe held good opts_ok l fp pl (unverified login pl l) w'"
  using assms(1,4) by induction (use engine_step_keeps assms(2,3) in blast)+

end

end
