(* ===== verification/Base64.thy ===== *)
theory Base64
  imports Prelude
begin

text \<open>
  \<open>base64.StdEncoding\<close> of Go's \<open>encoding/base64\<close>, in which the linux connector moves file contents: the
  padded standard alphabet over bytes, with the quantum of three bytes and four characters written
  out, and the line-wrapped form the remote \<open>base64\<close> tool prints.
\<close>

section \<open>Definitions\<close>

definition b64_alphabet :: string where
  "b64_alphabet = ''ABCDEFGHIJKLMNOPQRSTUVWXYZabcdefghijklmnopqrstuvwxyz0123456789+/''"

definition b64_char :: "nat \<Rightarrow> char" where
  "b64_char n = b64_alphabet ! n"

definition b64_val :: "char \<Rightarrow> nat option" where
  "b64_val c = map_of (zip b64_alphabet [0..<64]) c"

definition byte :: "char \<Rightarrow> nat" where
  "byte c = of_char c"

fun EncodeToString :: "string \<Rightarrow> string" where
  "EncodeToString [] = []"
| "EncodeToString [a] = [b64_char (byte a div 4), b64_char (byte a mod 4 * 16), CHR ''='', CHR ''='']"
| "EncodeToString [a, b] = [b64_char (byte a div 4), b64_char (byte a mod 4 * 16 + byte b div 16),
     b64_char (byte b mod 16 * 4), CHR ''='']"
| "EncodeToString (a # b # c # s) = b64_char (byte a div 4) # b64_char (byte a mod 4 * 16 + byte b div 16)
     # b64_char (byte b mod 16 * 4 + byte c div 64) # b64_char (byte c mod 64) # EncodeToString s"

text \<open>One quantum of the decoder: the bytes, or \<open>None\<close> for a character outside the alphabet.\<close>

definition quantum :: "char \<Rightarrow> char \<Rightarrow> char \<Rightarrow> char \<Rightarrow> string option" where
  "quantum p q r t = (case (b64_val p, b64_val q, b64_val r, b64_val t) of
       (Some x, Some y, Some z, Some u) \<Rightarrow>
         Some [char_of (x * 4 + y div 16), char_of (y mod 16 * 16 + z div 4), char_of (z mod 4 * 64 + u)]
     | _ \<Rightarrow> None)"

definition last_quantum :: "char \<Rightarrow> char \<Rightarrow> char \<Rightarrow> string option" where
  "last_quantum p q r = (case (b64_val p, b64_val q) of
       (Some x, Some y) \<Rightarrow>
         if r = CHR ''='' then Some [char_of (x * 4 + y div 16)]
         else (case b64_val r of
                 Some z \<Rightarrow> Some [char_of (x * 4 + y div 16), char_of (y mod 16 * 16 + z div 4)]
               | None \<Rightarrow> None)
     | _ \<Rightarrow> None)"

text \<open>Padding ends the input.  The unused bits of a padded quantum are not checked, as in Go.\<close>

fun DecodeString :: "string \<Rightarrow> string option" where
  "DecodeString [] = Some []"
| "DecodeString (p # q # r # t # s) =
     (if t = CHR ''='' then (if s = [] then last_quantum p q r else None)
      else (case (quantum p q r t, DecodeString s) of (Some x, Some y) \<Rightarrow> Some (x @ y) | _ \<Rightarrow> None))"
| "DecodeString s = None"

text \<open>What \<open>base64 < file\<close> prints: lines of 76 characters, each ended by a newline.\<close>

function wrapped :: "string \<Rightarrow> string" where
  "wrapped s = (if s = [] then [] else take 76 s @ CHR 0x0A # wrapped (drop 76 s))"
  by pat_completeness auto
termination
  by (relation "measure length") auto

declare wrapped.simps [simp del]

section \<open>Lemmas\<close>

lemma b64_table: "list_all (\<lambda>n. b64_val (b64_char n) = Some n \<and> b64_char n \<noteq> CHR ''=''
    \<and> b64_char n \<notin> set [CHR 0x0A, CHR 0x0D, CHR 0x20, CHR 0x09]) [0..<64]"
  by code_simp

lemma b64_val_char: "n < 64 \<Longrightarrow> b64_val (b64_char n) = Some n"
  and b64_char_not_pad: "n < 64 \<Longrightarrow> b64_char n \<noteq> CHR ''=''"
  and b64_char_not_space: "n < 64 \<Longrightarrow> b64_char n \<notin> {CHR 0x0A, CHR 0x0D, CHR 0x20, CHR 0x09}"
  using b64_table by (auto simp: list_all_iff)

lemma byte_less [simp]: "byte c < 256"
  by (simp add: byte_def)

lemma char_of_byte [simp]: "char_of (byte c) = c"
  by (simp add: byte_def)

lemma sextet_bounds:
  fixes x y z :: nat
  assumes "x < 256" "y < 256" "z < 256"
  shows "x div 4 < 64" "x mod 4 * 16 < 64" "x mod 4 * 16 + y div 16 < 64" "y mod 16 * 4 < 64"
    "y mod 16 * 4 + z div 64 < 64" "z mod 64 < 64"
proof -
  have "x div 4 < 64" "y div 16 < 16" "z div 64 < 4" "x mod 4 < 4" "y mod 16 < 16" "z mod 64 < 64"
    using assms by (simp_all add: div_less_iff_less_mult)
  then show "x div 4 < 64" "x mod 4 * 16 < 64" "x mod 4 * 16 + y div 16 < 64" "y mod 16 * 4 < 64"
    "y mod 16 * 4 + z div 64 < 64" "z mod 64 < 64" by linarith+
qed

lemma sextet_values:
  fixes x y z :: nat
  assumes "y < 256" "z < 256"
  shows "x div 4 * 4 + (x mod 4 * 16) div 16 = x"
    "x div 4 * 4 + (x mod 4 * 16 + y div 16) div 16 = x"
    "(x mod 4 * 16 + y div 16) mod 16 * 16 + (y mod 16 * 4) div 4 = y"
    "(x mod 4 * 16 + y div 16) mod 16 * 16 + (y mod 16 * 4 + z div 64) div 4 = y"
    "(y mod 16 * 4 + z div 64) mod 4 * 64 + z mod 64 = z"
proof -
  have s: "y div 16 < 16" "z div 64 < 4" using assms by (simp_all add: div_less_iff_less_mult)
  have *: "(a * 16 + u) div 16 = a" "(a * 16 + u) mod 16 = u" if "u < 16" for a u :: nat using that by simp_all
  have **: "(a * 4 + u) div 4 = a" "(a * 4 + u) mod 4 = u" if "u < 4" for a u :: nat using that by simp_all
  show "x div 4 * 4 + (x mod 4 * 16) div 16 = x"
    "x div 4 * 4 + (x mod 4 * 16 + y div 16) div 16 = x"
    "(x mod 4 * 16 + y div 16) mod 16 * 16 + (y mod 16 * 4) div 4 = y"
    "(x mod 4 * 16 + y div 16) mod 16 * 16 + (y mod 16 * 4 + z div 64) div 4 = y"
    "(y mod 16 * 4 + z div 64) mod 4 * 64 + z mod 64 = z"
    using * [of 0] by (simp_all only: * [OF s(1)] ** [OF s(2)]) (simp_all add: div_mult_mod_eq)
qed

lemma quantum_encode:
  assumes "x < 256" "y < 256" "z < 256"
  shows "quantum (b64_char (x div 4)) (b64_char (x mod 4 * 16 + y div 16)) (b64_char (y mod 16 * 4 + z div 64))
     (b64_char (z mod 64)) = Some [char_of x, char_of y, char_of z]"
  by (simp only: quantum_def b64_val_char sextet_bounds [OF assms] prod.case option.case
      sextet_values [OF assms(2,3)])

lemma last_quantum_encode:
  assumes "x < 256" "y < 256"
  shows "last_quantum (b64_char (x div 4)) (b64_char (x mod 4 * 16 + y div 16)) (b64_char (y mod 16 * 4))
      = Some [char_of x, char_of y]"
    and "last_quantum (b64_char (x div 4)) (b64_char (x mod 4 * 16)) (CHR ''='') = Some [char_of x]"
  by (simp_all only: last_quantum_def b64_val_char sextet_bounds [OF assms assms(2)] prod.case option.case
      sextet_values [OF assms(2) assms(2)] if_False if_True b64_char_not_pad simp_thms)

lemma decode_encode: "DecodeString (EncodeToString s) = Some s"
proof (induction s rule: EncodeToString.induct)
  case (2 a)
  show ?case
    using last_quantum_encode(2) [of "byte a" 0] by simp
next
  case (3 a b)
  show ?case
    using last_quantum_encode(1) [of "byte a" "byte b"] by simp
next
  case (4 a b c s)
  have "b64_char (byte c mod 64) \<noteq> CHR ''=''" by (rule b64_char_not_pad) simp
  then show ?case
    using quantum_encode [of "byte a" "byte b" "byte c"] 4 by simp
qed simp

lemma encode_no_space: "set (EncodeToString s) \<inter> {CHR 0x0A, CHR 0x0D, CHR 0x20, CHR 0x09} = {}"
proof (induction s rule: EncodeToString.induct)
  case (2 a)
  then show ?case
    using b64_char_not_space sextet_bounds [of "byte a" 0 0] by simp
next
  case (3 a b)
  then show ?case
    using b64_char_not_space sextet_bounds [of "byte a" "byte b" 0] by simp
next
  case (4 a b c s)
  then show ?case
    using b64_char_not_space sextet_bounds [of "byte a" "byte b" "byte c"] by simp
qed simp

lemma filter_wrapped:
  "\<not> P (CHR 0x0A) \<Longrightarrow> filter P (wrapped s) = filter P s"
proof (induction s rule: wrapped.induct)
  case (1 s)
  show ?case
  proof (cases "s = []")
    case False
    have "filter P s = filter P (take 76 s) @ filter P (drop 76 s)"
      by (metis append_take_drop_id filter_append)
    with False 1 show ?thesis by (simp add: wrapped.simps [of s])
  qed (simp add: wrapped.simps)
qed

end
