(* ===== verification/Shell.thy ===== *)
theory Shell
  imports GoLib
begin

text \<open>
  The remote commands of the linux connector (\<open>internal/connectors/linux/script.go\<close>): quoting, the
  script texts, the \<open>sh -c\<close> wrapper, and a reader of POSIX shell words to judge the quoting by.
\<close>

section \<open>Quoting and wrapping\<close>

abbreviation SQ :: char where "SQ \<equiv> CHR 0x27"   \<comment> \<open>single quote\<close>
abbreviation BSL :: char where "BSL \<equiv> CHR 0x5C"   \<comment> \<open>backslash\<close>
abbreviation DQ :: char where "DQ \<equiv> CHR 0x22"   \<comment> \<open>double quote\<close>

definition quote :: "string \<Rightarrow> string" where
  "quote s = [SQ] @ concat (map (\<lambda>c. if c = SQ then [SQ, BSL, SQ, SQ] else [c]) s) @ [SQ]"

definition wrap :: "string \<Rightarrow> bool \<Rightarrow> string" where
  "wrap script useSudo = (let inner = ''sh -c '' @ quote script in if useSudo then ''sudo -n '' @ inner else inner)"

section \<open>Scripts\<close>

definition markerExists :: string where "markerExists = ''SKM_EXISTS''"
definition markerMissing :: string where "markerMissing = ''SKM_MISSING''"
definition markerOK :: string where "markerOK = ''SKM_OK''"
definition markerNoBase64 :: string where "markerNoBase64 = ''SKM_NO_BASE64''"

text \<open>\<open>"text"\<close> and \<open>printf 'marker\n'\<close>.\<close>

definition dq :: "string \<Rightarrow> string" where "dq s = [DQ] @ s @ [DQ]"

definition say :: "string \<Rightarrow> string" where
  "say marker = ''printf '' @ [SQ] @ marker @ [BSL, CHR ''n'', SQ]"

definition script_lines :: "string list \<Rightarrow> string" where
  "script_lines ls = join_with [LF] ls"

definition readScript :: "string \<Rightarrow> string" where
  "readScript path = script_lines
     [''set -eu'',
      ''P='' @ quote path,
      ''if [ -e '' @ dq ''$P'' @ '' ]; then'',
      ''  '' @ say markerExists,
      ''  base64 < '' @ dq ''$P'',
      ''else'',
      ''  '' @ say markerMissing,
      ''fi'']"

definition homeScript :: "string \<Rightarrow> string" where
  "homeScript username = script_lines
     [''set -eu'',
      ''U='' @ quote username,
      ''H=$(getent passwd '' @ dq ''$U'' @ '' 2>/dev/null | cut -d: -f6 || true)'',
      ''if [ -z '' @ dq ''$H'' @ '' ]; then H=$(eval echo '' @ dq ''~$U'' @ '' 2>/dev/null || true); fi'',
      ''if [ -z '' @ dq ''$H'' @ '' ] || [ '' @ dq ''$H'' @ '' = '' @ dq ''~$U'' @ '' ]; then exit 4; fi'',
      ''printf '' @ [SQ] @ ''%s'' @ [BSL, CHR ''n'', SQ] @ '' '' @ dq ''$H'']"

definition writeScript :: "string \<Rightarrow> string \<Rightarrow> string \<Rightarrow> string" where
  "writeScript path username mode = script_lines
     ([''set -eu'',
       ''P='' @ quote path,
       ''U='' @ quote username,
       ''D=$(dirname '' @ dq ''$P'' @ '')'',
       [],
       ''if [ ! -d '' @ dq ''$D'' @ '' ]; then'',
       ''  mkdir -p '' @ dq ''$D'',
       ''  chmod 700 '' @ dq ''$D'',
       ''  chown '' @ dq ''$U'' @ '' '' @ dq ''$D'' @ '' 2>/dev/null || true'',
       ''fi'',
       [],
       ''T=$(mktemp '' @ dq ''$D/.skm-XXXXXX'' @ '')'',
       ''B='' @ dq ''$T.b64'',
       ''trap '' @ [SQ] @ ''rm -f '' @ dq ''$T'' @ '' '' @ dq ''$B'' @ [SQ] @ '' EXIT INT TERM HUP'',
       []]
      @ [''cat > '' @ dq ''$B'',
       ''if base64 -d < '' @ dq ''$B'' @ '' > '' @ dq ''$T'' @ '' 2>/dev/null; then :'',
       ''elif base64 -D < '' @ dq ''$B'' @ '' > '' @ dq ''$T'' @ '' 2>/dev/null; then :'',
       ''elif base64 --decode < '' @ dq ''$B'' @ '' > '' @ dq ''$T'' @ '' 2>/dev/null; then :'',
       ''elif openssl base64 -d -in '' @ dq ''$B'' @ '' -out '' @ dq ''$T'' @ '' 2>/dev/null; then :'',
       ''else'',
       ''  '' @ say markerNoBase64 @ '' >&2'',
       ''  exit 3'',
       ''fi'',
       ''rm -f '' @ dq ''$B'',
       [],
       ''chmod '' @ mode @ '' '' @ dq ''$T'']
      @ [''if [ -e '' @ dq ''$P'' @ '' ]; then'',
       ''  chown --reference='' @ dq ''$P'' @ '' '' @ dq ''$T'' @ '' 2>/dev/null || chown '' @ dq ''$U'' @ '' '' @ dq ''$T'' @ '' 2>/dev/null || true'',
       ''  if command -v chcon >/dev/null 2>&1; then chcon --reference='' @ dq ''$P'' @ '' '' @ dq ''$T'' @ '' 2>/dev/null || true; fi'',
       ''else'',
       ''  chown '' @ dq ''$U'' @ '' '' @ dq ''$T'' @ '' 2>/dev/null || true'',
       ''fi'',
       [],
       ''mv -f '' @ dq ''$T'' @ '' '' @ dq ''$P'',
       ''trap - EXIT INT TERM HUP'',
       ''if command -v sync >/dev/null 2>&1; then sync || true; fi'',
       say markerOK])"

definition removeScript :: "string \<Rightarrow> string" where
  "removeScript path = script_lines [''set -eu'', ''P='' @ quote path, ''rm -f '' @ dq ''$P'', say markerOK]"

text \<open>The commands the connector runs, and the text each is sent as.\<close>

datatype script = ReadScript string | HomeScript string | WriteScript string string string
  | RemoveScript string | PlainCommand string

fun script_text :: "script \<Rightarrow> string" where
  "script_text (ReadScript path) = readScript path"
| "script_text (HomeScript user) = homeScript user"
| "script_text (WriteScript path user mode) = writeScript path user mode"
| "script_text (RemoveScript path) = removeScript path"
| "script_text (PlainCommand c) = c"

fun command_text :: "script \<Rightarrow> bool \<Rightarrow> string" where
  "command_text (PlainCommand c) useSudo = c"
| "command_text s useSudo = wrap (script_text s) useSudo"

section \<open>Reading shell words\<close>

text \<open>Characters that end an unquoted word or make the shell do something with it.\<close>

definition special :: "char \<Rightarrow> bool" where
  "special c \<longleftrightarrow> c \<in> set ([CHR 0x09, LF, CHR 0x20, DQ, CHR 0x60] @ ''$&();<>|*?[]#~{}!'')"

text \<open>One word: the flag says whether the reader is inside single quotes.  The result is the value of
  the word and the rest of the line; an unterminated quote or escape gives \<open>None\<close>.\<close>

fun sh_word :: "bool \<Rightarrow> string \<Rightarrow> (string \<times> string) option" where
  "sh_word True [] = None"
| "sh_word True (c # s) = (if c = SQ then sh_word False s
     else map_option (\<lambda>(v, r). (c # v, r)) (sh_word True s))"
| "sh_word False [] = Some ([], [])"
| "sh_word False [c] = (if c = SQ \<or> c = BSL then None else if special c then Some ([], [c]) else Some ([c], []))"
| "sh_word False (c # d # s) =
     (if c = SQ then sh_word True (d # s)
      else if c = BSL then map_option (\<lambda>(v, r). (d # v, r)) (sh_word False s)
      else if special c then Some ([], c # d # s)
      else map_option (\<lambda>(v, r). (c # v, r)) (sh_word False (d # s)))"

definition word_ends :: "string \<Rightarrow> bool" where
  "word_ends r \<longleftrightarrow> r = [] \<or> special (hd r)"

section \<open>Properties\<close>

lemma sh_word_end: "word_ends r \<Longrightarrow> sh_word False r = Some ([], r)"
proof (cases r)
  case (Cons c t)
  assume "word_ends r"
  then have "special c" "c \<noteq> SQ" "c \<noteq> BSL" by (auto simp: word_ends_def Cons special_def)
  then show ?thesis by (cases t) (simp_all add: Cons)
qed simp

lemma sh_word_open: "t \<noteq> [] \<Longrightarrow> sh_word False (SQ # t) = sh_word True t"
  by (cases t) simp_all

lemma sh_word_quoted:
  "word_ends r \<Longrightarrow>
     sh_word True (concat (map (\<lambda>c. if c = SQ then [SQ, BSL, SQ, SQ] else [c]) s) @ SQ # r) = Some (s, r)"
  by (induction s) (simp_all add: sh_word_end sh_word_open)

text \<open>C27. Quoting is injection-proof: whatever bytes a path or a user name contains, a POSIX shell reads
  the quoted form as one word with exactly that value, and stops where the quoted form stops.\<close>

theorem quote_reads_back:
  assumes "word_ends rest"
  shows "sh_word False (quote s @ rest) = Some (s, rest)
    \<and> sh_word False (drop (length ''sh -c '') (wrap s False)) = Some (s, [])"
  using sh_word_quoted [OF assms, of s] sh_word_quoted [of "[]" s]
  by (simp add: quote_def wrap_def sh_word_open word_ends_def)

theorem quote_reads_back_witness:
  "sh_word False (quote [CHR ''a'', SQ, CHR '';'', CHR '' ''] @ [LF]) = Some ([CHR ''a'', SQ, CHR '';'', CHR '' ''], [LF])"
  using quote_reads_back [of "[LF]" "[CHR ''a'', SQ, CHR '';'', CHR '' '']"] by (simp add: word_ends_def special_def)

end
