(* ===== verification/Diff.thy ===== *)
theory Diff
  imports GoLib
begin

text \<open>
  \<open>internal/diff\<close>: unified diffs by the longest-common-subsequence dynamic program.  The
  table is built row by row from the bottom as the loops of \<open>lcsOps\<close> do; the recursive
  function \<open>lcs\<close> is the reference it is proved equal to.  The script walk reads the table.
\<close>

section \<open>Edit scripts\<close>

datatype opKind = opEqual | opDelete | opInsert

record edit =
  op_kind :: opKind
  op_text :: string
  op_oldLine :: nat
  op_newLine :: nat

abbreviation mk_op :: "opKind \<Rightarrow> string \<Rightarrow> nat \<Rightarrow> nat \<Rightarrow> edit" where
  "mk_op k t i j \<equiv> \<lparr>op_kind = k, op_text = t, op_oldLine = i, op_newLine = j\<rparr>"

text \<open>
  One row of the table, right to left: \<open>below\<close> is row \<open>i+1\<close> from column \<open>j\<close> on, so
  \<open>hd below\<close> is \<open>table[i+1][j]\<close>, \<open>hd (tl below)\<close> is \<open>table[i+1][j+1]\<close> and \<open>hd rest\<close> is
  \<open>table[i][j+1]\<close>.
\<close>

fun lcs_row :: "string \<Rightarrow> string list \<Rightarrow> nat list \<Rightarrow> nat list" where
  "lcs_row a [] below = [0]"
| "lcs_row a (b # bs) below = (let rest = lcs_row a bs (tl below) in
     (if a = b then hd (tl below) + 1
      else if hd below \<ge> hd rest then hd below else hd rest) # rest)"

fun lcs_table :: "string list \<Rightarrow> string list \<Rightarrow> nat list list" where
  "lcs_table [] bs = [replicate (length bs + 1) 0]"
| "lcs_table (a # as) bs = (let t = lcs_table as bs in lcs_row a bs (hd t) # t)"

fun walk :: "nat list list \<Rightarrow> nat \<Rightarrow> nat \<Rightarrow> string list \<Rightarrow> string list \<Rightarrow> edit list" where
  "walk table i j (a # as) (b # bs) =
     (if a = b then mk_op opEqual a i j # walk table (i + 1) (j + 1) as bs
      else if table ! (i + 1) ! j \<ge> table ! i ! (j + 1)
      then mk_op opDelete a i j # walk table (i + 1) j as (b # bs)
      else mk_op opInsert b i j # walk table i (j + 1) (a # as) bs)"
| "walk table i j (a # as) [] = mk_op opDelete a i j # walk table (i + 1) j as []"
| "walk table i j [] (b # bs) = mk_op opInsert b i j # walk table i (j + 1) [] bs"
| "walk table i j [] [] = []"

definition lcsOps :: "string list \<Rightarrow> string list \<Rightarrow> edit list" where
  "lcsOps a b = walk (lcs_table a b) 0 0 a b"

section \<open>Hunks\<close>

definition mark_range :: "bool list \<Rightarrow> nat \<Rightarrow> nat \<Rightarrow> bool list" where
  "mark_range keep lo hi = map (\<lambda>j. if lo \<le> j \<and> j \<le> hi then True else keep ! j) [0..<length keep]"

definition keep_mask :: "bool list \<Rightarrow> nat \<Rightarrow> bool list" where
  "keep_mask changed context =
     foldl (\<lambda>keep i. if \<not> changed ! i then keep
         else mark_range keep (i - context) (min (length changed - 1) (i + context)))
       (replicate (length changed) False) [0..<length changed]"

fun hunks_from :: "edit list \<Rightarrow> (bool \<times> edit) list \<Rightarrow> edit list list" where
  "hunks_from current [] = (if current \<noteq> [] then [current] else [])"
| "hunks_from current ((k, x) # xs) =
     (if k then hunks_from (current @ [x]) xs
      else if current \<noteq> [] then current # hunks_from [] xs
      else hunks_from [] xs)"

definition group :: "edit list \<Rightarrow> nat \<Rightarrow> edit list list" where
  "group ops context = (let changed = map (\<lambda>x. op_kind x \<noteq> opEqual) ops in
     if \<not> list_ex id changed then []
     else hunks_from [] (zip (keep_mask changed context) ops))"

definition splitLines :: "string \<Rightarrow> string list" where
  "splitLines s = (if s = [] then []
     else (let lines = split_on LF (crlf_to_lf s) in
       if lines \<noteq> [] \<and> last lines = [] then butlast lines else lines))"

definition op_line :: "edit \<Rightarrow> string" where
  "op_line x = (case op_kind x of opEqual \<Rightarrow> '' '' | opDelete \<Rightarrow> ''-'' | opInsert \<Rightarrow> ''+'') @ op_text x @ [LF]"

definition hunk_header :: "edit list \<Rightarrow> string" where
  "hunk_header h =
     ''@@ -'' @ show_nat (op_oldLine (hd h) + 1) @ '','' @ show_nat (length (filter (\<lambda>x. op_kind x \<noteq> opInsert) h))
     @ '' +'' @ show_nat (op_newLine (hd h) + 1) @ '','' @ show_nat (length (filter (\<lambda>x. op_kind x \<noteq> opDelete) h))
     @ '' @@'' @ [LF]"

definition Unified :: "string \<Rightarrow> string \<Rightarrow> string \<Rightarrow> string \<Rightarrow> int \<Rightarrow> string" where
  "Unified oldText newText oldLabel newLabel context =
     (if oldText = newText then []
      else (let hunks = group (lcsOps (splitLines oldText) (splitLines newText)) (nat (max 0 context)) in
        if hunks = [] then []
        else ''--- '' @ oldLabel @ [LF] @ ''+++ '' @ newLabel @ [LF]
          @ concat (map (\<lambda>h. hunk_header h @ concat (map op_line h)) hunks)))"

record stat =
  Added :: nat
  Removed :: nat

definition Summarise :: "string \<Rightarrow> string \<Rightarrow> stat" where
  "Summarise oldText newText = foldl (\<lambda>st x. case op_kind x of
       opInsert \<Rightarrow> st\<lparr>Added := Added st + 1\<rparr> | opDelete \<Rightarrow> st\<lparr>Removed := Removed st + 1\<rparr> | opEqual \<Rightarrow> st)
     \<lparr>Added = 0, Removed = 0\<rparr> (lcsOps (splitLines oldText) (splitLines newText))"

section \<open>The table computes the reference recursion\<close>

fun lcs :: "'a list \<Rightarrow> 'a list \<Rightarrow> nat" where
  "lcs (a # as) (b # bs) =
     (if a = b then lcs as bs + 1 else max (lcs as (b # bs)) (lcs (a # as) bs))"
| "lcs _ _ = 0"

text \<open>The columns of row \<open>as\<close>: the reference value against every suffix of \<open>bs\<close>.\<close>

fun ref_row :: "'a list \<Rightarrow> 'a list \<Rightarrow> nat list" where
  "ref_row as [] = [lcs as []]"
| "ref_row as (b # bs) = lcs as (b # bs) # ref_row as bs"

lemma lcs_Nil2 [simp]: "lcs as [] = 0"
  by (cases as) auto

lemma hd_ref_row [simp]: "hd (ref_row as bs) = lcs as bs"
  by (cases bs) auto

lemma tl_ref_row [simp]: "tl (ref_row as (b # bs)) = ref_row as bs"
  by simp

lemma lcs_row_ref: "lcs_row a bs (ref_row as bs) = ref_row (a # as) bs"
  by (induction bs) (auto simp: Let_def max_def)

lemma ref_row_Nil: "ref_row [] bs = replicate (length bs + 1) 0"
  by (induction bs) auto

lemma lcs_table_hd: "hd (lcs_table as bs) = ref_row as bs \<and> lcs_table as bs \<noteq> []"
  by (induction as) (auto simp: ref_row_Nil lcs_row_ref Let_def)

lemma ref_row_nth: "j \<le> length bs \<Longrightarrow> ref_row as bs ! j = lcs as (drop j bs)"
  by (induction bs arbitrary: j) (auto simp: nth_Cons split: nat.splits)

lemma lcs_table_nth: "i \<le> length as \<Longrightarrow> lcs_table as bs ! i = ref_row (drop i as) bs"
proof (induction as arbitrary: i)
  case Nil
  then show ?case by (simp add: ref_row_Nil)
next
  case (Cons a as)
  then show ?case
    using lcs_table_hd [of as bs] by (cases i) (auto simp: Let_def lcs_row_ref)
qed

section \<open>Scripts\<close>

definition old_side :: "edit list \<Rightarrow> string list" where
  "old_side ops = map op_text (filter (\<lambda>x. op_kind x \<noteq> opInsert) ops)"

definition new_side :: "edit list \<Rightarrow> string list" where
  "new_side ops = map op_text (filter (\<lambda>x. op_kind x \<noteq> opDelete) ops)"

definition kept_lines :: "edit list \<Rightarrow> nat" where
  "kept_lines ops = length (filter (\<lambda>x. op_kind x = opEqual) ops)"

text \<open>Every operation carries the numbers of old and new lines consumed before it.\<close>

fun numbered_from :: "nat \<Rightarrow> nat \<Rightarrow> edit list \<Rightarrow> bool" where
  "numbered_from i j [] = True"
| "numbered_from i j (x # xs) = (op_oldLine x = i \<and> op_newLine x = j
     \<and> numbered_from (if op_kind x = opInsert then i else i + 1)
                     (if op_kind x = opDelete then j else j + 1) xs)"

lemma side_simps [simp]:
  "old_side [] = []" "new_side [] = []" "kept_lines [] = 0"
  "old_side (x # xs) = (if op_kind x = opInsert then old_side xs else op_text x # old_side xs)"
  "new_side (x # xs) = (if op_kind x = opDelete then new_side xs else op_text x # new_side xs)"
  "kept_lines (x # xs) = (if op_kind x = opEqual then Suc (kept_lines xs) else kept_lines xs)"
  by (simp_all add: old_side_def new_side_def kept_lines_def)

lemma walk_sides: "old_side (walk t i j as bs) = as \<and> new_side (walk t i j as bs) = bs"
  by (induction t i j as bs rule: walk.induct) auto

lemma walk_numbered: "numbered_from i j (walk t i j as bs)"
  by (induction t i j as bs rule: walk.induct) auto

lemma walk_kept:
  assumes "as = drop i A" and "bs = drop j B" and "i \<le> length A" and "j \<le> length B"
  shows "kept_lines (walk (lcs_table A B) i j as bs) = lcs as bs"
  using assms
proof (induction "lcs_table A B" i j as bs rule: walk.induct)
  case (1 i j a as b bs)
  from 1(4-7) have i: "i < length A" "drop (Suc i) A = as" and j: "j < length B" "drop (Suc j) B = bs"
    by (metis drop_all leI list.distinct(1), metis drop_Suc list.sel(3) tl_drop,
        metis drop_all leI list.distinct(1), metis drop_Suc list.sel(3) tl_drop)
  have t: "lcs_table A B ! (i + 1) ! j = lcs as (b # bs)" "lcs_table A B ! i ! (j + 1) = lcs (a # as) bs"
    using i j 1(4,5) by (simp_all add: lcs_table_nth ref_row_nth)
  note [simp] = i(2) j(2)
  consider (eq) "a = b" | (del) "a \<noteq> b" "lcs (a # as) bs \<le> lcs as (b # bs)"
    | (ins) "a \<noteq> b" "\<not> lcs (a # as) bs \<le> lcs as (b # bs)"
    by blast
  then show ?case
  proof cases
    case eq
    then have "kept_lines (walk (lcs_table A B) (i + 1) (j + 1) as bs) = lcs as bs"
      using i j by (intro 1(1)) auto
    with eq show ?thesis by simp
  next
    case del
    then have "kept_lines (walk (lcs_table A B) (i + 1) j as (b # bs)) = lcs as (b # bs)"
      using i j t 1(5) by (intro 1(2)) auto
    with del t show ?thesis by (simp add: max_def)
  next
    case ins
    then have "kept_lines (walk (lcs_table A B) i (j + 1) (a # as) bs) = lcs (a # as) bs"
      using i j t 1(4) by (intro 1(3)) auto
    with ins t show ?thesis by (simp add: max_def)
  qed
next
  case (2 i j a as)
  then have "drop (Suc i) A = as" "i < length A"
    by (metis drop_Suc list.sel(3) tl_drop, metis drop_all leI list.distinct(1))
  then have "kept_lines (walk (lcs_table A B) (i + 1) j as []) = lcs as []"
    using 2(3-5) by (intro 2(1)) auto
  then show ?case by simp
next
  case (3 i j b bs)
  then have "drop (Suc j) B = bs" "j < length B"
    by (metis drop_Suc list.sel(3) tl_drop, metis drop_all leI list.distinct(1))
  then have "kept_lines (walk (lcs_table A B) i (j + 1) [] bs) = lcs [] bs"
    using 3(2,4,5) by (intro 3(1)) auto
  then show ?case by simp
qed simp

text \<open>The reference value bounds every script between the two sides.\<close>

lemma lcs_le_length: "lcs as bs \<le> length as \<and> lcs as bs \<le> length bs"
  by (induction as bs rule: lcs.induct) auto

lemma lcs_Cons_le: "lcs as bs \<le> lcs (a # as) bs \<and> lcs as bs \<le> lcs as (b # bs)
   \<and> lcs (a # as) bs \<le> lcs as bs + 1 \<and> lcs as (b # bs) \<le> lcs as bs + 1"
proof (induction "length as + length bs" arbitrary: a as b bs rule: less_induct)
  case less
  show ?case
  proof (cases as; cases bs)
    fix x xs y ys assume e: "as = x # xs" "bs = y # ys"
    have 1: "lcs xs ys \<le> lcs (z # xs) ys \<and> lcs xs ys \<le> lcs xs (u # ys)
        \<and> lcs (z # xs) ys \<le> lcs xs ys + 1 \<and> lcs xs (u # ys) \<le> lcs xs ys + 1" for z u
      by (rule less) (simp add: e)
    have 2: "lcs xs (y # ys) \<le> lcs (z # xs) (y # ys) \<and> lcs (z # xs) (y # ys) \<le> lcs xs (y # ys) + 1
        \<and> lcs xs (y # ys) \<le> lcs xs (u # y # ys) \<and> lcs xs (u # y # ys) \<le> lcs xs (y # ys) + 1" for z u
      using less [of xs "y # ys" z u] by (simp add: e)
    have 3: "lcs (x # xs) ys \<le> lcs (x # xs) (z # ys) \<and> lcs (x # xs) (z # ys) \<le> lcs (x # xs) ys + 1
        \<and> lcs (x # xs) ys \<le> lcs (u # x # xs) ys \<and> lcs (u # x # xs) ys \<le> lcs (x # xs) ys + 1" for z u
      using less [of "x # xs" ys u z] by (simp add: e)
    show ?thesis
      unfolding e using 1 [of a b] 1 [of x y] 2 [of x b] 3 [of y a] by (auto simp: max_def)
  qed (use lcs_le_length [of "a # as" bs] lcs_le_length [of as "b # bs"] in auto)
qed

lemma script_kept_le: "kept_lines ops \<le> lcs (old_side ops) (new_side ops)"
proof (induction ops)
  case (Cons x xs)
  have "lcs (old_side xs) (new_side xs) \<le> lcs (op_text x # old_side xs) (new_side xs)"
    "lcs (old_side xs) (new_side xs) \<le> lcs (old_side xs) (op_text x # new_side xs)"
    using lcs_Cons_le [of "old_side xs" "new_side xs" "op_text x"] by simp_all
  with Cons show ?case
    by (cases "op_kind x") auto
qed simp

section \<open>Hunks\<close>

lemma length_mark_range [simp]: "length (mark_range keep lo hi) = length keep"
  by (simp add: mark_range_def)

lemma nth_mark_range: "j < length keep \<Longrightarrow> mark_range keep lo hi ! j = (lo \<le> j \<and> j \<le> hi \<or> keep ! j)"
  by (auto simp: mark_range_def)

lemma keep_mask_upto:
  assumes "n \<le> length changed"
  shows "let k = foldl (\<lambda>keep i. if \<not> changed ! i then keep
            else mark_range keep (i - context) (min (length changed - 1) (i + context)))
          (replicate (length changed) False) [0..<n] in
      length k = length changed \<and> (\<forall>j<length changed.
        k ! j = (\<exists>i<n. changed ! i \<and> i \<le> j + context \<and> j \<le> i + context))"
  using assms
proof (induction n)
  case (Suc n)
  then show ?case
    by (auto simp: Let_def nth_mark_range less_Suc_eq)
qed simp

lemma length_keep_mask [simp]: "length (keep_mask changed context) = length changed"
  using keep_mask_upto [of "length changed" changed "context"]
  by (simp add: keep_mask_def Let_def)

lemma keep_mask_nth:
  "j < length changed \<Longrightarrow> keep_mask changed context ! j =
     (\<exists>i<length changed. changed ! i \<and> i \<le> j + context \<and> j \<le> i + context)"
  using keep_mask_upto [of "length changed" changed "context"]
  by (simp add: keep_mask_def Let_def)

lemma concat_hunks_from: "concat (hunks_from cur xs) = cur @ map snd (filter fst xs)"
  by (induction cur xs rule: hunks_from.induct) auto

lemma hunks_from_nonempty: "h \<in> set (hunks_from cur xs) \<Longrightarrow> h \<noteq> []"
  by (induction cur xs rule: hunks_from.induct) (auto split: if_splits)

lemma filter_zip_changed:
  assumes "length ks = length xs" and "\<And>i. i < length xs \<Longrightarrow> P (xs ! i) \<Longrightarrow> ks ! i"
  shows "filter P (map snd (filter fst (zip ks xs))) = filter P xs"
  using assms
proof (induction ks xs rule: list_induct2)
  case (Cons k ks x xs)
  have "filter P (map snd (filter fst (zip ks xs))) = filter P xs"
    using Cons.prems(1) [of "Suc _"] by (intro Cons.IH) auto
  moreover have "P x \<Longrightarrow> k"
    using Cons.prems(1) [of 0] by simp
  ultimately show ?case by simp
qed simp

lemma group_changes:
  "filter (\<lambda>x. op_kind x \<noteq> opEqual) (concat (group ops context)) = filter (\<lambda>x. op_kind x \<noteq> opEqual) ops"
proof (cases "list_ex id (map (\<lambda>x. op_kind x \<noteq> opEqual) ops)")
  case True
  have "filter (\<lambda>x. op_kind x \<noteq> opEqual) (map snd (filter fst
      (zip (keep_mask (map (\<lambda>x. op_kind x \<noteq> opEqual) ops) context) ops)))
    = filter (\<lambda>x. op_kind x \<noteq> opEqual) ops"
    by (rule filter_zip_changed) (auto simp: keep_mask_nth)
  with True show ?thesis
    by (simp add: group_def concat_hunks_from)
next
  case False
  then show ?thesis
    by (auto simp: group_def list_ex_iff filter_empty_conv)
qed

lemma group_Nil: "group ops context = [] \<longleftrightarrow> (\<forall>x\<in>set ops. op_kind x = opEqual)"
proof
  assume "group ops context = []"
  then have "filter (\<lambda>x. op_kind x \<noteq> opEqual) ops = []"
    using group_changes [of ops "context"] by simp
  then show "\<forall>x\<in>set ops. op_kind x = opEqual"
    by (simp add: filter_empty_conv)
next
  assume "\<forall>x\<in>set ops. op_kind x = opEqual"
  then show "group ops context = []"
    by (simp add: group_def list_ex_iff)
qed

lemma all_equal_sides: "(\<forall>x\<in>set ops. op_kind x = opEqual) \<Longrightarrow> old_side ops = new_side ops"
  by (induction ops) auto

lemma lcs_self: "lcs as as = length as"
  by (induction as) auto

lemma kept_all:
  "kept_lines ops = length (old_side ops) \<Longrightarrow> kept_lines ops = length (new_side ops) \<Longrightarrow>
     \<forall>x\<in>set ops. op_kind x = opEqual"
proof (induction ops)
  case (Cons x xs)
  have "kept_lines xs \<le> length (old_side xs)" "kept_lines xs \<le> length (new_side xs)"
    by (induction xs) auto
  with Cons show ?case
    by (cases "op_kind x") auto
qed simp

lemma hunks_nonempty: "[] \<notin> set (group ops context)"
  by (auto simp: group_def Let_def dest: hunks_from_nonempty)

lemma filter_zip_enumerate:
  assumes "length ks = length xs" and "\<And>j. j < length xs \<Longrightarrow> ks ! j = P (n + j)"
  shows "map snd (filter fst (zip ks xs)) = map snd (filter (\<lambda>(j, x). P j) (enumerate n xs))"
  using assms
proof (induction ks xs arbitrary: n rule: list_induct2)
  case (Cons k ks x xs)
  have "k = P n"
    using Cons.prems [of 0] by simp
  moreover have "map snd (filter fst (zip ks xs)) = map snd (filter (\<lambda>(j, x). P j) (enumerate (Suc n) xs))"
  proof (rule Cons.IH)
    fix j assume "j < length xs"
    then show "ks ! j = P (Suc n + j)"
      using Cons.prems [of "Suc j"] by simp
  qed
  ultimately show ?case by simp
qed simp

lemma group_shown:
  "concat (group ops context) = map snd (filter (\<lambda>(j, x). \<exists>i<length ops.
      op_kind (ops ! i) \<noteq> opEqual \<and> i \<le> j + context \<and> j \<le> i + context) (enumerate 0 ops))"
proof (cases "list_ex id (map (\<lambda>x. op_kind x \<noteq> opEqual) ops)")
  case True
  let ?ch = "map (\<lambda>x. op_kind x \<noteq> opEqual) ops"
  have "map snd (filter fst (zip (keep_mask ?ch context) ops)) =
      map snd (filter (\<lambda>(j, x). \<exists>i<length ops.
        op_kind (ops ! i) \<noteq> opEqual \<and> i \<le> j + context \<and> j \<le> i + context) (enumerate 0 ops))"
    by (rule filter_zip_enumerate) (auto simp: keep_mask_nth)
  with True show ?thesis
    by (simp add: group_def concat_hunks_from)
next
  case False
  then have "\<forall>i<length ops. op_kind (ops ! i) = opEqual"
    by (auto simp: list_ex_iff)
  then have "filter (\<lambda>(j, x). \<exists>i<length ops. op_kind (ops ! i) \<noteq> opEqual \<and> i \<le> j + context \<and> j \<le> i + context)
        (enumerate 0 ops) = []"
    by (auto simp: filter_empty_conv)
  with False show ?thesis by (simp add: group_def)
qed

lemma stat_fold:
  "foldl (\<lambda>st x. case op_kind x of
       opInsert \<Rightarrow> st\<lparr>Added := Added st + 1\<rparr> | opDelete \<Rightarrow> st\<lparr>Removed := Removed st + 1\<rparr> | opEqual \<Rightarrow> st)
     \<lparr>Added = m, Removed = n\<rparr> ops =
   \<lparr>Added = m + length (filter (\<lambda>x. op_kind x = opInsert) ops),
    Removed = n + length (filter (\<lambda>x. op_kind x = opDelete) ops)\<rparr>"
  by (induction ops arbitrary: m n) (auto split: opKind.splits)

lemma length_sides:
  "length (old_side ops) = kept_lines ops + length (filter (\<lambda>x. op_kind x = opDelete) ops)"
  "length (new_side ops) = kept_lines ops + length (filter (\<lambda>x. op_kind x = opInsert) ops)"
  by (induction ops; case_tac "op_kind a"; auto)+

section \<open>Properties\<close>

text \<open>C33. The edit script of \<open>lcsOps\<close> is a correct and minimal one: it deletes and keeps exactly
  the old lines in order, inserts and keeps exactly the new ones, numbers every operation with
  the lines consumed before it, and no script between the two texts keeps more lines.\<close>

theorem lcsOps_correct_and_minimal:
  "old_side (lcsOps a b) = a \<and> new_side (lcsOps a b) = b \<and> numbered_from 0 0 (lcsOps a b)
    \<and> (\<forall>ops. old_side ops = a \<and> new_side ops = b \<longrightarrow> kept_lines ops \<le> kept_lines (lcsOps a b))"
proof -
  have "kept_lines (lcsOps a b) = lcs a b"
    unfolding lcsOps_def by (rule walk_kept) simp_all
  then show ?thesis
    using script_kept_le walk_sides walk_numbered by (auto simp: lcsOps_def)
qed

text \<open>The hypothesis on a competing script can hold: the script that replaces everything.\<close>

theorem lcsOps_correct_and_minimal_witness:
  "kept_lines [mk_op opDelete ''x'' 0 0, mk_op opInsert ''y'' 1 0] \<le> kept_lines (lcsOps [''x''] [''y''])"
  using lcsOps_correct_and_minimal [of "[''x'']" "[''y'']"] by simp

text \<open>C34. Splitting a script into hunks hides no change: whatever the context, the insertions and
  deletions of the hunks are those of the script in order, no hunk is empty, and an unchanged
  line is shown exactly when a change lies within \<open>context\<close> lines of it.\<close>

theorem hunks_show_every_change:
  "filter (\<lambda>x. op_kind x \<noteq> opEqual) (concat (group ops context)) = filter (\<lambda>x. op_kind x \<noteq> opEqual) ops
    \<and> [] \<notin> set (group ops context)
    \<and> concat (group ops context) = map snd (filter (\<lambda>(j, x). \<exists>i<length ops.
        op_kind (ops ! i) \<noteq> opEqual \<and> i \<le> j + context \<and> j \<le> i + context) (enumerate 0 ops))"
  using group_changes hunks_nonempty group_shown by blast

text \<open>\<open>Unified\<close> is empty exactly when the two texts have the same lines, not only when they are
  identical: texts that differ in a final newline or in CR LF line endings have no diff.\<close>

theorem unified_empty_iff_same_lines:
  "Unified oldText newText oldLabel newLabel context = [] \<longleftrightarrow> splitLines oldText = splitLines newText"
proof -
  let ?ops = "lcsOps (splitLines oldText) (splitLines newText)"
  have sides: "old_side ?ops = splitLines oldText" "new_side ?ops = splitLines newText"
    by (simp_all add: lcsOps_def walk_sides)
  have k: "kept_lines ?ops = lcs (splitLines oldText) (splitLines newText)"
    unfolding lcsOps_def by (rule walk_kept) simp_all
  have "(\<forall>x\<in>set ?ops. op_kind x = opEqual) \<longleftrightarrow> splitLines oldText = splitLines newText"
  proof
    assume "splitLines oldText = splitLines newText"
    with k sides show "\<forall>x\<in>set ?ops. op_kind x = opEqual"
      by (intro kept_all) (simp_all add: lcs_self)
  qed (use all_equal_sides [of ?ops] sides in simp)
  then show ?thesis
    by (auto simp: Unified_def Let_def group_Nil)
qed

text \<open>\<open>Summarise\<close> counts the lines a minimal script adds and removes.\<close>

theorem summarise_counts:
  "Removed (Summarise oldText newText) + lcs (splitLines oldText) (splitLines newText) = length (splitLines oldText)
    \<and> Added (Summarise oldText newText) + lcs (splitLines oldText) (splitLines newText) = length (splitLines newText)"
proof -
  let ?ops = "lcsOps (splitLines oldText) (splitLines newText)"
  have "old_side ?ops = splitLines oldText" "new_side ?ops = splitLines newText"
    "kept_lines ?ops = lcs (splitLines oldText) (splitLines newText)"
    unfolding lcsOps_def by (simp_all add: walk_sides walk_kept)
  then show ?thesis
    using stat_fold [of 0 0 ?ops] length_sides [of ?ops] by (simp add: Summarise_def)
qed

end
