(* ===== verification/Linux.thy ===== *)
theory Linux
  imports Connector Base64 Shell Diff
begin

text \<open>
  The linux connector (\<open>internal/connectors/linux\<close>) and the SSH transport under it (\<open>internal/sshx\<close>).

  A remote host is not code of the repository.  What the connector sees of one is split in two.  The
  fixed part, \<open>site\<close>, is a parameter: host keys, accounts, home directories, permissions.  The part
  that changes, \<open>hosts\<close>, is the files and a schedule of what the network and the disks do next.  What
  a script does on such a host is written out from its text in \<open>host_exec\<close>; ownership, SELinux
  context and the mode of a new directory are left out.
\<close>

section \<open>Remote hosts\<close>

type_synonym endpoint = "string \<times> int"
type_synonym remote_file = "string \<times> string"   \<comment> \<open>content and mode\<close>

text \<open>One command: it runs; the connection breaks before it, or after it but before the reply; or the
  host confirms a change that does not last (a full disk, a read-only overlay).\<close>

datatype net_fault = NetFine | NetFails | NetLost | NetSilent

record hosts =
  hs_File :: "endpoint \<Rightarrow> string \<Rightarrow> remote_file option"
  hs_Net :: "net_fault list"

record site =
  st_HostKey :: "endpoint \<Rightarrow> string option"            \<comment> \<open>the key presented; \<open>None\<close>: nothing listens\<close>
  st_Fingerprint :: "string \<Rightarrow> string option"           \<comment> \<open>of the public half of a private key text\<close>
  st_Password :: "endpoint \<Rightarrow> string \<Rightarrow> string \<Rightarrow> bool"
  st_Pubkey :: "endpoint \<Rightarrow> string \<Rightarrow> bool"            \<comment> \<open>sshd accepts keys for the account\<close>
  st_KeyFile :: "endpoint \<Rightarrow> string \<Rightarrow> string"        \<comment> \<open>the account's AuthorizedKeysFile\<close>
  st_Home :: "endpoint \<Rightarrow> string \<Rightarrow> string option"
  st_May :: "endpoint \<Rightarrow> string \<Rightarrow> bool \<Rightarrow> string \<Rightarrow> bool"  \<comment> \<open>account, sudo, path\<close>

type_synonym 'a host_prog = "(hosts, 'a) prog"

definition next_fault :: "hosts \<Rightarrow> net_fault \<times> hosts" where
  "next_fault h = (case hs_Net h of [] \<Rightarrow> (NetFine, h) | f # fs \<Rightarrow> (f, h\<lparr>hs_Net := fs\<rparr>))"

section \<open>SSH (sshx.go)\<close>

record dial_options =
  dial_Address :: string
  dial_Port :: int
  dial_Username :: string
  dial_Password :: string
  dial_PrivateKey :: string
  dial_HostKeyPin :: string

record client =
  cl_Endpoint :: endpoint
  cl_User :: string
  cl_HostKeyPin :: string
  cl_HostKeyIsNew :: bool

record run_output =
  ru_Stdout :: string
  ru_Stderr :: string
  ru_ExitCode :: int

definition endpoint_of :: "string \<Rightarrow> int \<Rightarrow> endpoint" where
  "endpoint_of address port = (address, if port = 0 then 22 else port)"

text \<open>What sshd accepts: a key listed in the account's file, or the account's password.\<close>

definition file_keys :: "'p ssh_lib \<Rightarrow> hosts \<Rightarrow> endpoint \<Rightarrow> string \<Rightarrow> string set" where
  "file_keys L h ep path = (case hs_File h ep path of None \<Rightarrow> {}
     | Some (content, mode) \<Rightarrow> set (Fingerprints (ParseAuthorizedKeys L content)))"

definition accepts :: "'p ssh_lib \<Rightarrow> site \<Rightarrow> hosts \<Rightarrow> endpoint \<Rightarrow> dial_options \<Rightarrow> bool" where
  "accepts L S h ep d \<longleftrightarrow>
     (dial_PrivateKey d \<noteq> [] \<and> st_Pubkey S ep (dial_Username d)
        \<and> (case st_Fingerprint S (dial_PrivateKey d) of None \<Rightarrow> False
            | Some fp \<Rightarrow> fp \<in> file_keys L h ep (st_KeyFile S ep (dial_Username d))))
   \<or> (dial_Password d \<noteq> [] \<and> st_Password S ep (dial_Username d) (dial_Password d))"

definition authMethods :: "site \<Rightarrow> dial_options \<Rightarrow> unit result" where
  "authMethods S d =
     (if dial_PrivateKey d \<noteq> [] \<and> st_Fingerprint S (dial_PrivateKey d) = None
      then Inl (ErrOther ''sshx: parsing private key'')
      else if dial_PrivateKey d = [] \<and> dial_Password d = []
      then Inl (ErrOther ''sshx: no authentication method supplied'')
      else Inr ())"

definition checkHostKey :: "string \<Rightarrow> string \<Rightarrow> unit result" where
  "checkHostKey pin observed =
     (if pin = [] then Inr ()
      else if observed \<noteq> pin then Inl (ErrOther ''sshx: host key does not match the stored pin'') else Inr ())"

definition Dial :: "'p ssh_lib \<Rightarrow> site \<Rightarrow> dial_options \<Rightarrow> client host_prog" where
  "Dial L S d =
     (if dial_Address d = [] then fail (ErrOther ''sshx: address is required'')
      else if dial_Username d = [] then fail (ErrOther ''sshx: username is required'')
      else
        let ep = endpoint_of (dial_Address d) (dial_Port d) in
        andThen (lift (authMethods S d)) (\<lambda>_.
        andThen (\<lambda>h. (Inr (fst (next_fault h)), snd (next_fault h))) (\<lambda>f.
        if f = NetFails then fail (ErrOther ''sshx: connecting'') else
        case st_HostKey S ep of
          None \<Rightarrow> fail (ErrOther ''sshx: connecting'')
        | Some observed \<Rightarrow>
            andThen (lift (checkHostKey (dial_HostKeyPin d) observed)) (\<lambda>_.
            andThen (get (\<lambda>h. accepts L S h ep d)) (\<lambda>ok.
            if \<not> ok then fail (ErrOther ''sshx: SSH handshake'')
            else ret \<lparr>cl_Endpoint = ep, cl_User = dial_Username d, cl_HostKeyPin = observed,
                      cl_HostKeyIsNew = (dial_HostKeyPin d = [])\<rparr>)))))"

section \<open>What the scripts do\<close>

definition mk_output :: "string \<Rightarrow> string \<Rightarrow> int \<Rightarrow> run_output" where
  "mk_output out err code = \<lparr>ru_Stdout = out, ru_Stderr = err, ru_ExitCode = code\<rparr>"

definition validMode :: "string \<Rightarrow> bool" where
  "validMode mode \<longleftrightarrow> 3 \<le> length mode \<and> length mode \<le> 4
     \<and> list_all (\<lambda>c. CHR ''0'' \<le> c \<and> c \<le> CHR ''7'') mode"

definition set_file :: "endpoint \<Rightarrow> string \<Rightarrow> remote_file option \<Rightarrow> hosts \<Rightarrow> hosts" where
  "set_file ep path f h = h\<lparr>hs_File := (hs_File h)(ep := (hs_File h ep)(path := f))\<rparr>"

text \<open>The \<open>chmod\<close> of a mode that is not octal fails, and with it the script, before the rename.\<close>

fun host_exec :: "site \<Rightarrow> client \<Rightarrow> script \<Rightarrow> bool \<Rightarrow> string \<Rightarrow> hosts \<Rightarrow> run_output \<times> hosts" where
  "host_exec S c (ReadScript path) sudo stdin h =
     (case hs_File h (cl_Endpoint c) path of
        None \<Rightarrow> (mk_output (markerMissing @ [LF]) [] 0, h)
      | Some (content, mode) \<Rightarrow>
          if \<not> st_May S (cl_Endpoint c) (cl_User c) sudo path then (mk_output (markerExists @ [LF]) ''permission denied'' 1, h)
          else (mk_output (markerExists @ [LF] @ wrapped (EncodeToString content)) [] 0, h))"
| "host_exec S c (HomeScript user) sudo stdin h =
     (case st_Home S (cl_Endpoint c) user of
        None \<Rightarrow> (mk_output [] [] 4, h)
      | Some home \<Rightarrow> if home = [] then (mk_output [] [] 4, h) else (mk_output (home @ [LF]) [] 0, h))"
| "host_exec S c (WriteScript path user mode) sudo stdin h =
     (if \<not> st_May S (cl_Endpoint c) (cl_User c) sudo path then (mk_output [] ''permission denied'' 1, h)
      else case DecodeString stdin of
        None \<Rightarrow> (mk_output [] (markerNoBase64 @ [LF]) 3, h)
      | Some content \<Rightarrow>
          if \<not> validMode mode then (mk_output [] ''chmod: invalid mode'' 1, h)
          else (mk_output (markerOK @ [LF]) [] 0, set_file (cl_Endpoint c) path (Some (content, mode)) h))"
| "host_exec S c (RemoveScript path) sudo stdin h =
     (if \<not> st_May S (cl_Endpoint c) (cl_User c) sudo path then (mk_output [] ''permission denied'' 1, h)
      else (mk_output (markerOK @ [LF]) [] 0, set_file (cl_Endpoint c) path None h))"
| "host_exec S c (PlainCommand cmd) sudo stdin h = (mk_output [] [] 0, h)"

text \<open>\<open>Client.Run\<close> and \<open>RunInput\<close>: only a transport failure is an error, an exit code is a value.\<close>

definition RunInput :: "site \<Rightarrow> client \<Rightarrow> script \<Rightarrow> bool \<Rightarrow> string \<Rightarrow> run_output host_prog" where
  "RunInput S c s sudo stdin = (\<lambda>h.
     let (f, h1) = next_fault h; (out, h2) = host_exec S c s sudo stdin h1 in
     case f of NetFine \<Rightarrow> (Inr out, h2)
             | NetFails \<Rightarrow> (Inl (ErrOther ''sshx: running command''), h1)
             | NetLost \<Rightarrow> (Inl (ErrOther ''sshx: running command''), h2)
             | NetSilent \<Rightarrow> (Inr out, h1))"

definition Run :: "site \<Rightarrow> client \<Rightarrow> script \<Rightarrow> bool \<Rightarrow> run_output host_prog" where
  "Run S c s sudo = RunInput S c s sudo []"

section \<open>The connector (linux.go)\<close>

definition linux_Capabilities :: capabilities where
  "linux_Capabilities = \<lparr>CanList = True, CanSnapshot = True, CanRestore = True, CanVerify = True, SingleKey = False\<rparr>"

definition Validate :: "connTarget \<Rightarrow> unit result" where
  "Validate t =
     (if trim_space (ct_Address t) = [] then Inl (ErrOther ''linux: target has no address'')
      else if ct_Port t < 0 \<or> ct_Port t > 65535 then Inl (ErrOther ''linux: target has an invalid port'')
      else if \<not> validMode (ConfigString t ''file_mode'' ''600'') then Inl (ErrOther ''linux: target has an invalid file_mode'')
      else Inr ())"

definition linux_connect :: "'p ssh_lib \<Rightarrow> site \<Rightarrow> request \<Rightarrow> client host_prog" where
  "linux_connect L S rq =
     (let username = (if cd_Username (rq_Credential rq) = [] then cp_Username (rq_Principal rq)
                      else cd_Username (rq_Credential rq)) in
      Dial L S \<lparr>dial_Address = ct_Address (rq_Target rq), dial_Port = ct_Port (rq_Target rq),
        dial_Username = username, dial_Password = cd_Password (rq_Credential rq),
        dial_PrivateKey = cd_PrivateKey (rq_Credential rq), dial_HostKeyPin = ct_HostKeyPin (rq_Target rq)\<rparr>)"

text \<open>\<open>path.Join\<close> of Go: join the non-empty elements with slashes, then \<open>Clean\<close>.\<close>

fun clean_parts :: "bool \<Rightarrow> string list \<Rightarrow> string list \<Rightarrow> string list" where
  "clean_parts rooted acc [] = rev acc"
| "clean_parts rooted acc (p # ps) =
     (if p = [] \<or> p = ''.'' then clean_parts rooted acc ps
      else if p = ''..'' then
        (if acc \<noteq> [] \<and> hd acc \<noteq> ''..'' then clean_parts rooted (tl acc) ps
         else if rooted then clean_parts rooted acc ps
         else clean_parts rooted (p # acc) ps)
      else clean_parts rooted (p # acc) ps)"

definition path_Clean :: "string \<Rightarrow> string" where
  "path_Clean p = (let rooted = (p \<noteq> [] \<and> hd p = CHR ''/'');
       q = (if rooted then ''/'' else []) @ join_with ''/'' (clean_parts rooted [] (split_on (CHR ''/'') p))
     in if q = [] then ''.'' else q)"

definition path_Join :: "string list \<Rightarrow> string" where
  "path_Join parts = (let ps = filter (\<lambda>p. p \<noteq> []) parts in if ps = [] then [] else path_Clean (join_with ''/'' ps))"

definition configuredPath :: "request \<Rightarrow> string option" where
  "configuredPath rq =
     (let p = trim_space (cp_AuthorizedKeysPath (rq_Principal rq)); q = ConfigString (rq_Target rq) ''authorized_keys_path'' [] in
      if p \<noteq> [] then Some p else if q \<noteq> [] then Some q else None)"

definition resolvePath :: "site \<Rightarrow> client \<Rightarrow> request \<Rightarrow> string host_prog" where
  "resolvePath S c rq = (case configuredPath rq of
       Some p \<Rightarrow> ret p
     | None \<Rightarrow>
         andThen (Run S c (HomeScript (cp_Username (rq_Principal rq))) (cp_UseSudo (rq_Principal rq))) (\<lambda>out.
         if ru_ExitCode out \<noteq> 0 then fail (ErrOther ''linux: cannot resolve home directory'') else
         let home = trim_space (ru_Stdout out) in
         if home = [] then fail (ErrOther ''linux: user has no home directory'')
         else ret (path_Join [home, ''.ssh'', ''authorized_keys''])))"

definition decodeBase64 :: "string \<Rightarrow> string option" where
  "decodeBase64 s = (let b = filter (\<lambda>c. c \<notin> {LF, CR, CHR 0x20, CHR 0x09}) s in
     if b = [] then Some [] else DecodeString b)"

text \<open>\<open>sha\<close> is the printed SHA-256 of a byte string, of \<open>crypto/sha256\<close>.\<close>

definition no_file :: "(string \<Rightarrow> string) \<Rightarrow> snapshot" where
  "no_file sha = \<lparr>sn_Kind = ''authorized_keys'', sn_Content = [], sn_Checksum = sha [], sn_KeyCount = 0, sn_Existed = False\<rparr>"

definition file_snapshot :: "'p ssh_lib \<Rightarrow> (string \<Rightarrow> string) \<Rightarrow> string \<Rightarrow> nat \<Rightarrow> snapshot" where
  "file_snapshot L sha content n = \<lparr>sn_Kind = ''authorized_keys'', sn_Content = content, sn_Checksum = sha content,
     sn_KeyCount = n, sn_Existed = True\<rparr>"

definition parse_read :: "'p ssh_lib \<Rightarrow> (string \<Rightarrow> string) \<Rightarrow> run_output \<Rightarrow> snapshot result" where
  "parse_read L sha out =
     (if ru_ExitCode out \<noteq> 0 then Inl (ErrOther ''linux: reading failed'') else
      case cut LF (ru_Stdout out) of (marker, body, _) \<Rightarrow>
        if trim_space marker = markerMissing then Inr (no_file sha)
        else if trim_space marker \<noteq> markerExists then Inl (ErrOther ''linux: unexpected response reading'')
        else (case decodeBase64 body of
                None \<Rightarrow> Inl (ErrOther ''linux: decoding'')
              | Some content \<Rightarrow> Inr (file_snapshot L sha content (Count (ParseAuthorizedKeys L content)))))"

definition readPath :: "'p ssh_lib \<Rightarrow> (string \<Rightarrow> string) \<Rightarrow> site \<Rightarrow> client \<Rightarrow> request \<Rightarrow> string \<Rightarrow> snapshot host_prog" where
  "readPath L sha S c rq path =
     andThen (Run S c (ReadScript path) (cp_UseSudo (rq_Principal rq))) (\<lambda>out. lift (parse_read L sha out))"

definition contains :: "string \<Rightarrow> string \<Rightarrow> bool" where
  "contains s sub = list_ex (\<lambda>t. prefix sub t) (suffixes s)"

definition linux_write :: "site \<Rightarrow> client \<Rightarrow> request \<Rightarrow> string \<Rightarrow> string \<Rightarrow> unit host_prog" where
  "linux_write S c rq path content =
     (let mode = ConfigString (rq_Target rq) ''file_mode'' ''600'' in
      andThen (RunInput S c (WriteScript path (cp_Username (rq_Principal rq)) mode) (cp_UseSudo (rq_Principal rq))
                 (EncodeToString content)) (\<lambda>out.
      if contains (ru_Stderr out) markerNoBase64 then fail (ErrOther ''linux: no usable base64 decoder'')
      else if ru_ExitCode out \<noteq> 0 then fail (ErrOther ''linux: writing failed'')
      else if \<not> contains (ru_Stdout out) markerOK then fail (ErrOther ''linux: writing did not confirm success'')
      else ret ()))"

definition linux_Snapshot :: "'p ssh_lib \<Rightarrow> (string \<Rightarrow> string) \<Rightarrow> site \<Rightarrow> request \<Rightarrow> snapshot host_prog" where
  "linux_Snapshot L sha S rq =
     andThen (linux_connect L S rq) (\<lambda>c.
     andThen (resolvePath S c rq) (\<lambda>path.
     readPath L sha S c rq path))"

definition linux_List :: "'p ssh_lib \<Rightarrow> (string \<Rightarrow> string) \<Rightarrow> site \<Rightarrow> request \<Rightarrow> 'p entry list host_prog" where
  "linux_List L sha S rq =
     andThen (linux_Snapshot L sha S rq) (\<lambda>snap. ret (Keys (ParseAuthorizedKeys L (sn_Content snap))))"

definition linux_Restore :: "'p ssh_lib \<Rightarrow> (string \<Rightarrow> string) \<Rightarrow> site \<Rightarrow> request \<Rightarrow> snapshot \<Rightarrow> unit host_prog" where
  "linux_Restore L sha S rq snap =
     (if sn_Checksum snap \<noteq> [] \<and> sha (sn_Content snap) \<noteq> sn_Checksum snap
      then fail (ErrOther ''linux: snapshot checksum mismatch'') else
      andThen (linux_connect L S rq) (\<lambda>c.
      andThen (resolvePath S c rq) (\<lambda>path.
      if \<not> sn_Existed snap then
        andThen (Run S c (RemoveScript path) (cp_UseSudo (rq_Principal rq))) (\<lambda>out.
        if ru_ExitCode out \<noteq> 0 then fail (ErrOther ''linux: removing failed'') else ret ())
      else linux_write S c rq path (sn_Content snap))))"

definition linux_Verify :: "'p ssh_lib \<Rightarrow> site \<Rightarrow> request \<Rightarrow> string \<Rightarrow> unit host_prog" where
  "linux_Verify L S rq privateKey =
     (if privateKey = [] then fail (ErrOther ''linux: no private key supplied to verify'') else
      andThen (Dial L S \<lparr>dial_Address = ct_Address (rq_Target rq), dial_Port = ct_Port (rq_Target rq),
        dial_Username = cp_Username (rq_Principal rq), dial_Password = [], dial_PrivateKey = privateKey,
        dial_HostKeyPin = ct_HostKeyPin (rq_Target rq)\<rparr>) (\<lambda>c.
      andThen (Run S c (PlainCommand []) False) (\<lambda>_. ret ())))"

text \<open>\<open>Probe\<close> runs two commands for its details and ignores what becomes of them.\<close>

definition probe_connected :: "site \<Rightarrow> client \<Rightarrow> probe_result host_prog" where
  "probe_connected S c =
     andThen (attempt (Run S c (PlainCommand ''uname -sr 2>/dev/null || true'') False)) (\<lambda>_.
     andThen (attempt (Run S c (PlainCommand ''id -un 2>/dev/null || true'') False)) (\<lambda>_.
     ret \<lparr>pr_Reachable = True, pr_HostKeyPin = cl_HostKeyPin c, pr_HostKeyIsNew = cl_HostKeyIsNew c,
          pr_Message = ''reachable''\<rparr>))"

definition linux_Probe :: "'p ssh_lib \<Rightarrow> site \<Rightarrow> request \<Rightarrow> hosts \<Rightarrow> (probe_result option \<times> gerror option) \<times> hosts" where
  "linux_Probe L S rq h = (case linux_connect L S rq h of
       (Inl e, h') \<Rightarrow> ((Some \<lparr>pr_Reachable = False, pr_HostKeyPin = [], pr_HostKeyIsNew = False,
                          pr_Message = err_text e\<rparr>, Some e), h')
     | (Inr c, h') \<Rightarrow> (case probe_connected S c h' of
         (Inl e, h'') \<Rightarrow> ((None, Some e), h'')
       | (Inr r, h'') \<Rightarrow> ((Some r, None), h'')))"

subsection \<open>Apply\<close>

text \<open>The desired keys, in order; the list of those that changed the file.\<close>

fun upsert_all :: "'p ssh_lib \<Rightarrow> desired_key list \<Rightarrow> 'p authorized_keys \<times> string list \<Rightarrow>
    ('p authorized_keys \<times> string list) result" where
  "upsert_all L [] acc = Inr acc"
| "upsert_all L (d # ds) (ak, added) =
     bindR (NewEntry L (dk_PublicLine d) (dk_Options d)) (\<lambda>e.
     if dk_Fingerprint d \<noteq> [] \<and> e_Fingerprint e \<noteq> dk_Fingerprint d
     then Inl (ErrOther ''linux: key material does not match its recorded fingerprint'')
     else (case Upsert ak e of (ak', changed) \<Rightarrow>
       upsert_all L ds (ak', if changed then added @ [e_Fingerprint e] else added)))"

text \<open>One entry of the listing taken before the loop.\<close>

definition prunable :: "desired_key list \<Rightarrow> apply_options \<Rightarrow> string \<Rightarrow> bool" where
  "prunable desired opts fp \<longleftrightarrow> fp \<notin> set (map dk_Fingerprint desired)
     \<and> \<not> (ao_PreserveUnmanaged opts \<and> fp \<notin> set (ao_ManagedFingerprints opts))"

fun prune_all :: "(string \<Rightarrow> bool) \<Rightarrow> string list \<Rightarrow> 'p authorized_keys \<times> string list \<Rightarrow> 'p authorized_keys \<times> string list" where
  "prune_all P [] acc = acc"
| "prune_all P (fp # fps) (ak, removed) =
     (if \<not> P fp then prune_all P fps (ak, removed)
      else (case Remove ak fp of (ak', hit) \<Rightarrow> prune_all P fps (ak', if hit then removed @ [fp] else removed)))"

text \<open>The new file, what was added and what was removed.\<close>

definition plan_file :: "'p ssh_lib \<Rightarrow> desired_key list \<Rightarrow> apply_options \<Rightarrow> 'p authorized_keys \<Rightarrow>
    ('p authorized_keys \<times> string list \<times> string list) result" where
  "plan_file L desired opts ak0 =
     bindR (upsert_all L desired (ak0, [])) (\<lambda>(ak1, added).
     if ao_Prune opts
     then (case prune_all (prunable desired opts) (map e_Fingerprint (Keys ak1)) (ak1, []) of
             (ak2, removed) \<Rightarrow> Inr (ak2, added, removed))
     else Inr (ak1, added, []))"

definition planned_result :: "'p ssh_lib \<Rightarrow> (string \<Rightarrow> string) \<Rightarrow> string \<Rightarrow> apply_options \<Rightarrow> snapshot \<Rightarrow>
    'p authorized_keys \<Rightarrow> string list \<Rightarrow> string list \<Rightarrow> apply_result" where
  "planned_result L sha path opts before ak added removed =
     (let after = Bytes L ak in
      \<lparr>ar_Changed = (sn_Content before \<noteq> after), ar_Added = added, ar_Removed = removed,
       ar_Diff = Unified (sn_Content before) after (path @ '' (before)'') (path @ '' (after)'') 3,
       ar_Before = Some before, ar_After = Some (file_snapshot L sha after (Count ak)),
       ar_DryRun = ao_DryRun opts, ar_Warnings = []\<rparr>)"

text \<open>Writing and reading back.  The result is returned beside an error from here on.\<close>

definition write_and_check :: "'p ssh_lib \<Rightarrow> (string \<Rightarrow> string) \<Rightarrow> site \<Rightarrow> client \<Rightarrow> request \<Rightarrow> string \<Rightarrow> string \<Rightarrow> unit host_prog" where
  "write_and_check L sha S c rq path content =
     andThen (linux_write S c rq path content) (\<lambda>_.
     andThen (readPath L sha S c rq path) (\<lambda>back.
     if sn_Checksum back \<noteq> sha content then fail (ErrOther ''linux: does not match what was written'') else ret ()))"

definition finish_apply :: "'p ssh_lib \<Rightarrow> (string \<Rightarrow> string) \<Rightarrow> site \<Rightarrow> client \<Rightarrow> request \<Rightarrow> apply_options \<Rightarrow> string \<Rightarrow>
    snapshot \<Rightarrow> 'p authorized_keys \<times> string list \<times> string list \<Rightarrow> (apply_result \<times> gerror option) host_prog" where
  "finish_apply L sha S c rq opts path before = (\<lambda>(ak, added, removed).
     let result = planned_result L sha path opts before ak added removed in
     if Count ak = 0 \<and> \<not> ao_AllowEmpty opts then ret (result, Some ErrWouldLockOut)
     else if \<not> ar_Changed result then ret (result, None)
     else if ao_DryRun opts then ret (result, None)
     else (\<lambda>h. case write_and_check L sha S c rq path (Bytes L ak) h of
            (Inl e, h') \<Rightarrow> (Inr (result, Some e), h') | (Inr _, h') \<Rightarrow> (Inr (result, None), h')))"

definition apply_steps :: "'p ssh_lib \<Rightarrow> (string \<Rightarrow> string) \<Rightarrow> site \<Rightarrow> request \<Rightarrow> desired_key list \<Rightarrow> apply_options \<Rightarrow>
    (apply_result \<times> gerror option) host_prog" where
  "apply_steps L sha S rq desired opts =
     andThen (linux_connect L S rq) (\<lambda>c.
     andThen (resolvePath S c rq) (\<lambda>path.
     andThen (readPath L sha S c rq path) (\<lambda>before.
     andThen (lift (plan_file L desired opts (ParseAuthorizedKeys L (sn_Content before))))
       (finish_apply L sha S c rq opts path before))))"

definition linux_Apply :: "'p ssh_lib \<Rightarrow> (string \<Rightarrow> string) \<Rightarrow> site \<Rightarrow> request \<Rightarrow> desired_key list \<Rightarrow> apply_options \<Rightarrow>
    hosts \<Rightarrow> (apply_result option \<times> gerror option) \<times> hosts" where
  "linux_Apply L sha S rq desired opts h = (case apply_steps L sha S rq desired opts h of
       (Inl e, h') \<Rightarrow> ((None, Some e), h') | (Inr (result, err), h') \<Rightarrow> ((Some result, err), h'))"

definition linux :: "'p ssh_lib \<Rightarrow> (string \<Rightarrow> string) \<Rightarrow> site \<Rightarrow> (hosts, 'p) connector" where
  "linux L sha S = \<lparr>cn_Capabilities = linux_Capabilities, cn_TargetCapabilities = None, cn_Probe = linux_Probe L S,
     cn_List = linux_List L sha S, cn_Apply = linux_Apply L sha S, cn_Snapshot = linux_Snapshot L sha S,
     cn_Restore = linux_Restore L sha S, cn_Verify = linux_Verify L S\<rparr>"

end
