(* ===== verification/LinuxSafety.thy ===== *)
theory LinuxSafety
  imports Linux
begin

text \<open>
  The linux connector keeps the contract of \<open>key_connector\<close>, for every SSH library, site, network
  schedule and file: reading changes nothing and returns the file byte for byte, a write replaces one
  file by one that reads back as planned, and what is planned loses only managed keys that are no
  longer desired.
\<close>

section \<open>Reading\<close>

abbreviation files_are :: "(endpoint \<Rightarrow> string \<Rightarrow> remote_file option) \<Rightarrow> hosts \<Rightarrow> bool" where
  "files_are F h \<equiv> hs_File h = F"

named_theorems reads "programs that leave every remote file alone"

fun changes_nothing :: "script \<Rightarrow> bool" where
  "changes_nothing (WriteScript path user mode) = False"
| "changes_nothing (RemoveScript path) = False"
| "changes_nothing _ = True"

lemma next_fault_files [simp]: "hs_File (snd (next_fault h)) = hs_File h"
  by (simp add: next_fault_def split: list.split)

lemma host_exec_reads: "changes_nothing s \<Longrightarrow> snd (host_exec S c s sudo stdin h) = h"
  by (cases s) (auto split: option.split)

lemma RunInput_reads [reads]: "changes_nothing s \<Longrightarrow> keeps (files_are F) (RunInput S c s sudo stdin)"
  using host_exec_reads [of s S c sudo stdin]
  by (auto simp: upholds_def RunInput_def Let_def split: prod.split net_fault.split)
    (metis next_fault_files snd_conv)+

lemma Run_reads [reads]: "changes_nothing s \<Longrightarrow> keeps (files_are F) (Run S c s sudo)"
  unfolding Run_def by (rule RunInput_reads)

lemma Dial_reads [reads]: "keeps (files_are F) (Dial L S d)"
  unfolding Dial_def Let_def
  by (intro keeps_intros) (auto simp: upholds_def)

lemma connect_reads [reads]: "keeps (files_are F) (linux_connect L S rq)"
  unfolding linux_connect_def Let_def by (rule Dial_reads)

lemma resolvePath_reads [reads]: "keeps (files_are F) (resolvePath S c rq)"
  unfolding resolvePath_def Let_def by (intro keeps_intros reads) simp

lemma readPath_reads [reads]: "keeps (files_are F) (readPath L sha S c rq path)"
  unfolding readPath_def by (intro keeps_intros reads) simp

lemma Snapshot_reads [reads]: "keeps (files_are F) (linux_Snapshot L sha S rq)"
  unfolding linux_Snapshot_def by (intro keeps_intros reads)

lemma List_reads [reads]: "keeps (files_are F) (linux_List L sha S rq)"
  unfolding linux_List_def by (intro keeps_intros reads)

lemma Verify_reads [reads]: "keeps (files_are F) (linux_Verify L S rq pk)"
  unfolding linux_Verify_def by (intro keeps_intros reads) simp

lemma probe_connected_reads [reads]: "keeps (files_are F) (probe_connected S c)"
  unfolding probe_connected_def by (intro keeps_intros reads) simp_all

lemma Probe_reads: "hs_File (snd (linux_Probe L S rq h)) = hs_File h"
proof -
  obtain r h1 where c: "linux_connect L S rq h = (r, h1)" by (cases "linux_connect L S rq h")
  have h1: "hs_File h1 = hs_File h" using keepsD [OF connect_reads c] by simp
  show ?thesis
  proof (cases r)
    case (Inr cl)
    obtain r2 h2 where p: "probe_connected S cl h1 = (r2, h2)" by (cases "probe_connected S cl h1")
    have "hs_File h2 = hs_File h" using keepsD [OF probe_connected_reads p] h1 by simp
    then show ?thesis by (simp add: linux_Probe_def c Inr p split: sum.split)
  qed (simp add: linux_Probe_def c h1)
qed

text \<open>What a read returns is the file.\<close>

definition snapshot_of :: "'p ssh_lib \<Rightarrow> (string \<Rightarrow> string) \<Rightarrow> remote_file option \<Rightarrow> snapshot" where
  "snapshot_of L sha f = (case f of None \<Rightarrow> no_file sha
     | Some (content, mode) \<Rightarrow> file_snapshot L sha content (Count (ParseAuthorizedKeys L content)))"

lemma marker_trims: "trim_space markerExists = markerExists" "trim_space markerMissing = markerMissing"
    "markerExists \<noteq> markerMissing" "LF \<notin> set markerExists" "LF \<notin> set markerMissing"
  by code_simp+

lemma cut_line: "LF \<notin> set a \<Longrightarrow> cut LF (a @ LF # b) = (a, b, True)"
  by (induction a) auto

lemma encode_Nil_iff: "EncodeToString s = [] \<longleftrightarrow> s = []"
  by (cases s rule: EncodeToString.cases) simp_all

lemma decodeBase64_wrapped: "decodeBase64 (wrapped (EncodeToString s)) = Some s"
proof -
  have "filter (\<lambda>c. c \<notin> {LF, CR, CHR 0x20, CHR 0x09}) (EncodeToString s) = EncodeToString s"
    using encode_no_space [of s] by (intro filter_True) auto
  then have "filter (\<lambda>c. c \<notin> {LF, CR, CHR 0x20, CHR 0x09}) (wrapped (EncodeToString s)) = EncodeToString s"
    by (simp add: filter_wrapped)
  then show ?thesis by (auto simp: decodeBase64_def decode_encode encode_Nil_iff Let_def)
qed

lemma parse_read_host:
  "parse_read L sha (fst (host_exec S c (ReadScript path) sudo stdin h)) = Inr snap \<Longrightarrow>
     snap = snapshot_of L sha (hs_File h (cl_Endpoint c) path)"
  by (auto simp: parse_read_def snapshot_of_def mk_output_def cut_line marker_trims decodeBase64_wrapped
      split: option.splits prod.splits if_splits)

lemma readPath_result:
  assumes "files_are F h"
  shows "wlp (readPath L sha S c rq path) (\<lambda>snap h'. snap = snapshot_of L sha (F (cl_Endpoint c) path) \<and> files_are F h') h"
proof -
  have "wlp (readPath L sha S c rq path) (\<lambda>snap _. snap = snapshot_of L sha (F (cl_Endpoint c) path)) h"
    unfolding readPath_def Run_def RunInput_def Let_def
    using assms parse_read_host [of L sha S c path "cp_UseSudo (rq_Principal rq)" "[]" "snd (next_fault h)"]
    by (auto simp: wlp_def andThen_def lift_def split: prod.splits sum.splits net_fault.splits)
      (metis fst_conv next_fault_files snd_conv)+
  from wlp_keeps [OF readPath_reads assms this] show ?thesis .
qed

section \<open>Where the keys of a login live\<close>

definition key_path :: "site \<Rightarrow> connTarget \<Rightarrow> connPrincipal \<Rightarrow> string option" where
  "key_path S t p = (let rq = \<lparr>rq_Target = t, rq_Principal = p,
       rq_Credential = \<lparr>cd_Kind = CredOther, cd_Username = [], cd_Password = [], cd_PrivateKey = [], cd_Token = []\<rparr>\<rparr> in
     case configuredPath rq of
       Some path \<Rightarrow> Some path
     | None \<Rightarrow> (case st_Home S (endpoint_of (ct_Address t) (ct_Port t)) (cp_Username p) of
         None \<Rightarrow> None
       | Some home \<Rightarrow> if trim_space (home @ [LF]) = [] then None
           else Some (path_Join [trim_space (home @ [LF]), ''.ssh'', ''authorized_keys''])))"

type_synonym linux_login = "endpoint \<times> string option"

definition linux_login :: "site \<Rightarrow> connTarget \<Rightarrow> connPrincipal \<Rightarrow> linux_login" where
  "linux_login S t p = (endpoint_of (ct_Address t) (ct_Port t), key_path S t p)"

definition linux_held :: "'p ssh_lib \<Rightarrow> hosts \<Rightarrow> linux_login \<Rightarrow> string set" where
  "linux_held L h l = (case snd l of None \<Rightarrow> {} | Some path \<Rightarrow> file_keys L h (fst l) path)"

definition linux_good :: "'p ssh_lib \<Rightarrow> desired_key \<Rightarrow> bool" where
  "linux_good L d \<longleftrightarrow> (case NewEntry L (dk_PublicLine d) (dk_Options d) of Inl _ \<Rightarrow> True | Inr e \<Rightarrow> stable_line L e)"

lemma linux_held_cong: "hs_File h' = hs_File h \<Longrightarrow> linux_held L h' l = linux_held L h l"
  by (simp add: linux_held_def file_keys_def split: option.split)

lemma connect_endpoint:
  "wlp (linux_connect L S rq) (\<lambda>c _. cl_Endpoint c = endpoint_of (ct_Address (rq_Target rq)) (ct_Port (rq_Target rq))) h"
  unfolding linux_connect_def Dial_def Let_def
  by (auto simp: wlp_def prog_simps split: prod.splits sum.splits option.splits if_splits)

lemma resolvePath_result:
  assumes "cl_Endpoint c = endpoint_of (ct_Address (rq_Target rq)) (ct_Port (rq_Target rq))"
  shows "wlp (resolvePath S c rq) (\<lambda>path _. key_path S (rq_Target rq) (rq_Principal rq) = Some path) h"
proof -
  have cp: "configuredPath rq = configuredPath (\<lparr>rq_Target = rq_Target rq, rq_Principal = rq_Principal rq, rq_Credential = x\<rparr>)" for x
    by (simp add: configuredPath_def)
  show ?thesis
    unfolding resolvePath_def Run_def RunInput_def key_path_def Let_def cp [symmetric]
    using assms
    by (auto simp: wlp_def andThen_def ret_def fail_def mk_output_def split: prod.splits sum.splits option.splits net_fault.splits if_splits)
qed

section \<open>What is planned\<close>

lemma entries_Upsert: "set (Entries (fst (Upsert ak e))) \<subseteq> insert (e\<lparr>e_dirty := True\<rparr>) (set (Entries ak))"
  using set_update_subset_insert [of "Entries ak"]
  by (auto simp: Upsert_def Let_def split: option.split)

lemma entries_Remove: "set (Entries (fst (Remove ak fp))) \<subseteq> set (Entries ak)"
  by (auto simp: Remove_def split: option.split dest: in_set_takeD in_set_dropD)

definition stable_file :: "'p ssh_lib \<Rightarrow> 'p authorized_keys \<Rightarrow> bool" where
  "stable_file L ak \<longleftrightarrow> (\<forall>e\<in>set (Entries ak). stable_line L e)"

lemma NewEntry_shape:
  assumes "NewEntry L line os = Inr e"
  shows "e_Kind e = EntryKey" "e\<lparr>e_dirty := True\<rparr> = e"
  using assms by (auto simp: NewEntry_def Let_def split: option.splits)

lemma upsert_all_grows:
  assumes "upsert_all L ds (ak, added) = Inr (ak', added')" and "\<forall>d\<in>set ds. linux_good L d" and "stable_file L ak"
  shows "set (Fingerprints ak) \<subseteq> set (Fingerprints ak') \<and> stable_file L ak'"
  using assms
proof (induction ds arbitrary: ak added)
  case (Cons d ds)
  from Cons.prems(1) obtain e where e: "NewEntry L (dk_PublicLine d) (dk_Options d) = Inr e"
    and rest: "upsert_all L ds (fst (Upsert ak e), if snd (Upsert ak e) then added @ [e_Fingerprint e] else added) = Inr (ak', added')"
    by (auto split: if_splits prod.splits)
  have "stable_line L e" using Cons.prems(2) e by (simp add: linux_good_def)
  then have "stable_file L (fst (Upsert ak e))"
    using entries_Upsert [of ak e] Cons.prems(3) NewEntry_shape(2) [OF e] by (auto simp: stable_file_def)
  with Cons.IH [OF rest] Cons.prems(2) have "set (Fingerprints (fst (Upsert ak e))) \<subseteq> set (Fingerprints ak')" "stable_file L ak'"
    by auto
  then show ?case by (auto simp: Fingerprints_Upsert split: if_splits)
qed simp

lemma prune_all_keeps:
  "prune_all P fps (ak, removed) = (ak', removed') \<Longrightarrow> stable_file L ak \<Longrightarrow>
     {fp \<in> set (Fingerprints ak). \<not> P fp} \<subseteq> set (Fingerprints ak') \<and> stable_file L ak'"
proof (induction fps arbitrary: ak removed)
  case (Cons fp fps)
  show ?case
  proof (cases "P fp")
    case True
    let ?ak = "fst (Remove ak fp)"
    have "stable_file L ?ak" using entries_Remove [of ak fp] Cons.prems(2) by (auto simp: stable_file_def)
    moreover have "prune_all P fps (?ak, if snd (Remove ak fp) then removed @ [fp] else removed) = (ak', removed')"
      using Cons.prems(1) True by (simp add: split_beta)
    ultimately have "{x \<in> set (Fingerprints ?ak). \<not> P x} \<subseteq> set (Fingerprints ak')" "stable_file L ak'"
      using Cons.IH by blast+
    moreover have "x \<in> set (remove1 fp xs)" if "x \<in> set xs" "\<not> P x" for x xs
      using that True by (metis in_set_remove1)
    ultimately show ?thesis by (auto simp: Fingerprints_Remove)
  next
    case False
    with Cons show ?thesis by simp
  qed
qed simp

lemma parsed_stable: "stable_file L (ParseAuthorizedKeys L data)"
proof -
  have *: "LF \<notin> set s \<Longrightarrow> stable_line L (parseLine L s)" for s
    by (simp add: stable_line_def)
  show ?thesis
    by (auto simp: stable_file_def ParseAuthorizedKeys_def intro!: * dest: split_no_sep_mem)
qed

lemma plan_file_split:
  assumes "plan_file L ds opts ak0 = Inr (ak, added, removed)"
  obtains ak1 where "upsert_all L ds (ak0, []) = Inr (ak1, added)"
    and "if ao_Prune opts then prune_all (prunable ds opts) (map e_Fingerprint (Keys ak1)) (ak1, []) = (ak, removed)
        else ak = ak1 \<and> removed = []"
  using assms by (auto simp: plan_file_def split: if_splits prod.splits)

lemma plan_file_written:
  assumes "plan_file L ds opts (ParseAuthorizedKeys L data) = Inr (ak, added, removed)"
    and "\<forall>d\<in>set ds. linux_good L d"
  shows "Fingerprints (ParseAuthorizedKeys L (Bytes L ak)) = Fingerprints ak"
    and "set (Fingerprints (ParseAuthorizedKeys L data)) \<inter> {fp. if ao_Prune opts then \<not> prunable ds opts fp else True}
      \<subseteq> set (Fingerprints ak)"
proof -
  obtain ak1 where u: "upsert_all L ds (ParseAuthorizedKeys L data, []) = Inr (ak1, added)"
    and p: "if ao_Prune opts then prune_all (prunable ds opts) (map e_Fingerprint (Keys ak1)) (ak1, []) = (ak, removed)
        else ak = ak1 \<and> removed = []"
    using assms(1) by (rule plan_file_split)
  have 1: "set (Fingerprints (ParseAuthorizedKeys L data)) \<subseteq> set (Fingerprints ak1)" "stable_file L ak1"
    using upsert_all_grows [OF u assms(2) parsed_stable] by auto
  have 2: "{fp \<in> set (Fingerprints ak1). if ao_Prune opts then \<not> prunable ds opts fp else True} \<subseteq> set (Fingerprints ak)"
      "stable_file L ak"
    using p prune_all_keeps [of "prunable ds opts" _ ak1 "[]" ak removed L] 1(2) by (auto split: if_splits)
  show "Fingerprints (ParseAuthorizedKeys L (Bytes L ak)) = Fingerprints ak"
    using 2(2) by (intro fingerprints_written) (simp add: stable_file_def)
  show "set (Fingerprints (ParseAuthorizedKeys L data)) \<inter> {fp. if ao_Prune opts then \<not> prunable ds opts fp else True}
      \<subseteq> set (Fingerprints ak)"
    using 1(1) 2(1) by auto
qed

lemma plan_file_keeps:
  assumes "plan_file L ds opts (ParseAuthorizedKeys L data) = Inr (ak, added, removed)"
    and "\<forall>d\<in>set ds. linux_good L d" and "ao_PreserveUnmanaged opts"
  shows "set (Fingerprints (ParseAuthorizedKeys L data))
      - (if ao_Prune opts then set (ao_ManagedFingerprints opts) - set (map dk_Fingerprint ds) else {})
      \<subseteq> set (Fingerprints (ParseAuthorizedKeys L (Bytes L ak)))"
  using plan_file_written [OF assms(1,2)] assms(3) by (auto simp: prunable_def)

section \<open>Writing\<close>

lemma linux_write_effect:
  assumes "files_are F h"
  shows "hs_File (snd (linux_write S c rq path content h)) = F
    \<or> (\<exists>mode. validMode mode \<and> hs_File (snd (linux_write S c rq path content h))
         = F(cl_Endpoint c := (F (cl_Endpoint c))(path := Some (content, mode))))"
  using assms next_fault_files [of h]
  by (auto simp: linux_write_def RunInput_def andThen_def ret_def fail_def mk_output_def decode_encode set_file_def Let_def
      split: prod.splits net_fault.splits simp del: next_fault_files)

lemma write_and_check_effect:
  assumes "files_are F h"
  shows "hs_File (snd (write_and_check L sha S c rq path content h)) = F
    \<or> (\<exists>mode. validMode mode \<and> hs_File (snd (write_and_check L sha S c rq path content h))
         = F(cl_Endpoint c := (F (cl_Endpoint c))(path := Some (content, mode))))"
proof -
  obtain r h1 where w: "linux_write S c rq path content h = (r, h1)" by (cases "linux_write S c rq path content h")
  have "hs_File (snd (write_and_check L sha S c rq path content h)) = hs_File h1"
  proof (cases r)
    case (Inr u)
    obtain r2 h2 where b: "readPath L sha S c rq path h1 = (r2, h2)" by (cases "readPath L sha S c rq path h1")
    have "hs_File h2 = hs_File h1" using keepsD [OF readPath_reads b] by simp
    then show ?thesis
      by (cases r2) (simp_all add: write_and_check_def andThen_def w Inr b fail_def ret_def)
  qed (simp add: write_and_check_def andThen_def w)
  with linux_write_effect [OF assms, of S c rq path content] show ?thesis by (simp add: w)
qed

text \<open>What one call of \<open>Apply\<close> can do to the files: nothing, or one file replaced as planned.\<close>

definition applied :: "'p ssh_lib \<Rightarrow> (string \<Rightarrow> string) \<Rightarrow> site \<Rightarrow> request \<Rightarrow> desired_key list \<Rightarrow> apply_options \<Rightarrow>
    (endpoint \<Rightarrow> string \<Rightarrow> remote_file option) \<Rightarrow> (endpoint \<Rightarrow> string \<Rightarrow> remote_file option) \<Rightarrow> bool" where
  "applied L sha S rq ds opts F F' \<longleftrightarrow> (\<exists>path ak added removed mode.
     key_path S (rq_Target rq) (rq_Principal rq) = Some path
     \<and> plan_file L ds opts (ParseAuthorizedKeys L
          (sn_Content (snapshot_of L sha (F (endpoint_of (ct_Address (rq_Target rq)) (ct_Port (rq_Target rq))) path))))
        = Inr (ak, added, removed)
     \<and> (Count ak \<noteq> 0 \<or> ao_AllowEmpty opts) \<and> \<not> ao_DryRun opts \<and> validMode mode
     \<and> F' = F(endpoint_of (ct_Address (rq_Target rq)) (ct_Port (rq_Target rq)) :=
          (F (endpoint_of (ct_Address (rq_Target rq)) (ct_Port (rq_Target rq))))(path := Some (Bytes L ak, mode))))"

lemma finish_apply_effect:
  assumes "files_are F h"
  shows "hs_File (snd (finish_apply L sha S c rq opts path before (ak, added, removed) h)) = F
    \<or> ((Count ak \<noteq> 0 \<or> ao_AllowEmpty opts) \<and> \<not> ao_DryRun opts \<and> (\<exists>mode. validMode mode \<and>
         hs_File (snd (finish_apply L sha S c rq opts path before (ak, added, removed) h))
         = F(cl_Endpoint c := (F (cl_Endpoint c))(path := Some (Bytes L ak, mode)))))"
  using write_and_check_effect [OF assms, of L sha S c rq path "Bytes L ak"] assms
  by (auto simp: finish_apply_def Let_def ret_def split: prod.splits sum.splits)

lemma wlp_upholds: "wlp m Q w \<Longrightarrow> keeps I m \<Longrightarrow> I w \<Longrightarrow> m w = (r, w') \<Longrightarrow> I w' \<and> (case r of Inl _ \<Rightarrow> True | Inr x \<Rightarrow> Q x w')"
  using keepsD [of I m w r w'] by (auto simp: wlp_def split: sum.split)

lemma apply_steps_effect:
  assumes "files_are F h"
  shows "hs_File (snd (apply_steps L sha S rq ds opts h)) = F
    \<or> applied L sha S rq ds opts F (hs_File (snd (apply_steps L sha S rq ds opts h)))"
proof -
  let ?ep = "endpoint_of (ct_Address (rq_Target rq)) (ct_Port (rq_Target rq))"
  obtain r1 h1 where c: "linux_connect L S rq h = (r1, h1)" by (cases "linux_connect L S rq h")
  note s1 = wlp_upholds [OF connect_endpoint connect_reads assms c]
  show ?thesis
  proof (cases r1)
    case (Inr cl)
    with s1 have F1: "files_are F h1" and ep: "cl_Endpoint cl = ?ep" by auto
    obtain r2 h2 where p: "resolvePath S cl rq h1 = (r2, h2)" by (cases "resolvePath S cl rq h1")
    note s2 = wlp_upholds [OF resolvePath_result [OF ep] resolvePath_reads F1 p]
    show ?thesis
    proof (cases r2)
      case r2: (Inr path)
      with s2 have F2: "files_are F h2" and kp: "key_path S (rq_Target rq) (rq_Principal rq) = Some path" by auto
      obtain r3 h3 where b: "readPath L sha S cl rq path h2 = (r3, h3)" by (cases "readPath L sha S cl rq path h2")
      note s3 = wlp_upholds [OF readPath_result [OF F2] readPath_reads F2 b]
      show ?thesis
      proof (cases r3)
        case r3: (Inr before)
        with s3 have F3: "files_are F h3" and bf: "before = snapshot_of L sha (F ?ep path)" by (auto simp: ep)
        show ?thesis
        proof (cases "plan_file L ds opts (ParseAuthorizedKeys L (sn_Content before))")
          case plan: (Inr x)
          obtain ak added removed where x: "x = (ak, added, removed)" by (cases x)
          show ?thesis
            using finish_apply_effect [OF F3, of L sha S cl rq opts path before ak added removed] kp plan
            unfolding x bf ep
            by (auto simp: apply_steps_def applied_def andThen_def lift_def c Inr p r2 b r3 bf)
        qed (simp add: apply_steps_def andThen_def lift_def c Inr p r2 b r3 F3)
      qed (use s3 in \<open>simp add: apply_steps_def andThen_def c Inr p r2 b\<close>)
    qed (use s2 in \<open>simp add: apply_steps_def andThen_def c Inr p\<close>)
  qed (use s1 in \<open>simp add: apply_steps_def andThen_def c\<close>)
qed

lemma linux_Apply_effect:
  "hs_File (snd (linux_Apply L sha S rq ds opts h)) = hs_File h
    \<or> applied L sha S rq ds opts (hs_File h) (hs_File (snd (linux_Apply L sha S rq ds opts h)))"
  using apply_steps_effect [OF refl, of L sha S rq ds opts h]
  by (auto simp: linux_Apply_def split: prod.splits sum.splits)

section \<open>The contract\<close>

lemma linux_sel [simp]:
  "cn_Capabilities (linux L sha S) = linux_Capabilities" "cn_TargetCapabilities (linux L sha S) = None"
  "cn_Probe (linux L sha S) = linux_Probe L S" "cn_List (linux L sha S) = linux_List L sha S"
  "cn_Apply (linux L sha S) = linux_Apply L sha S" "cn_Snapshot (linux L sha S) = linux_Snapshot L sha S"
  "cn_Restore (linux L sha S) = linux_Restore L sha S" "cn_Verify (linux L sha S) = linux_Verify L S"
  by (simp_all add: linux_def)

lemma reads_held: "keeps (files_are (hs_File h)) m \<Longrightarrow> linux_held L (snd (m h)) l = linux_held L h l"
  by (intro linux_held_cong) (simp add: upholds_def)

lemma apply_elsewhere:
  assumes "hs_File (snd (linux_Apply L sha S rq ds ao h)) = hs_File h \<or> l \<noteq> linux_login S (rq_Target rq) (rq_Principal rq)"
  shows "linux_held L (snd (linux_Apply L sha S rq ds ao h)) l = linux_held L h l"
proof (cases "hs_File (snd (linux_Apply L sha S rq ds ao h)) = hs_File h")
  case True
  then show ?thesis by (rule linux_held_cong)
next
  case False
  let ?F' = "hs_File (snd (linux_Apply L sha S rq ds ao h))"
  from False linux_Apply_effect [of L sha S rq ds ao h]
  obtain path f where kp: "key_path S (rq_Target rq) (rq_Principal rq) = Some path"
    and F': "?F' = (hs_File h)(endpoint_of (ct_Address (rq_Target rq)) (ct_Port (rq_Target rq)) :=
          (hs_File h (endpoint_of (ct_Address (rq_Target rq)) (ct_Port (rq_Target rq))))(path := f))"
    unfolding applied_def by blast
  have "?F' (fst l) q = hs_File h (fst l) q" if "snd l = Some q" for q
    using assms False kp that by (cases l) (auto simp: F' linux_login_def)
  then show ?thesis by (simp add: linux_held_def file_keys_def split: option.split)
qed

interpretation lx: key_connector "linux L sha S" "linux_login S" "linux_held L" "linux_good L"
  for L sha S
proof (unfold_locales, goal_cases)
  case (1 rq h l) show ?case by (simp add: linux_held_cong [OF Probe_reads])
next
  case (2 rq h l) show ?case by (simp add: reads_held List_reads)
next
  case (3 rq h l) show ?case by (simp add: reads_held Snapshot_reads)
next
  case (4 rq k h l) show ?case by (simp add: reads_held Verify_reads)
next
  case (5 l rq ds ao h) then show ?case by (simp add: apply_elsewhere)
next
  case (6 ds ao h l rq)
  show ?case
  proof (cases "applied L sha S rq ds ao (hs_File h) (hs_File (snd (linux_Apply L sha S rq ds ao h)))
      \<and> l = linux_login S (rq_Target rq) (rq_Principal rq)")
    case True
    then obtain path ak added removed mode where a: "key_path S (rq_Target rq) (rq_Principal rq) = Some path"
      "plan_file L ds ao (ParseAuthorizedKeys L (sn_Content (snapshot_of L sha (hs_File h (fst l) path)))) = Inr (ak, added, removed)"
      "hs_File (snd (linux_Apply L sha S rq ds ao h)) (fst l) path = Some (Bytes L ak, mode)" "snd l = Some path"
      by (auto simp: applied_def linux_login_def)
    have "linux_held L h l = set (Fingerprints (ParseAuthorizedKeys L (sn_Content (snapshot_of L sha (hs_File h (fst l) path)))))"
      by (simp add: linux_held_def a(4) file_keys_def snapshot_of_def no_file_def file_snapshot_def ParseAuthorizedKeys_def
          Fingerprints_def split: option.split prod.split)
    with plan_file_keeps [OF a(2) 6] show ?thesis
      by (simp add: linux_held_def a(3,4) file_keys_def)
  next
    case False
    then have "linux_held L (snd (linux_Apply L sha S rq ds ao h)) l = linux_held L h l"
      using linux_Apply_effect [of L sha S rq ds ao h] by (intro apply_elsewhere) blast
    then show ?thesis by auto
  qed
qed

text \<open>What a successful run of each operation has established.\<close>

lemma write_and_check_landed:
  "wlp (write_and_check L sha S c rq path content)
     (\<lambda>_ h'. sn_Checksum (snapshot_of L sha (hs_File h' (cl_Endpoint c) path)) = sha content) h"
proof -
  have r: "wlp (readPath L sha S c rq path) (\<lambda>back. wlp (if sn_Checksum back \<noteq> sha content
        then fail (ErrOther ''linux: does not match what was written'') else ret ())
        (\<lambda>_ h'. sn_Checksum (snapshot_of L sha (hs_File h' (cl_Endpoint c) path)) = sha content)) h1" for h1
    by (rule wlp_weaken [OF readPath_result [OF refl]]) (auto intro: wlp_intros)
  show ?thesis
    unfolding write_and_check_def
    by (rule wlp_andThen, rule wlp_weaken [OF wlp_True], rule wlp_andThen, rule r)
qed

lemma apply_steps_landed:
  "wlp (apply_steps L sha S rq ds opts) (\<lambda>(r, err) h'.
     if err = None \<and> ar_Changed r \<and> \<not> ao_DryRun opts
     then \<exists>path after. key_path S (rq_Target rq) (rq_Principal rq) = Some path \<and> ar_After r = Some after
       \<and> sn_Checksum (snapshot_of L sha (hs_File h' (endpoint_of (ct_Address (rq_Target rq)) (ct_Port (rq_Target rq))) path))
         = sn_Checksum after
     else True) h"
    (is "wlp _ ?Q h")
proof -
  have fin: "wlp (finish_apply L sha S c rq opts path before x) ?Q h'"
    if "cl_Endpoint c = endpoint_of (ct_Address (rq_Target rq)) (ct_Port (rq_Target rq))"
      "key_path S (rq_Target rq) (rq_Principal rq) = Some path" for c path before x h'
  proof -
    obtain ak added removed where x: "x = (ak, added, removed)" by (cases x)
    show ?thesis
      using write_and_check_landed [of L sha S c rq path "Bytes L ak" h'] that
      by (auto simp: finish_apply_def x Let_def wlp_def ret_def planned_result_def file_snapshot_def
          split: prod.splits sum.splits)
  qed
  show ?thesis
    unfolding apply_steps_def
  proof (rule wlp_andThen, rule wlp_weaken [OF connect_endpoint])
    fix c :: client and h1
    assume c: "cl_Endpoint c = endpoint_of (ct_Address (rq_Target rq)) (ct_Port (rq_Target rq))"
    show "wlp (andThen (resolvePath S c rq) (\<lambda>path. andThen (readPath L sha S c rq path) (\<lambda>before.
        andThen (lift (plan_file L ds opts (ParseAuthorizedKeys L (sn_Content before))))
          (finish_apply L sha S c rq opts path before)))) ?Q h1"
    proof (rule wlp_andThen, rule wlp_weaken [OF resolvePath_result [OF c]])
      fix path h2
      assume p: "key_path S (rq_Target rq) (rq_Principal rq) = Some path"
      show "wlp (andThen (readPath L sha S c rq path) (\<lambda>before.
          andThen (lift (plan_file L ds opts (ParseAuthorizedKeys L (sn_Content before))))
            (finish_apply L sha S c rq opts path before))) ?Q h2"
        by (rule wlp_andThen, rule wlp_weaken [OF readPath_result [OF refl]]) (intro wlp_intros fin [OF c p])
    qed
  qed
qed

lemma Dial_accepted:
  "wlp (Dial L S d) (\<lambda>c h'. cl_Endpoint c = endpoint_of (dial_Address d) (dial_Port d)
     \<and> accepts L S h' (cl_Endpoint c) d
     \<and> (\<exists>hk. st_HostKey S (cl_Endpoint c) = Some hk \<and> (if dial_HostKeyPin d = [] then True else hk = dial_HostKeyPin d))) h"
  unfolding Dial_def Let_def
  by (auto simp: wlp_def prog_simps checkHostKey_def split: prod.splits sum.splits option.splits if_splits)

lemma linux_write_quiet:
  assumes "hs_Net h = []" and "linux_write S c rq path content h = (Inr u, h')"
  shows "\<exists>mode. hs_File h' = (hs_File h)(cl_Endpoint c := (hs_File h (cl_Endpoint c))(path := Some (content, mode)))"
  using assms
  by (auto simp: linux_write_def RunInput_def andThen_def ret_def fail_def mk_output_def decode_encode set_file_def Let_def
      next_fault_def split: if_splits)

text \<open>A quiet network stays quiet.\<close>

lemma quiet:
  assumes "hs_Net h = []"
  shows "Dial L S d h = (r, h') \<Longrightarrow> h' = h" "changes_nothing s \<Longrightarrow> RunInput S c s sudo stdin h = (r', h') \<Longrightarrow> h' = h"
    "resolvePath S c rq h = (r'', h') \<Longrightarrow> h' = h"
proof -
  show run: "changes_nothing s \<Longrightarrow> RunInput S c s sudo stdin h = (r', h') \<Longrightarrow> h' = h" for s c sudo stdin r' h'
    using assms host_exec_reads [of s S c sudo stdin h] by (auto simp: RunInput_def next_fault_def split: prod.splits)
  show "Dial L S d h = (r, h') \<Longrightarrow> h' = h"
    using assms by (auto simp: Dial_def prog_simps next_fault_def split: if_splits sum.splits option.splits)
  show "resolvePath S c rq h = (r'', h') \<Longrightarrow> h' = h"
    by (auto simp: resolvePath_def Run_def prog_simps split: option.splits prod.splits sum.splits if_splits dest: run [rotated])
qed

text \<open>sshd would accept the private key for the account, on a host whose key matches the pin.\<close>

definition authenticates :: "'p ssh_lib \<Rightarrow> site \<Rightarrow> request \<Rightarrow> string \<Rightarrow> hosts \<Rightarrow> bool" where
  "authenticates L S rq pk h \<longleftrightarrow> (let ep = endpoint_of (ct_Address (rq_Target rq)) (ct_Port (rq_Target rq));
       user = cp_Username (rq_Principal rq); pin = ct_HostKeyPin (rq_Target rq) in
     (case st_Fingerprint S pk of None \<Rightarrow> False | Some fp \<Rightarrow> fp \<in> file_keys L h ep (st_KeyFile S ep user))
     \<and> st_Pubkey S ep user
     \<and> (case st_HostKey S ep of None \<Rightarrow> False | Some hk \<Rightarrow> pin \<in> {[], hk}))"

section \<open>A concrete site\<close>

text \<open>An SSH library whose keys are single characters, and one host with three accounts.\<close>

definition toy_ssh :: "string ssh_lib" where
  "toy_ssh = \<lparr>ssh_Parse = (\<lambda>s. if s = [] then None else Some ([hd s], [], [])), ssh_Type = (\<lambda>_. ''toy''),
     ssh_Fingerprint = id, ssh_Marshal = id\<rparr>"

definition toy_site :: site where
  "toy_site = \<lparr>st_HostKey = (\<lambda>ep. if ep = (''h'', 22) then Some ''pin'' else None),
     st_Fingerprint = (\<lambda>pem. if pem = [] then None else Some [hd pem]),
     st_Password = (\<lambda>ep user pw. user = ''root'' \<and> pw = ''pw''),
     st_Pubkey = (\<lambda>ep user. user \<noteq> ''locked''),
     st_KeyFile = (\<lambda>ep user. ''/keys/'' @ user), st_Home = (\<lambda>ep user. None), st_May = (\<lambda>ep user sudo path. True)\<rparr>"

definition toy_target :: connTarget where
  "toy_target = \<lparr>ct_ID = 3, ct_Name = ''web'', ct_Kind = ''host'', ct_Connector = ''linux'', ct_Address = ''h'', ct_Port = 0,
     ct_Config = Map.empty, ct_HostKeyPin = ''pin'', ct_Tags = []\<rparr>"

definition toy_principal :: "string \<Rightarrow> connPrincipal" where
  "toy_principal user = \<lparr>cp_ID = 4, cp_Username = user, cp_AuthorizedKeysPath = ''/keys/'' @ user, cp_UseSudo = False\<rparr>"

definition toy_request :: "string \<Rightarrow> request" where
  "toy_request user = \<lparr>rq_Target = toy_target, rq_Principal = toy_principal user,
     rq_Credential = \<lparr>cd_Kind = CredOther, cd_Username = ''root'', cd_Password = ''pw'', cd_PrivateKey = [], cd_Token = []\<rparr>\<rparr>"

definition toy_hosts :: "string \<Rightarrow> string \<Rightarrow> net_fault list \<Rightarrow> hosts" where
  "toy_hosts user content net = \<lparr>hs_File = (\<lambda>ep path. if ep = (''h'', 22) \<and> path = ''/keys/'' @ user
     then Some (content, ''600'') else None), hs_Net = net\<rparr>"

definition toy_desired :: "string \<Rightarrow> desired_key" where
  "toy_desired k = \<lparr>dk_PublicLine = k, dk_Fingerprint = k, dk_Options = [], dk_Comment = []\<rparr>"

definition pruning :: "string list \<Rightarrow> apply_options" where
  "pruning managed = DefaultApplyOptions\<lparr>ao_Prune := True, ao_ManagedFingerprints := managed\<rparr>"

definition two_keys :: string where "two_keys = ''A'' @ [LF] @ ''C'' @ [LF]"

section \<open>Properties\<close>

text \<open>C9. Pruning is confined: whatever the network and the disk do during one \<open>Apply\<close>, every key the
  login accepted before is still accepted afterwards, except managed keys that are not desired (and
  without pruning, no exception); every other login on every host keeps exactly its keys.\<close>

theorem apply_removes_only_managed:
  assumes "\<forall>d\<in>set desired. linux_good L d" and "ao_PreserveUnmanaged opts"
  shows "linux_held L h l - (if ao_Prune opts then set (ao_ManagedFingerprints opts) - set (map dk_Fingerprint desired) else {})
      \<subseteq> linux_held L (snd (linux_Apply L sha S rq desired opts h)) l
    \<and> (if l = linux_login S (rq_Target rq) (rq_Principal rq) then True
       else linux_held L (snd (linux_Apply L sha S rq desired opts h)) l = linux_held L h l)"
proof (rule conjI)
  show "linux_held L h l - (if ao_Prune opts then set (ao_ManagedFingerprints opts) - set (map dk_Fingerprint desired) else {})
      \<subseteq> linux_held L (snd (linux_Apply L sha S rq desired opts h)) l"
    by (rule lx.apply_prunes_managed [OF assms, unfolded linux_sel])
  show "if l = linux_login S (rq_Target rq) (rq_Principal rq) then True
       else linux_held L (snd (linux_Apply L sha S rq desired opts h)) l = linux_held L h l"
    using lx.apply_other [unfolded linux_sel, of l S rq L sha desired opts h] by simp
qed

theorem apply_removes_only_managed_witness:
  "''C'' \<in> linux_held toy_ssh (snd (linux_Apply toy_ssh id toy_site (toy_request ''u'') [toy_desired ''B''] (pruning [''A'', ''B''])
      (toy_hosts ''u'' two_keys [NetFine, NetFine, NetLost]))) (linux_login toy_site toy_target (toy_principal ''u''))"
proof -
  have "linux_good toy_ssh (toy_desired ''B'')" by code_simp
  moreover have "ao_PreserveUnmanaged (pruning [''A'', ''B''])" "ao_Prune (pruning [''A'', ''B''])"
    "ao_ManagedFingerprints (pruning [''A'', ''B'']) = [''A'', ''B'']"
    by (simp_all add: pruning_def DefaultApplyOptions_def)
  moreover have "''C'' \<in> linux_held toy_ssh (toy_hosts ''u'' two_keys [NetFine, NetFine, NetLost])
      (linux_login toy_site toy_target (toy_principal ''u''))" by code_simp
  ultimately show ?thesis
    using apply_removes_only_managed [of "[toy_desired ''B'']" toy_ssh "pruning [''A'', ''B'']"
        "toy_hosts ''u'' two_keys [NetFine, NetFine, NetLost]" "linux_login toy_site toy_target (toy_principal ''u'')"
        id toy_site "toy_request ''u''"]
    by auto
qed

text \<open>C8. The lockout guard: unless the caller allows an empty file, an \<open>Apply\<close> that changes any file
  leaves the login with at least one key that reads back as accepted; a dry run changes no file.\<close>

theorem apply_never_locks_out:
  assumes "\<forall>d\<in>set desired. linux_good L d" and "\<not> ao_AllowEmpty opts"
    and "hs_File (snd (linux_Apply L sha S rq desired opts h)) \<noteq> hs_File h"
  shows "linux_held L (snd (linux_Apply L sha S rq desired opts h)) (linux_login S (rq_Target rq) (rq_Principal rq)) \<noteq> {}
    \<and> \<not> ao_DryRun opts"
proof -
  from linux_Apply_effect [of L sha S rq desired opts h] assms(3)
  obtain path ak added removed mode where a: "key_path S (rq_Target rq) (rq_Principal rq) = Some path"
    "plan_file L desired opts (ParseAuthorizedKeys L (sn_Content (snapshot_of L sha
        (hs_File h (endpoint_of (ct_Address (rq_Target rq)) (ct_Port (rq_Target rq))) path)))) = Inr (ak, added, removed)"
    "Count ak \<noteq> 0" "\<not> ao_DryRun opts"
    "hs_File (snd (linux_Apply L sha S rq desired opts h)) (endpoint_of (ct_Address (rq_Target rq)) (ct_Port (rq_Target rq))) path
       = Some (Bytes L ak, mode)"
    using assms(2) unfolding applied_def by fastforce
  have "Fingerprints (ParseAuthorizedKeys L (Bytes L ak)) = Fingerprints ak"
    by (rule plan_file_written(1) [OF a(2) assms(1)])
  with a show ?thesis by (simp add: linux_held_def linux_login_def file_keys_def Count_Fingerprints)
qed

theorem apply_never_locks_out_witness:
  "linux_held toy_ssh (snd (linux_Apply toy_ssh id toy_site (toy_request ''u'') [toy_desired ''B''] (pruning [''A'', ''C''])
      (toy_hosts ''u'' two_keys []))) (linux_login toy_site toy_target (toy_principal ''u'')) \<noteq> {}"
proof -
  let ?h = "toy_hosts ''u'' two_keys []"
  let ?h' = "snd (linux_Apply toy_ssh id toy_site (toy_request ''u'') [toy_desired ''B''] (pruning [''A'', ''C'']) ?h)"
  have good: "linux_good toy_ssh (toy_desired ''B'')" by code_simp
  have empty: "\<not> ao_AllowEmpty (pruning [''A'', ''C''])" by (simp add: pruning_def DefaultApplyOptions_def)
  have "hs_File ?h' (''h'', 22) ''/keys/u'' = Some (''B'' @ [LF], ''600'')" by code_simp
  moreover have "hs_File ?h (''h'', 22) ''/keys/u'' = Some (two_keys, ''600'')" by code_simp
  moreover have "two_keys \<noteq> ''B'' @ [LF]" by code_simp
  ultimately have "hs_File ?h' \<noteq> hs_File ?h" by auto
  moreover have "rq_Target (toy_request ''u'') = toy_target" "rq_Principal (toy_request ''u'') = toy_principal ''u''"
    by (simp_all add: toy_request_def)
  ultimately show ?thesis
    using apply_never_locks_out [of "[toy_desired ''B'']" toy_ssh "pruning [''A'', ''C'']" id toy_site "toy_request ''u''" ?h]
      good empty by simp
qed

text \<open>C25. A reported success has landed: when \<open>Apply\<close> returns without an error and says that it changed the
  file, the file now on the host has the checksum of the planned content, even when the host
  confirmed a write that did not last.\<close>

theorem apply_success_landed:
  "wlp (apply_steps L sha S rq desired opts) (\<lambda>(r, err) h'.
     if err = None \<and> ar_Changed r \<and> \<not> ao_DryRun opts
     then \<exists>path after. key_path S (rq_Target rq) (rq_Principal rq) = Some path \<and> ar_After r = Some after
       \<and> sn_Checksum (snapshot_of L sha (hs_File h' (endpoint_of (ct_Address (rq_Target rq)) (ct_Port (rq_Target rq))) path))
         = sn_Checksum after
     else True) h"
  by (rule apply_steps_landed)

text \<open>C10. \<open>Verify\<close> succeeds only if sshd accepts the key: the public half of the private key stands in the
  account's own key file, key authentication is on for the account, and the host presented the pinned
  host key (or none is pinned).  Nothing on any host changes.\<close>

theorem verify_authenticates:
  "wlp (linux_Verify L S rq pk) (\<lambda>_ h'. hs_File h' = hs_File h \<and> authenticates L S rq pk h') h"
proof -
  have cong: "authenticates L S rq pk h' = authenticates L S rq pk h''" if "hs_File h' = hs_File h''" for h' h''
    using that by (simp add: authenticates_def file_keys_def Let_def split: option.split)
  have run: "wlp (Run S c (PlainCommand []) False) (\<lambda>_. authenticates L S rq pk) h'" if "authenticates L S rq pk h'" for c h'
  proof -
    have "wlp (Run S c (PlainCommand []) False) (\<lambda>_ h''. True \<and> hs_File h'' = hs_File h') h'"
      by (rule wlp_keeps [OF Run_reads]) simp_all
    then show ?thesis by (rule wlp_weaken) (use that cong [of _ h'] in metis)
  qed
  have "wlp (linux_Verify L S rq pk) (\<lambda>_. authenticates L S rq pk) h"
    unfolding linux_Verify_def
  proof (intro wlp_if wlp_fail, rule wlp_andThen, rule wlp_weaken [OF Dial_accepted], elim conjE, rule wlp_andThen, rule wlp_weaken [OF run])
    fix c :: client and h' :: hosts
    let ?d = "\<lparr>dial_Address = ct_Address (rq_Target rq), dial_Port = ct_Port (rq_Target rq),
        dial_Username = cp_Username (rq_Principal rq), dial_Password = [], dial_PrivateKey = pk,
        dial_HostKeyPin = ct_HostKeyPin (rq_Target rq)\<rparr>"
    assume "cl_Endpoint c = endpoint_of (dial_Address ?d) (dial_Port ?d)" "accepts L S h' (cl_Endpoint c) ?d"
      "\<exists>hk. st_HostKey S (cl_Endpoint c) = Some hk \<and> (if dial_HostKeyPin ?d = [] then True else hk = dial_HostKeyPin ?d)"
    then show "authenticates L S rq pk h'"
      by (auto simp: authenticates_def accepts_def Let_def split: option.splits if_splits)
  qed (simp add: wlp_ret)
  from wlp_keeps [OF Verify_reads refl this] show ?thesis
    by (rule wlp_weaken) auto
qed

text \<open>C26. Snapshot and restore are inverse: restoring a snapshot, however much later and over whatever the
  file has become, leaves the file with the bytes it had when the snapshot was taken, or no file where
  there was none, and touches no other file (on a network that does not fail meanwhile).\<close>

theorem snapshot_restore:
  assumes "linux_Snapshot L sha S rq h = (Inr snap, h1)" and "hs_Net h2 = []"
    and "linux_Restore L sha S rq snap h2 = (Inr (), h3)"
  shows "\<exists>path. key_path S (rq_Target rq) (rq_Principal rq) = Some path
    \<and> (let ep = endpoint_of (ct_Address (rq_Target rq)) (ct_Port (rq_Target rq)) in
       map_option fst (hs_File h3 ep path) = map_option fst (hs_File h ep path)
       \<and> hs_File h3 = (hs_File h2)(ep := (hs_File h2 ep)(path := hs_File h3 ep path)))"
proof -
  let ?ep = "endpoint_of (ct_Address (rq_Target rq)) (ct_Port (rq_Target rq))"
  have "wlp (linux_Snapshot L sha S rq) (\<lambda>snap _. \<exists>path. key_path S (rq_Target rq) (rq_Principal rq) = Some path
      \<and> snap = snapshot_of L sha (hs_File h ?ep path)) h" (is "wlp _ ?Q h")
    unfolding linux_Snapshot_def
  proof (rule wlp_andThen, rule wlp_weaken [OF wlp_keeps [OF connect_reads refl connect_endpoint]], elim conjE)
    fix c :: client and h' :: hosts assume c: "cl_Endpoint c = ?ep" and h': "hs_File h' = hs_File h"
    show "wlp (andThen (resolvePath S c rq) (readPath L sha S c rq)) ?Q h'"
    proof (rule wlp_andThen, rule wlp_weaken [OF wlp_keeps [OF resolvePath_reads h' resolvePath_result [OF c]]], elim conjE)
      fix path and h'' :: hosts assume p: "key_path S (rq_Target rq) (rq_Principal rq) = Some path" and h'': "hs_File h'' = hs_File h"
      show "wlp (readPath L sha S c rq path) ?Q h''"
        by (rule wlp_weaken [OF readPath_result [OF h'']]) (use p c in auto)
    qed
  qed
  with assms(1) obtain path where kp: "key_path S (rq_Target rq) (rq_Principal rq) = Some path"
    and snap: "snap = snapshot_of L sha (hs_File h ?ep path)" by (auto simp: wlp_def)
  from assms(3) obtain c h4 where c: "linux_connect L S rq h2 = (Inr c, h4)"
    by (auto simp: linux_Restore_def andThen_def fail_def split: if_splits prod.splits sum.splits)
  have h4: "h4 = h2" using c quiet(1) [OF assms(2)] by (auto simp: linux_connect_def Let_def)
  have ep: "cl_Endpoint c = ?ep" using wlpD [OF connect_endpoint c] .
  from assms(3) c obtain path' h5 where r: "resolvePath S c rq h2 = (Inr path', h5)"
    by (auto simp: linux_Restore_def andThen_def fail_def h4 split: if_splits prod.splits sum.splits)
  have h5: "h5 = h2" by (rule quiet(3) [OF assms(2) r])
  have path': "path' = path" using wlpD [OF resolvePath_result [OF ep] r] kp by simp
  show ?thesis
  proof (cases "hs_File h ?ep path")
    case None
    then have "hs_File h3 = (hs_File h2)(?ep := (hs_File h2 ?ep)(path := None))"
      using assms(2,3) unfolding snap
      by (auto simp: linux_Restore_def snapshot_of_def no_file_def andThen_def fail_def ret_def c h4 r h5 path' Run_def RunInput_def
          next_fault_def mk_output_def set_file_def ep split: if_splits prod.splits)
    then show ?thesis using kp None by (simp add: Let_def)
  next
    case (Some f)
    obtain content mode where f: "f = (content, mode)" by (cases f)
    have "linux_write S c rq path content h2 = (Inr (), h3)"
      using assms(3) unfolding snap Some f
      by (auto simp: linux_Restore_def snapshot_of_def file_snapshot_def andThen_def fail_def c h4 r h5 path' split: if_splits)
    from linux_write_quiet [OF assms(2) this] obtain mode'
      where "hs_File h3 = (hs_File h2)(?ep := (hs_File h2 ?ep)(path := Some (content, mode')))" by (auto simp: ep)
    then show ?thesis using kp Some f by (auto simp: Let_def)
  qed
qed

theorem snapshot_restore_witness:
  "map_option fst (hs_File (snd (linux_Restore toy_ssh id toy_site (toy_request ''u'')
      (snapshot_of toy_ssh id (Some (two_keys, ''600''))) (toy_hosts ''u'' ''B'' []))) (''h'', 22) ''/keys/u'') = Some two_keys"
proof -
  let ?S = "linux_Snapshot toy_ssh id toy_site (toy_request ''u'') (toy_hosts ''u'' two_keys [])"
  let ?R = "linux_Restore toy_ssh id toy_site (toy_request ''u'') (snapshot_of toy_ssh id (Some (two_keys, ''600''))) (toy_hosts ''u'' ''B'' [])"
  have "fst ?S = Inr (snapshot_of toy_ssh id (Some (two_keys, ''600'')))" by code_simp
  then have s: "?S = (Inr (snapshot_of toy_ssh id (Some (two_keys, ''600''))), snd ?S)" by (simp add: prod_eq_iff)
  have "fst ?R = Inr ()" by code_simp
  then have r: "?R = (Inr (), snd ?R)" by (simp add: prod_eq_iff)
  have "key_path toy_site (rq_Target (toy_request ''u'')) (rq_Principal (toy_request ''u'')) = Some ''/keys/u''"
    "endpoint_of (ct_Address (rq_Target (toy_request ''u''))) (ct_Port (rq_Target (toy_request ''u''))) = (''h'', 22)"
    "map_option fst (hs_File (toy_hosts ''u'' two_keys []) (''h'', 22) ''/keys/u'') = Some two_keys"
    "hs_Net (toy_hosts ''u'' ''B'' []) = []" by code_simp+
  with snapshot_restore [OF s _ r] show ?thesis by (simp add: Let_def)
qed

end
