(* ===== verification/RotationLinux.thy ===== *)
theory RotationLinux
  imports RotationSafety LinuxSafety
begin

text \<open>
  Rotation over the linux connector: the contract \<open>fleet\<close> holds for every environment whose registry
  holds that connector, and with it the two safety theorems of the engine, instantiated on a concrete
  fleet for their witnesses.
\<close>

section \<open>The linux fleet\<close>

definition linux_registry :: "'p ssh_lib \<Rightarrow> (string \<Rightarrow> string) \<Rightarrow> site \<Rightarrow> (hosts, 'p) registry" where
  "linux_registry L sha S kind = (if kind = ''linux'' then Some (linux L sha S) else None)"

lemma linux_connected:
  assumes "env_registry E = linux_registry L sha S"
  shows "connected E (linux_login S) (linux_held L) (linux_good L)"
proof (rule connected.intro)
  fix kind conn
  assume "env_registry E kind = Some conn"
  then have "conn = linux L sha S" by (auto simp: assms linux_registry_def split: if_splits)
  then show "key_connector conn (linux_login S) (linux_held L) (linux_good L)"
    by (simp add: lx.key_connector_axioms)
qed

interpretation lxc: connected "E\<lparr>env_registry := linux_registry L sha S\<rparr>" "linux_login S" "linux_held L" "linux_good L"
  for E :: "(hosts, 'p) env" and L sha S
  by (rule linux_connected) simp

text \<open>
  What is left to assume is what the repository does not define: a generated key reads back as itself
  (the SSH and crypto libraries), and a consumer sink does not write the managed key files.
\<close>

lemma linux_fleet:
  assumes "env_registry E = linux_registry L sha S"
    and "\<And>alg c rnd pair os c'. Generate (env_ssh E) (env_crypto E) alg c rnd = Inr pair \<Longrightarrow> opts_ok os \<Longrightarrow>
        linux_good L \<lparr>dk_PublicLine = kp_PublicLine pair, dk_Fingerprint = kp_Fingerprint pair, dk_Options = os, dk_Comment = c'\<rparr>"
    and "\<And>kind sk d h l. env_sinks E kind = Some sk \<Longrightarrow> linux_held L (snd (sk_Deliver sk d h)) l = linux_held L h l"
    and "opts_ok []"
  shows "fleet E (linux_login S) (linux_held L) (linux_good L) opts_ok"
proof (rule fleet.intro [OF linux_connected [OF assms(1)] fleet_axioms.intro])
  fix kind conn
  assume "env_registry E kind = Some conn"
  then have c: "conn = linux L sha S" by (auto simp: assms(1) linux_registry_def split: if_splits)
  fix t
  show "\<not> SingleKey (case cn_TargetCapabilities conn of Some aware \<Rightarrow> aware t | None \<Rightarrow> cn_Capabilities conn)"
    by (simp add: c linux_Capabilities_def)
qed (use assms(2-4) in auto)

text \<open>An account for which sshd takes no keys refuses every verification.\<close>

lemma linux_refuses:
  assumes "env_registry E = linux_registry L sha S"
    and "\<And>t p. linux_login S t p = l \<Longrightarrow> \<not> st_Pubkey S (endpoint_of (ct_Address t) (ct_Port t)) (cp_Username p)"
  shows "refuses E (linux_login S) l"
proof -
  have "\<not> is_ok (fst (linux_Verify L S rq pk h))" if "linux_login S (rq_Target rq) (rq_Principal rq) = l" for rq pk h
  proof -
    let ?d = "\<lparr>dial_Address = ct_Address (rq_Target rq), dial_Port = ct_Port (rq_Target rq),
        dial_Username = cp_Username (rq_Principal rq), dial_Password = [], dial_PrivateKey = pk,
        dial_HostKeyPin = ct_HostKeyPin (rq_Target rq)\<rparr>"
    have no: "fst (Dial L S ?d h) \<noteq> Inr c" for c
    proof
      assume "fst (Dial L S ?d h) = Inr c"
      then have "Dial L S ?d h = (Inr c, snd (Dial L S ?d h))" by (simp add: prod_eq_iff)
      from wlpD [OF Dial_accepted this] assms(2) [OF that] show False by (auto simp: accepts_def)
    qed
    obtain r h' where d: "Dial L S ?d h = (r, h')" by (cases "Dial L S ?d h")
    with no obtain e where "r = Inl e" by (cases r) auto
    then show ?thesis by (simp add: linux_Verify_def andThen_def fail_def d)
  qed
  then show ?thesis
    by (auto simp: refuses_def assms(1) linux_registry_def linux_Capabilities_def)
qed

section \<open>A concrete fleet\<close>

definition toy_crypto :: "string crypto_lib" where
  "toy_crypto = \<lparr>cl_Generate = (\<lambda>alg rnd. Some (if even rnd then ''A'' else ''B'')), cl_Marshal = (\<lambda>raw c. Some raw),
     cl_Public = Some, cl_Parse = (\<lambda>pem pw. Some (Some pem)), cl_Kind = (\<lambda>raw. RawEd25519), cl_CommentHeader = (\<lambda>pem. None)\<rparr>"

text \<open>The site while its sshd takes no public keys.\<close>

definition locked_site :: site where
  "locked_site = toy_site\<lparr>st_Pubkey := (\<lambda>ep user. False)\<rparr>"

definition toy_env :: "(hosts, string) env" where
  "toy_env = \<lparr>env_ssh = toy_ssh, env_crypto = toy_crypto, env_aead = toy_aead, env_vault = toy_vault,
     env_entropy = (\<lambda>_. toy_entropy), env_uuid_Parse = (\<lambda>_. None),
     env_registry = linux_registry toy_ssh id locked_site, env_sinks = (\<lambda>_. None)\<rparr>"

lemma trim_letters: "trim_space ''A'' = ''A''" "trim_space ''B'' = ''B''" "trim_space [] = []"
  by code_simp+

lemma toy_parse: "c \<noteq> CR \<Longrightarrow> ParseAuthorizedKey toy_ssh (c # x) = Some ([c], [], [])"
  by (simp add: ParseAuthorizedKey_def toy_ssh_def)

lemma toy_stable:
  assumes "c \<noteq> CR" "c \<noteq> LF" "c \<noteq> CHR ''#''" "trim_space [c] = [c]" "NewEntry toy_ssh (c # x) [] = Inr e"
  shows "stable_line toy_ssh e"
proof -
  have p: "ParseAuthorizedKey toy_ssh [c] = Some ([c], [], [])" by (rule toy_parse [OF assms(1)])
  have m: "ssh_Marshal toy_ssh [c] = [c]" "ssh_Fingerprint toy_ssh [c] = [c]" by (simp_all add: toy_ssh_def)
  have e: "e_Kind e = EntryKey" "Line toy_ssh e = [c]" "e_Fingerprint e = [c]"
    using assms(4,5) by (auto simp: NewEntry_def toy_parse [OF assms(1)] Line_def render_def m trim_letters Let_def)
  show ?thesis
    using assms(2-4) by (simp add: stable_line_def e parseLine_def p m Let_def)
qed

lemma toy_good:
  assumes "k = ''A'' \<or> k = ''B''"
  shows "linux_good toy_ssh \<lparr>dk_PublicLine = k @ x, dk_Fingerprint = f, dk_Options = [], dk_Comment = c\<rparr>"
  using assms toy_stable [of "CHR ''A''" x] toy_stable [of "CHR ''B''" x] trim_letters
  by (auto simp: linux_good_def split: sum.split)

interpretation toy_fleet: fleet toy_env "linux_login locked_site" "linux_held toy_ssh" "linux_good toy_ssh" "\<lambda>os. os = []"
proof (rule linux_fleet)
  show "env_registry toy_env = linux_registry toy_ssh id locked_site" by (simp add: toy_env_def)
next
  fix alg c rnd pair c' and os :: "string list"
  assume g: "Generate (env_ssh toy_env) (env_crypto toy_env) alg c rnd = Inr pair" and os: "os = []"
  let ?k = "if even rnd then ''A'' else ''B''"
  from g have "kp_PublicLine pair = ?k @ (let c = trim_space c in if c \<noteq> [] then '' '' @ c else [])"
    by (auto simp: toy_env_def Generate_def fromPrivate_def toy_crypto_def publicLine_def toy_ssh_def trim_letters Let_def split: if_splits)
  then show "linux_good toy_ssh \<lparr>dk_PublicLine = kp_PublicLine pair, dk_Fingerprint = kp_Fingerprint pair, dk_Options = os, dk_Comment = c'\<rparr>"
    using toy_good [of ?k] by (simp add: os)
qed (simp_all add: toy_env_def)

text \<open>
  One host with the managed account \<open>locked\<close>, for which sshd currently takes no keys, a rotation whose
  only row has been staged there, and the job that will verify it.
\<close>

definition toy_key :: "uuid \<Rightarrow> string \<Rightarrow> key" where
  "toy_key i k = \<lparr>k_ID = i, k_TenantID = 1, k_Name = ''web'', k_Algorithm = ''ed25519'', k_PublicKey = k,
     k_Fingerprint = k, k_Comment = [], k_Status = KeyActive, k_KeyClass = KeyClassStandard, k_Generation = 1,
     k_ParentKeyID = None, k_OwnerID = None, k_Tags = [], k_HasPrivateKey = True, k_Compliant = True,
     k_ExpiresAt = None, k_ActivatedAt = None, k_RetiredAt = None, k_CreatedAt = 0\<rparr>"

definition toy_target_row :: target where
  "toy_target_row = \<lparr>t_ID = 3, t_TenantID = 1, t_Name = ''web'', t_Kind = ''host'', t_Connector = ''linux'',
     t_Address = ''h'', t_Port = 0, t_Config = Map.empty, t_CredentialID = Some 5, t_HostKeyPin = ''pin'', t_Tags = [],
     t_Enabled = True, t_Health = ([], []), t_IsCanary = False, t_DriftState = [], t_ReconcileMode = []\<rparr>"

definition toy_principal_row :: principal where
  "toy_principal_row = \<lparr>p_ID = 4, p_TargetID = 3, p_Username = ''locked'', p_AuthorizedKeysPath = ''/keys/locked'',
     p_UseSudo = False, p_Enabled = True\<rparr>"

definition toy_rotation :: "rotation_state \<Rightarrow> rotation" where
  "toy_rotation st = \<lparr>r_ID = 8, r_TenantID = 1, r_PolicyID = None, r_OldKeyID = Some 6, r_NewKeyID = Some 7,
     r_ChangesetID = None, r_State = st, r_Wave = 0, r_Trigger = TriggerManual, r_DryRun = False, r_SoakUntil = None,
     r_TargetsTotal = 1, r_TargetsStaged = 1, r_TargetsVerified = 0, r_TargetsRetired = 0, r_TargetsFailed = 0,
     r_ApprovedBy = None, r_ApprovedAt = None, r_Error = [], r_CreatedBy = Some 2, r_CompletedAt = None\<rparr>"

definition toy_row :: "rt_state \<Rightarrow> rotation_target" where
  "toy_row st = \<lparr>rt_RotationID = 8, rt_TargetID = 3, rt_PrincipalID = 4, rt_Wave = 0, rt_State = st, rt_Error = [],
     rt_StagedAt = None, rt_VerifiedAt = None, rt_RetiredAt = None\<rparr>"

definition toy_world :: "rotation_state \<Rightarrow> rt_state \<Rightarrow> hosts world" where
  "toy_world rst rts = (blank (toy_hosts ''locked'' two_keys []))\<lparr>
     w_users := [\<lparr>u_ID = 2, u_TenantID = 1, u_Username = ''op'', u_Email = [], u_DisplayName = [], u_PasswordHash = [],
       u_TOTPSecret = [], u_TOTPEnrolled = False, u_RecoveryCodes = [], u_Active = True, u_MustChangePW = False,
       u_FailedLogins = 0, u_LockedUntil = None, u_LastLoginAt = None\<rparr>],
     w_roles := [\<lparr>ro_ID = 9, ro_TenantID = 1, ro_Name = ''ops'', ro_IsSystem = False,
       ro_Permissions = [PermDeployExecute, PermKeyWrite]\<rparr>],
     w_userRoles := [(2, 9)],
     w_keys := [toy_key 6 ''A'', toy_key 7 ''B''], w_targets := [toy_target_row], w_principals := [toy_principal_row],
     w_rotations := [toy_rotation rst], w_rotTargets := [toy_row rts],
     w_jobs := [step_job (toy_rotation rst) 2 0]\<rparr>"

definition toy_login :: linux_login where
  "toy_login = ((''h'', 22), Some ''/keys/locked'')"

lemma toy_safe:
  assumes "rts \<noteq> RTVerified"
  shows "safe (linux_held toy_ssh) (linux_good toy_ssh) (\<lambda>os. os = []) toy_login ''A'' (places (toy_world rst rts))
     (unverified (linux_login locked_site) (places (toy_world rst rts)) toy_login) (toy_world rst rts)"
proof -
  have "''A'' \<in> linux_held toy_ssh (toy_hosts ''locked'' two_keys []) toy_login" by code_simp
  then show ?thesis
    using assms toy_good [of "''A''" "[]"] toy_good [of "''B''" "[]"]
    by (simp add: safe_def toy_world_def blank_def places_def unverified_def toy_row_def toy_key_def)
qed

lemma toy_refuses: "refuses toy_env (linux_login locked_site) toy_login"
  by (rule linux_refuses [of _ toy_ssh id]) (simp_all add: toy_env_def locked_site_def)

section \<open>Properties\<close>

text \<open>C2. One transition of a rotation never takes a key from a login it had not verified before the
  transition began: whatever faults strike, wherever the process dies, while no row that addresses the
  login is in the verified state, every key the login accepted is accepted after the step.\<close>

theorem rotation_step_keeps_unverified_login:
  assumes "fleet E login held good opts_ok"
    and "safe held good opts_ok l fp pl (unverified login pl l) w"
  shows "fp \<in> held (w_hosts (snd (Step E rid userID w))) l"
  by (rule fleet.safe_held [OF assms(1) upholdsD [OF fleet.held_Step [OF assms(1)] assms(2)]])

theorem rotation_step_keeps_unverified_login_witness:
  "''A'' \<in> linux_held toy_ssh (w_hosts (snd (Step toy_env 8 2 (toy_world RotationRetiring RTFailed)))) toy_login"
  by (rule rotation_step_keeps_unverified_login [OF toy_fleet.fleet_axioms toy_safe]) simp

text \<open>C1. Rotation cannot lock an account out when its new keys do not work.  Premises: the login refuses
  authentication; no rotation row that addresses it is in the verified state at the start (such a row, from a time the
  login did accept, is retired as usual and the old key goes); no two accounts have one identifier; and the
  connectors hold several keys per login (\<open>fleet\<close>), so the replace-in-one-step path of single-key devices is excluded.
  Then no sequence of worker runs of rotation jobs, lease expiries, plans, starts, approvals, aborts, soak ticks and
  non-pruning deployments, interleaved with restarts of the process, clock movements and any statement and
  network faults, ever removes a key the login accepted at the start.\<close>

theorem rotation_never_locks_out:
  assumes "fleet E login held good opts_ok" and "refuses E login l" and "keyed pl"
    and "safe held good opts_ok l fp pl (unverified login pl l) w"
    and "rtranclp (engine_step E) w w'"
  shows "fp \<in> held (w_hosts w') l"
  by (rule fleet.safe_held [OF assms(1) fleet.engine_keeps [OF assms(1,5,2,3,4)]])

theorem rotation_never_locks_out_witness:
  "''A'' \<in> linux_held toy_ssh (w_hosts (snd (runner_step DefaultOptions 0 (rotation_table toy_env) ''w'' []
      (toy_world RotationVerifying RTStaged)))) toy_login"
proof -
  have "rtranclp (engine_step toy_env) (toy_world RotationVerifying RTStaged)
     (snd (runner_step DefaultOptions 0 (rotation_table toy_env) ''w'' [] (toy_world RotationVerifying RTStaged)))"
    by (rule r_into_rtranclp) (rule engine_step.Work)
  moreover have "keyed (places (toy_world RotationVerifying RTStaged))"
    by (simp add: keyed_def places_def toy_world_def)
  ultimately show ?thesis
    by (intro rotation_never_locks_out [OF toy_fleet.fleet_axioms toy_refuses _ toy_safe]) simp_all
qed

end
