(* ===== verification/Cronx.thy ===== *)
theory Cronx
  imports GoLib "HOL-Library.Word"
begin

text \<open>
  Cron expressions (\<open>internal/cronx\<close>): parsing into bit masks and the next activation.  Clock readings
  are in UTC and not before 1970; the civil calendar of \<open>time.Time\<close> is given by the lengths of years
  and months.  \<open>time.ParseDuration\<close>, which only the \<open>@every\<close> macro calls, is a parameter.
\<close>

unbundle bit_operations_syntax

section \<open>Machine integers and strconv.Atoi\<close>

definition wrap64 :: "int \<Rightarrow> int" where
  "wrap64 x = (x + 2 ^ 63) mod 2 ^ 64 - 2 ^ 63"

definition digit_value :: "char \<Rightarrow> int option" where
  "digit_value c = (let n = of_char c :: int in if 48 \<le> n \<and> n \<le> 57 then Some (n - 48) else None)"

fun digits_value :: "int \<Rightarrow> string \<Rightarrow> int option" where
  "digits_value acc [] = Some acc"
| "digits_value acc (c # s) = (case digit_value c of None \<Rightarrow> None | Some d \<Rightarrow> digits_value (10 * acc + d) s)"

definition Atoi :: "string \<Rightarrow> int option" where
  "Atoi s = (let (neg, ds) = (case s of [] \<Rightarrow> (False, [])
        | c # cs \<Rightarrow> if c = CHR ''-'' then (True, cs) else if c = CHR ''+'' then (False, cs) else (False, s)) in
     if ds = [] then None
     else case digits_value 0 ds of None \<Rightarrow> None
        | Some n \<Rightarrow> let v = (if neg then - n else n) in if - (2 ^ 63) \<le> v \<and> v < 2 ^ 63 then Some v else None)"

text \<open>\<open>strings.Fields\<close>: the maximal runs without white space.\<close>

function fields_from :: "string \<Rightarrow> string \<Rightarrow> string list" where
  "fields_from cur s = (case s of
       [] \<Rightarrow> (if cur = [] then [] else [rev cur])
     | c # cs \<Rightarrow>
         if space_len white_space s = 0 then fields_from (c # cur) cs
         else (if cur = [] then [] else [rev cur]) @ fields_from [] (drop (space_len white_space s) s))"
  by pat_completeness auto
termination
  by (relation "measure (\<lambda>(cur, s). length s)") auto

declare fields_from.simps [simp del]

definition Fields :: "string \<Rightarrow> string list" where
  "Fields s = fields_from [] s"

section \<open>Parsing (cronx.go)\<close>

record schedule =
  sc_minute :: "64 word"
  sc_hour :: "64 word"
  sc_dom :: "64 word"
  sc_month :: "64 word"
  sc_dow :: "64 word"
  sc_starDOM :: bool
  sc_starDOW :: bool
  sc_every :: duration
  sc_expr :: string

record fieldSpec =
  fs_name :: string
  fs_min :: int
  fs_max :: int
  fs_aliases :: "(string \<times> int) list"

definition minuteSpec :: fieldSpec where
  "minuteSpec = \<lparr>fs_name = ''minute'', fs_min = 0, fs_max = 59, fs_aliases = []\<rparr>"
definition hourSpec :: fieldSpec where
  "hourSpec = \<lparr>fs_name = ''hour'', fs_min = 0, fs_max = 23, fs_aliases = []\<rparr>"
definition domSpec :: fieldSpec where
  "domSpec = \<lparr>fs_name = ''day of month'', fs_min = 1, fs_max = 31, fs_aliases = []\<rparr>"
definition monthSpec :: fieldSpec where
  "monthSpec = \<lparr>fs_name = ''month'', fs_min = 1, fs_max = 12, fs_aliases =
     [(''jan'', 1), (''feb'', 2), (''mar'', 3), (''apr'', 4), (''may'', 5), (''jun'', 6),
      (''jul'', 7), (''aug'', 8), (''sep'', 9), (''oct'', 10), (''nov'', 11), (''dec'', 12)]\<rparr>"
definition dowSpec :: fieldSpec where
  "dowSpec = \<lparr>fs_name = ''day of week'', fs_min = 0, fs_max = 6, fs_aliases =
     [(''sun'', 0), (''mon'', 1), (''tue'', 2), (''wed'', 3), (''thu'', 4), (''fri'', 5), (''sat'', 6)]\<rparr>"

definition parseValue :: "string \<Rightarrow> fieldSpec \<Rightarrow> int result" where
  "parseValue s0 spec = (let s = trim_space s0 in
     case map_of (fs_aliases spec) (to_lower s) of
       Some v \<Rightarrow> Inr v
     | None \<Rightarrow> (case Atoi s of
         None \<Rightarrow> Inl (ErrOther ''cronx: not a valid value'')
       | Some v0 \<Rightarrow> let v = (if fs_name spec = fs_name dowSpec \<and> v0 = 7 then 0 else v0) in
           if v < fs_min spec \<or> v > fs_max spec then Inl (ErrOther ''cronx: value is outside the range'') else Inr v))"

text \<open>\<open>1 << uint(v)\<close>: a negative \<open>int\<close> is a shift count past the width, which gives 0.\<close>

definition shl_one :: "int \<Rightarrow> 64 word" where
  "shl_one v = (if 0 \<le> v \<and> v < 64 then push_bit (nat v) 1 else 0)"

text \<open>
  The loop \<open>for v := lo; v <= hi; v += step\<close> on 64-bit integers, whose addition wraps.  The first
  argument bounds the rounds; \<open>mark_steps_enough\<close> below shows that 130 are always enough.
\<close>

fun mark_steps :: "nat \<Rightarrow> int \<Rightarrow> int \<Rightarrow> int \<Rightarrow> 64 word \<Rightarrow> 64 word option" where
  "mark_steps 0 v hi step bits = None"
| "mark_steps (Suc n) v hi step bits =
     (if v \<le> hi then mark_steps n (wrap64 (v + step)) hi step (bits OR shl_one v) else Some bits)"

definition mark_fuel :: nat where "mark_fuel = 130"

definition parse_step :: "string \<Rightarrow> (string \<times> int) result" where
  "parse_step part = (case cut (CHR ''/'') part of (base, stepStr, found) \<Rightarrow>
     if \<not> found then Inr (part, 1)
     else (case Atoi (trim_space stepStr) of
             None \<Rightarrow> Inl (ErrOther ''cronx: not a valid step'')
           | Some n \<Rightarrow> if n \<le> 0 then Inl (ErrOther ''cronx: not a valid step'') else Inr (trim_space base, n)))"

definition parse_bounds :: "string \<Rightarrow> int \<Rightarrow> fieldSpec \<Rightarrow> (int \<times> int) result" where
  "parse_bounds part step spec =
     (if part = ''*'' \<or> part = ''?'' then Inr (fs_min spec, fs_max spec)
      else if CHR ''-'' \<in> set part then
        (case cut (CHR ''-'') part of (loStr, hiStr, _) \<Rightarrow>
         bindR (parseValue loStr spec) (\<lambda>lo. bindR (parseValue hiStr spec) (\<lambda>hi.
         if lo > hi then Inl (ErrOther ''cronx: descending range'') else Inr (lo, hi))))
      else bindR (parseValue part spec) (\<lambda>v. Inr (v, if step > 1 then fs_max spec else v)))"

definition parse_entry :: "fieldSpec \<Rightarrow> string \<Rightarrow> 64 word \<Rightarrow> 64 word result" where
  "parse_entry spec part0 bits = (let part = trim_space part0 in
     if part = [] then Inl (ErrOther ''cronx: empty entry'')
     else bindR (parse_step part) (\<lambda>(base, step). bindR (parse_bounds base step spec) (\<lambda>(lo, hi).
       case mark_steps mark_fuel lo hi step bits of
         None \<Rightarrow> Inl (ErrOther ''out of fuel'') | Some b \<Rightarrow> Inr b)))"

fun parse_entries :: "fieldSpec \<Rightarrow> string list \<Rightarrow> 64 word \<Rightarrow> 64 word result" where
  "parse_entries spec [] bits = Inr bits"
| "parse_entries spec (p # ps) bits = bindR (parse_entry spec p bits) (parse_entries spec ps)"

definition parseField :: "string \<Rightarrow> fieldSpec \<Rightarrow> 64 word result" where
  "parseField field spec = bindR (parse_entries spec (split_on (CHR '','') field) 0) (\<lambda>bits.
     if bits = 0 then Inl (ErrOther ''cronx: the field matches nothing'') else Inr bits)"

definition isStar :: "string \<Rightarrow> bool" where
  "isStar field \<longleftrightarrow> field = ''*'' \<or> field = ''?''"

text \<open>The five-field form.\<close>

definition parse_five :: "string \<Rightarrow> schedule result" where
  "parse_five trimmed = (case Fields trimmed of
       [f0, f1, f2, f3, f4] \<Rightarrow>
         bindR (parseField f0 minuteSpec) (\<lambda>mi.
         bindR (parseField f1 hourSpec) (\<lambda>h.
         bindR (parseField f2 domSpec) (\<lambda>dom.
         bindR (parseField f3 monthSpec) (\<lambda>mo.
         bindR (parseField f4 dowSpec) (\<lambda>dow.
         Inr \<lparr>sc_minute = mi, sc_hour = h, sc_dom = dom, sc_month = mo, sc_dow = dow,
              sc_starDOM = isStar f2, sc_starDOW = isStar f4, sc_every = 0, sc_expr = trimmed\<rparr>)))))
     | _ \<Rightarrow> Inl (ErrOther ''cronx: a cron expression has 5 fields''))"

definition macros :: "(string \<times> string) list" where
  "macros = [(''@hourly'', ''0 * * * *''), (''@daily'', ''0 0 * * *''), (''@midnight'', ''0 0 * * *''),
     (''@weekly'', ''0 0 * * 0''), (''@monthly'', ''0 0 1 * *''), (''@yearly'', ''0 0 1 1 *''), (''@annually'', ''0 0 1 1 *'')]"

definition parseMacro :: "(string \<Rightarrow> duration option) \<Rightarrow> string \<Rightarrow> schedule result" where
  "parseMacro parseDuration expr =
     (if prefix ''@every '' expr then
        (case parseDuration (trim_space (drop (length ''@every '') expr)) of
           None \<Rightarrow> Inl (ErrOther ''cronx: not a valid duration'')
         | Some d \<Rightarrow> if d < Minute then Inl (ErrOther ''cronx: @every intervals shorter than a minute are refused'')
             else Inr \<lparr>sc_minute = 0, sc_hour = 0, sc_dom = 0, sc_month = 0, sc_dow = 0,
                    sc_starDOM = False, sc_starDOW = False, sc_every = d, sc_expr = expr\<rparr>)
      else (case map_of macros expr of
           None \<Rightarrow> Inl (ErrOther ''cronx: unknown macro'')
         | Some equivalent \<Rightarrow> bindR (parse_five equivalent) (\<lambda>s. Inr (s\<lparr>sc_expr := expr\<rparr>))))"

definition Parse :: "(string \<Rightarrow> duration option) \<Rightarrow> string \<Rightarrow> schedule result" where
  "Parse parseDuration expr = (let trimmed = trim_space expr in
     if trimmed = [] then Inl (ErrOther ''cronx: the expression is empty'')
     else if prefix ''@'' trimmed then parseMacro parseDuration trimmed
     else parse_five trimmed)"

section \<open>The calendar of time.Time in UTC\<close>

definition leap :: "nat \<Rightarrow> bool" where
  "leap y \<longleftrightarrow> y mod 4 = 0 \<and> (y mod 100 \<noteq> 0 \<or> y mod 400 = 0)"

definition year_len :: "nat \<Rightarrow> nat" where
  "year_len y = (if leap y then 366 else 365)"

definition month_len :: "nat \<Rightarrow> nat \<Rightarrow> nat" where
  "month_len y m = (if m = 2 then (if leap y then 29 else 28) else if m \<in> {4, 6, 9, 11} then 30 else 31)"

lemma year_len_pos [simp]: "0 < year_len y" and month_len_pos [simp]: "0 < month_len y m"
  by (simp_all add: year_len_def month_len_def)

lemma less_by_length [termination_simp]:
  "\<not> n < year_len y \<Longrightarrow> n - year_len y < n" "\<not> n < month_len y m \<Longrightarrow> n - month_len y m < n"
  using year_len_pos [of y] month_len_pos [of y m] by linarith+

text \<open>Year and day of the year of a day number counted from 1 January \<open>y\<close>; month and day of a day of the year.\<close>

fun find_year :: "nat \<Rightarrow> nat \<Rightarrow> nat \<times> nat" where
  "find_year y n = (if n < year_len y then (y, n) else find_year (Suc y) (n - year_len y))"

fun find_month :: "nat \<Rightarrow> nat \<Rightarrow> nat \<Rightarrow> nat \<times> nat" where
  "find_month y m n = (if 12 \<le> m \<or> n < month_len y m then (m, Suc n) else find_month y (Suc m) (n - month_len y m))"

declare find_year.simps [simp del] find_month.simps [simp del]

definition civil :: "nat \<Rightarrow> nat \<times> nat \<times> nat" where
  "civil day = (case find_year 1970 day of (y, n) \<Rightarrow> (y, find_month y 1 n))"

text \<open>\<open>time.Date(y, m, d, ...)\<close> as a day number, for a month in 1-12; a day past the end of the month
  runs into the next one.\<close>

definition days_before_year :: "nat \<Rightarrow> nat" where
  "days_before_year y = sum_list (map year_len [1970..<y])"

definition days_before_month :: "nat \<Rightarrow> nat \<Rightarrow> nat" where
  "days_before_month y m = sum_list (map (month_len y) [1..<m])"

definition date_day :: "nat \<Rightarrow> nat \<Rightarrow> nat \<Rightarrow> nat" where
  "date_day y m d = days_before_year y + days_before_month y m + (d - 1)"

definition weekday :: "nat \<Rightarrow> nat" where
  "weekday day = (day + 4) mod 7"


lemma sum_list_upt_Suc: "i \<le> j \<Longrightarrow> sum_list (map f [i..<Suc j]) = sum_list (map f [i..<j]) + (f j :: nat)"
  by simp

lemma find_year_add:
  "r < year_len y' \<Longrightarrow> y \<le> y' \<Longrightarrow> find_year y (sum_list (map year_len [y..<y']) + r) = (y', r)"
proof (induction "y' - y" arbitrary: y)
  case 0
  then show ?case by (simp add: find_year.simps [of y])
next
  case (Suc k)
  then have "sum_list (map year_len [y..<y']) = year_len y + sum_list (map year_len [Suc y..<y'])"
    by (simp add: upt_conv_Cons)
  with Suc show ?case by (simp add: find_year.simps [of y])
qed

lemma find_month_add:
  "r < month_len y m' \<Longrightarrow> m \<le> m' \<Longrightarrow> m' \<le> 12 \<Longrightarrow>
     find_month y m (sum_list (map (month_len y) [m..<m']) + r) = (m', Suc r)"
proof (induction "m' - m" arbitrary: m)
  case 0
  then show ?case by (simp add: find_month.simps [of y m])
next
  case (Suc k)
  then have "sum_list (map (month_len y) [m..<m']) = month_len y m + sum_list (map (month_len y) [Suc m..<m'])"
    and "m < 12" by (simp_all add: upt_conv_Cons)
  with Suc show ?case by (simp add: find_month.simps [of y m])
qed

lemma find_year_split:
  "find_year y n = (y', r) \<Longrightarrow> y \<le> y' \<and> r < year_len y' \<and> n = sum_list (map year_len [y..<y']) + r"
proof (induction y n rule: find_year.induct)
  case (1 y n)
  show ?case
  proof (cases "n < year_len y")
    case False
    with 1 have "Suc y \<le> y' \<and> r < year_len y' \<and> n - year_len y = sum_list (map year_len [Suc y..<y']) + r"
      by (simp add: find_year.simps [of y n])
    with False show ?thesis by (auto simp: upt_conv_Cons)
  qed (use 1 in \<open>simp add: find_year.simps [of y n]\<close>)
qed

lemma days_in_year: "sum_list (map (month_len y) [1..<13]) = year_len y"
  by (simp add: upt_rec numeral_eq_Suc month_len_def year_len_def)

lemmas days_in_year' [simp] = days_in_year [unfolded One_nat_def]

lemma find_month_split:
  "find_month y m n = (m', d) \<Longrightarrow> m \<le> 12 \<Longrightarrow> n < sum_list (map (month_len y) [m..<13]) \<Longrightarrow>
     m \<le> m' \<and> m' \<le> 12 \<and> 1 \<le> d \<and> d \<le> month_len y m' \<and> n = sum_list (map (month_len y) [m..<m']) + (d - 1)"
proof (induction y m n rule: find_month.induct)
  case (1 y m n)
  show ?case
  proof (cases "12 \<le> m \<or> n < month_len y m")
    case True
    with 1 show ?thesis by (auto simp: find_month.simps [of y m n] upt_conv_Cons)
  next
    case False
    with 1(3,4) have "n - month_len y m < sum_list (map (month_len y) [Suc m..<13])"
      by (auto simp: upt_conv_Cons)
    with False 1 have "Suc m \<le> m' \<and> m' \<le> 12 \<and> 1 \<le> d \<and> d \<le> month_len y m'
        \<and> n - month_len y m = sum_list (map (month_len y) [Suc m..<m']) + (d - 1)"
      by (simp add: find_month.simps [of y m n])
    with False show ?thesis by (auto simp: upt_conv_Cons)
  qed
qed

text \<open>A day number and its date determine each other.\<close>

definition valid_date :: "nat \<Rightarrow> nat \<Rightarrow> nat \<Rightarrow> bool" where
  "valid_date y m d \<longleftrightarrow> 1970 \<le> y \<and> 1 \<le> m \<and> m \<le> 12 \<and> 1 \<le> d \<and> d \<le> month_len y m"

lemma civil_valid: "civil n = (y, m, d) \<Longrightarrow> valid_date y m d \<and> date_day y m d = n"
proof -
  assume c: "civil n = (y, m, d)"
  then obtain r where y: "find_year 1970 n = (y, r)" and m: "find_month y 1 r = (m, d)"
    by (auto simp: civil_def split: prod.splits)
  from find_year_split [OF y] have "r < year_len y" "1970 \<le> y" "n = days_before_year y + r"
    by (simp_all add: days_before_year_def)
  with find_month_split [OF m] show ?thesis
    by (simp add: valid_date_def date_day_def days_before_month_def days_in_year)
qed

lemma civil_date_day: "valid_date y m d \<Longrightarrow> civil (date_day y m d) = (y, m, d)"
proof -
  assume v: "valid_date y m d"
  let ?r = "days_before_month y m + (d - 1)"
  have "days_before_month y m + sum_list (map (month_len y) [m..<13]) = year_len y"
    using v upt_add_eq_append [of 1 m "13 - m"] days_in_year [of y]
    by (simp add: valid_date_def days_before_month_def del: days_in_year')
  moreover have "month_len y m \<le> sum_list (map (month_len y) [m..<13])"
    using v by (simp add: upt_conv_Cons valid_date_def)
  ultimately have "?r < year_len y"
    using v by (auto simp: valid_date_def)
  with v have "find_year 1970 (days_before_year y + ?r) = (y, ?r)"
    using find_year_add [of ?r y 1970] by (simp add: days_before_year_def valid_date_def)
  moreover have "find_month y 1 ?r = (m, d)"
    using v find_month_add [of "d - 1" y m 1] by (auto simp: valid_date_def days_before_month_def)
  ultimately show ?thesis by (simp add: civil_def date_day_def add.assoc)
qed

text \<open>\<open>time.Date(y, m, 1, ...).AddDate(0, 1, 0)\<close>.\<close>

definition first_of_next :: "nat \<Rightarrow> nat \<Rightarrow> nat" where
  "first_of_next y m = (if m = 12 then date_day (Suc y) 1 1 else date_day y (Suc m) 1)"

lemma first_of_next_eq: "valid_date y m d \<Longrightarrow> first_of_next y m = date_day y m 1 + month_len y m"
proof (cases "m = 12")
  case True
  have "days_before_month y 12 + month_len y 12 = year_len y"
    unfolding days_in_year [symmetric] days_before_month_def
    using sum_list_upt_Suc [of 1 12 "month_len y"] by simp
  moreover assume "valid_date y m d"
  ultimately show ?thesis
    using True by (simp add: first_of_next_def date_day_def days_before_month_def days_before_year_def valid_date_def)
next
  case False
  moreover assume "valid_date y m d"
  ultimately show ?thesis
    by (simp add: first_of_next_def date_day_def days_before_month_def valid_date_def)
qed

text \<open>The days of a month are consecutive, so skipping to the next month skips no other month.\<close>

lemma same_month:
  assumes "civil n = (y, m, d)" and "n \<le> k" and "k < first_of_next y m"
  shows "\<exists>d'. civil k = (y, m, d')"
proof -
  from civil_valid [OF assms(1)] have v: "valid_date y m d" and n: "n = date_day y m d" by auto
  let ?d = "k - date_day y m 1 + 1"
  have "k = date_day y m ?d" and "valid_date y m ?d"
    using v n assms(2,3) first_of_next_eq [OF v] by (auto simp: date_day_def valid_date_def)
  then show ?thesis using civil_date_day by metis
qed

lemma first_of_next_gt: "civil n = (y, m, d) \<Longrightarrow> n < first_of_next y m"
proof -
  assume "civil n = (y, m, d)"
  from civil_valid [OF this] have "valid_date y m d" "n = date_day y m d" by auto
  then show ?thesis using first_of_next_eq [of y m d] by (auto simp: date_day_def valid_date_def)
qed

section \<open>Next\<close>

definition hits :: "64 word \<Rightarrow> nat \<Rightarrow> bool" where
  "hits field n \<longleftrightarrow> field AND shl_one (int n) \<noteq> 0"

definition dayMatches :: "schedule \<Rightarrow> nat \<Rightarrow> nat \<Rightarrow> bool" where
  "dayMatches s d wd = (let domHit = hits (sc_dom s) d; dowHit = hits (sc_dow s) wd in
     if sc_starDOM s \<and> sc_starDOW s then True
     else if sc_starDOM s then dowHit
     else if sc_starDOW s then domHit
     else domHit \<or> dowHit)"

lemma skip_forward: "civil (t div 1440) = (y, m, d) \<Longrightarrow> t < 1440 * first_of_next y m"
  using first_of_next_gt [of "t div 1440" y m d] by linarith

text \<open>The search, on minutes since 1970.\<close>

function next_from :: "schedule \<Rightarrow> nat \<Rightarrow> nat \<Rightarrow> nat option" where
  "next_from s limit t =
     (if \<not> t < limit then None
      else case civil (t div 1440) of (y, mo, d) \<Rightarrow>
        if \<not> hits (sc_month s) mo then next_from s limit (1440 * first_of_next y mo)
        else if \<not> dayMatches s d (weekday (t div 1440)) then next_from s limit (1440 * Suc (t div 1440))
        else if \<not> hits (sc_hour s) (t div 60 mod 24) then next_from s limit (60 * Suc (t div 60))
        else if \<not> hits (sc_minute s) (t mod 60) then next_from s limit (Suc t)
        else Some t)"
  by pat_completeness auto
termination
  by (relation "measure (\<lambda>(s, limit, t). limit - t)") (auto intro!: diff_less_mono2 skip_forward [OF sym])

declare next_from.simps [simp del]

definition next_minute :: "gtime \<Rightarrow> nat" where
  "next_minute t = Suc (nat (t div Minute))"

text \<open>\<open>t.AddDate(5, 0, 0)\<close>.\<close>

definition five_years_on :: "nat \<Rightarrow> nat" where
  "five_years_on m = (case civil (m div 1440) of (y, mo, d) \<Rightarrow> 1440 * date_day (y + 5) mo d + m mod 1440)"

text \<open>The zero time of the code is \<open>None\<close>.\<close>

definition Next :: "schedule \<Rightarrow> gtime \<Rightarrow> gtime option" where
  "Next s t =
     (if sc_every s > 0 then Some ((t + sc_every s) div Second * Second)
      else map_option (\<lambda>m. int m * Minute) (next_from s (five_years_on (next_minute t)) (next_minute t)))"

definition NextAfter :: "(string \<Rightarrow> duration option) \<Rightarrow> string \<Rightarrow> gtime \<Rightarrow> gtime result" where
  "NextAfter parseDuration expr t = bindR (Parse parseDuration expr) (\<lambda>s.
     case Next s t of None \<Rightarrow> Inl (ErrOther ''cronx: never fires'') | Some n \<Rightarrow> Inr n)"

text \<open>\<open>Validate\<close> at the clock reading \<open>now\<close>.\<close>

definition cron_Validate :: "(string \<Rightarrow> duration option) \<Rightarrow> string \<Rightarrow> gtime \<Rightarrow> unit result" where
  "cron_Validate parseDuration expr now = bindR (NextAfter parseDuration expr now) (\<lambda>_. Inr ())"

section \<open>Lemmas\<close>

lemma wrap64_small [simp]: "- (2 ^ 63) \<le> x \<Longrightarrow> x < 2 ^ 63 \<Longrightarrow> wrap64 x = x"
  by (simp add: wrap64_def)

lemma wrap64_once: "2 ^ 63 \<le> x \<Longrightarrow> x < 2 ^ 64 \<Longrightarrow> wrap64 x = x - 2 ^ 64"
  using minus_mod_self2 [of "x + 2 ^ 63" "2 ^ 64"] mod_pos_pos_trivial [of "x + 2 ^ 63 - 2 ^ 64" "2 ^ 64"]
  by (simp add: wrap64_def)

text \<open>The loop over a range ends within \<open>mark_fuel\<close> rounds, whatever the step.\<close>

lemma mark_steps_small:
  "0 \<le> v \<Longrightarrow> hi < 64 \<Longrightarrow> 1 \<le> step \<Longrightarrow> step \<le> 2 ^ 63 - 64 \<Longrightarrow> nat (hi - v + 1) < n \<Longrightarrow>
     \<exists>b. mark_steps n v hi step bits = Some b"
proof (induction n arbitrary: v bits)
  case (Suc n)
  then show ?case by (cases "v \<le> hi") auto
qed simp

lemma mark_steps_big:
  "-64 < v \<Longrightarrow> v < 64 \<Longrightarrow> hi < 64 \<Longrightarrow> 1 \<le> k \<Longrightarrow> k < 64 \<Longrightarrow> 2 * nat v + 4 \<le> n \<Longrightarrow>
     \<exists>b. mark_steps n v hi (2 ^ 63 - k) bits = Some b"
proof (induction n arbitrary: v bits rule: less_induct)
  case (less n)
  define n' where "n' = n - 2"
  with less have n: "n = Suc (Suc n')" by simp
  show ?case
  proof (cases "v < k")
    case True
    with less.prems show ?thesis by (simp add: n)
  next
    case False
    have w: "wrap64 (v + (2 ^ 63 - k)) = v - k - 2 ^ 63"
      using less.prems False by (subst wrap64_once) auto
    have w': "wrap64 (v - k - 2 ^ 63 + (2 ^ 63 - k)) = v - 2 * k"
      using less.prems False by (subst wrap64_small) auto
    have "\<exists>b. mark_steps n' (v - 2 * k) hi (2 ^ 63 - k) ((bits OR shl_one v) OR shl_one (v - k - 2 ^ 63)) = Some b"
      using less.prems False n by (intro less.IH) auto
    moreover have "v - k - 2 ^ 63 \<le> hi" if "v \<le> hi" using that less.prems by simp
    ultimately show ?thesis by (simp only: n mark_steps.simps w w') auto
  qed
qed

lemma mark_steps_enough:
  assumes "0 \<le> lo" and "lo < 64" and "hi < 64" and "1 \<le> step" and "step < 2 ^ 63"
  shows "\<exists>b. mark_steps mark_fuel lo hi step bits = Some b"
proof (cases "step \<le> 2 ^ 63 - 64")
  case True
  with assms show ?thesis by (intro mark_steps_small) (auto simp: mark_fuel_def)
next
  case False
  with assms mark_steps_big [of lo hi "2 ^ 63 - step" mark_fuel bits] show ?thesis
    by (auto simp: mark_fuel_def)
qed

lemma bit_shl_one: "bit (shl_one v) n \<longleftrightarrow> int n = v \<and> n < 64"
  by (auto simp: shl_one_def bit_exp_iff)

lemma hits_iff: "hits m n \<longleftrightarrow> bit m n"
proof -
  have "m AND shl_one (int n) \<noteq> 0 \<longleftrightarrow> (\<exists>i. bit m i \<and> i = n \<and> n < 64)"
    by (auto simp: bit_eq_iff [of "_ :: 64 word"] bit_and_iff bit_shl_one)
  moreover have "bit m n \<Longrightarrow> n < 64" using bit_imp_le_length [of m n] by simp
  ultimately show ?thesis by (auto simp: hits_def)
qed

lemma mark_steps_bits:
  "mark_steps n v hi step bits = Some b \<Longrightarrow> 0 \<le> v \<Longrightarrow> hi < 64 \<Longrightarrow> 1 \<le> step \<Longrightarrow> step \<le> 2 ^ 63 - 64 \<Longrightarrow>
     hits b i \<longleftrightarrow> hits bits i \<or> (v \<le> int i \<and> int i \<le> hi \<and> step dvd int i - v)"
proof (induction n arbitrary: v bits)
  case (Suc n)
  show ?case
  proof (cases "v \<le> hi")
    case True
    with Suc have "hits b i \<longleftrightarrow> hits (bits OR shl_one v) i \<or> (v + step \<le> int i \<and> int i \<le> hi \<and> step dvd int i - (v + step))"
      by (intro Suc.IH) auto
    moreover have "step dvd int i - (v + step) \<longleftrightarrow> step dvd int i - v"
      by (metis diff_diff_eq dvd_minus_self dvd_diff_left_iff dvd_refl)
    moreover have "v + step \<le> int i" if "step dvd int i - v" "v \<le> int i" "int i \<noteq> v"
      using that zdvd_imp_le [of step "int i - v"] by simp
    ultimately show ?thesis
      using True Suc.prems(3,4) by (auto simp: hits_iff bit_or_iff bit_shl_one)
  qed (use Suc.prems in auto)
qed simp

text \<open>A minute fires when each of its five fields is in the schedule.\<close>

definition fires :: "schedule \<Rightarrow> nat \<Rightarrow> bool" where
  "fires s m = (case civil (m div 1440) of (y, mo, d) \<Rightarrow>
     hits (sc_month s) mo \<and> dayMatches s d (weekday (m div 1440))
     \<and> hits (sc_hour s) (m div 60 mod 24) \<and> hits (sc_minute s) (m mod 60))"

lemma div_window: "(a::nat) * q \<le> k \<Longrightarrow> k < a * Suc q \<Longrightarrow> 0 < a \<Longrightarrow> k div a = q"
  by (simp add: div_nat_eqI mult.commute)

lemma next_from_earliest:
  "case next_from s limit t of
     Some u \<Rightarrow> t \<le> u \<and> u < limit \<and> fires s u \<and> (\<forall>k. t \<le> k \<and> k < u \<longrightarrow> \<not> fires s k)
   | None \<Rightarrow> \<forall>k. t \<le> k \<and> k < limit \<longrightarrow> \<not> fires s k"
proof (induction "limit - t" arbitrary: t rule: less_induct)
  case less
  show ?case
  proof (cases "t < limit")
    case True
    obtain y mo d where c: "civil (t div 1440) = (y, mo, d)" by (cases "civil (t div 1440)")
    have skip: ?thesis if "next_from s limit t = next_from s limit t'" and "t < t'" and "\<And>k. t \<le> k \<Longrightarrow> k < t' \<Longrightarrow> \<not> fires s k" for t'
    proof -
      have "limit - t' < limit - t" using that(2) True by (rule diff_less_mono2)
      from less.hyps [OF this] that show ?thesis
        by (auto split: option.splits) (meson linorder_le_less_linear order_trans)+
    qed
    have month: "\<not> fires s k" if "\<not> hits (sc_month s) mo" "t \<le> k" "k < 1440 * first_of_next y mo" for k
    proof -
      from that have "t div 1440 \<le> k div 1440" "k div 1440 < first_of_next y mo"
        by (auto simp: div_le_mono less_mult_imp_div_less mult.commute)
      with same_month [OF c] that(1) show ?thesis by (fastforce simp: fires_def)
    qed
    have day: "\<not> fires s k" if "\<not> dayMatches s d (weekday (t div 1440))" "t \<le> k" "k < 1440 * Suc (t div 1440)" for k
    proof -
      from that have "k div 1440 = t div 1440" by (intro div_window) auto
      with that(1) c show ?thesis by (simp add: fires_def)
    qed
    have hour: "\<not> fires s k" if "\<not> hits (sc_hour s) (t div 60 mod 24)" "t \<le> k" "k < 60 * Suc (t div 60)" for k
    proof -
      from that have "k div 60 = t div 60" by (intro div_window) auto
      with that(1) c show ?thesis by (simp add: fires_def split: prod.splits)
    qed
    have minute: "\<not> fires s t" if "\<not> hits (sc_minute s) (t mod 60)" using that by (simp add: fires_def split: prod.splits)
    show ?thesis
    proof (cases "hits (sc_month s) mo")
      case False
      then have "next_from s limit t = next_from s limit (1440 * first_of_next y mo)"
        using True c by (simp add: next_from.simps [of s limit t])
      from skip [OF this skip_forward [OF c]] month False show ?thesis by blast
    next
      case m: True
      show ?thesis
      proof (cases "dayMatches s d (weekday (t div 1440))")
        case False
        then have "next_from s limit t = next_from s limit (1440 * Suc (t div 1440))"
          using True c m by (simp add: next_from.simps [of s limit t])
        from skip [OF this] day False show ?thesis by fastforce
      next
        case d: True
        show ?thesis
        proof (cases "hits (sc_hour s) (t div 60 mod 24)")
          case False
          then have "next_from s limit t = next_from s limit (60 * Suc (t div 60))"
            using True c m d by (simp add: next_from.simps [of s limit t])
          from skip [OF this] hour False show ?thesis by fastforce
        next
          case h: True
          show ?thesis
          proof (cases "hits (sc_minute s) (t mod 60)")
            case False
            then have "next_from s limit t = next_from s limit (Suc t)"
              using True c m d h by (simp add: next_from.simps [of s limit t])
            from skip [OF this] minute False show ?thesis by (metis le_antisym less_Suc_eq_le lessI)
          qed (use True c m d h in \<open>auto simp: next_from.simps [of s limit t] fires_def\<close>)
        qed
      qed
    qed
  qed (auto simp: next_from.simps [of s limit t])
qed

lemma civil_year_mono: "civil a = (y1, m1, d1) \<Longrightarrow> civil b = (y2, m2, d2) \<Longrightarrow> a \<le> b \<Longrightarrow> y1 \<le> y2"
proof (rule ccontr)
  assume c: "civil a = (y1, m1, d1)" "civil b = (y2, m2, d2)" "a \<le> b" "\<not> y1 \<le> y2"
  obtain r1 r2 where f: "find_year 1970 a = (y1, r1)" "find_year 1970 b = (y2, r2)"
    using c by (auto simp: civil_def split: prod.splits)
  have "b < days_before_year (Suc y2)"
    using find_year_split [OF f(2)] by (simp add: days_before_year_def)
  also have "\<dots> \<le> days_before_year y1"
  proof -
    have "[1970..<y1] = [1970..<Suc y2] @ [Suc y2..<y1]"
      using c(4) find_year_split [OF f(2)] upt_add_eq_append [of 1970 "Suc y2" "y1 - Suc y2"] by simp
    then show ?thesis by (simp add: days_before_year_def)
  qed
  also have "\<dots> \<le> a" using find_year_split [OF f(1)] by (simp add: days_before_year_def)
  finally show False using c(3) by simp
qed

text \<open>29 February 2096 and 29 February 2104 are more than five years apart.\<close>

lemma leap_day_gap:
  assumes "sc_every s \<le> 0" and "\<And>m. hits (sc_month s) m \<Longrightarrow> m = 2" and "\<And>d wd. dayMatches s d wd \<Longrightarrow> d = 29"
  shows "Next s (int (date_day 2096 3 1) * 1440 * Minute) = None"
proof -
  let ?d = "date_day 2096 3 1" and ?e = "date_day 2101 3 1"
  have dates: "civil ?d = (2096, 3, 1)" "civil ?e = (2101, 3, 1)"
    by (simp_all add: civil_date_day valid_date_def month_len_def)
  have n: "next_minute (int ?d * 1440 * Minute) = Suc (1440 * ?d)"
    by (simp add: next_minute_def nat_mult_distrib)
  have q: "Suc (1440 * x) div 1440 = x" "Suc (1440 * x) mod 1440 = 1" for x :: nat
    using div_mult_self2 [of 1440 1 x] mod_mult_self2 [of 1 1440 x] by simp_all
  have five: "five_years_on (Suc (1440 * ?d)) = 1440 * ?e + 1"
    by (simp only: five_years_on_def q dates) simp
  have "\<not> fires s k" if "Suc (1440 * ?d) \<le> k" "k < 1440 * ?e + 1" for k
  proof
    assume "fires s k"
    then obtain y where c: "civil (k div 1440) = (y, 2, 29)" using assms(2,3) by (auto simp: fires_def split: prod.splits)
    from that have k: "?d \<le> k div 1440" "k div 1440 \<le> ?e" by auto
    from civil_valid [OF c] have v: "leap y" "k div 1440 = date_day y 2 29"
      by (auto simp: valid_date_def month_len_def split: if_splits)
    from civil_year_mono [OF dates(1) c k(1)] civil_year_mono [OF c dates(2) k(2)] have "2096 \<le> y" "y \<le> 2101" .
    then have "y \<in> {2096, 2097, 2098, 2099, 2100, 2101}" by auto
    with v(1) have "y = 2096" by (auto simp: leap_def)
    with k(1) v(2) show False by (simp add: date_day_def days_before_month_def month_len_def leap_def upt_rec)
  qed
  with next_from_earliest [where s = s and limit = "1440 * ?e + 1" and t = "Suc (1440 * ?d)"] assms(1) n five
  show ?thesis by (fastforce simp: Next_def split: option.splits)
qed

section \<open>Properties\<close>

text \<open>C28. \<open>Next\<close> always returns, and returns the first activation: the result is a whole minute after the
  start, matches every field of the schedule, and no minute in between does; no result means that
  nothing in the five years after the start matches.\<close>

theorem next_is_the_first_activation:
  assumes "sc_every s \<le> 0" and "0 \<le> t"
  shows "case Next s t of
      Some u \<Rightarrow> (\<exists>m. u = int m * Minute \<and> t < u \<and> fires s m \<and> (\<nexists>k. t < int k * Minute \<and> k < m \<and> fires s k))
    | None \<Rightarrow> (\<nexists>k. t < int k * Minute \<and> k < five_years_on (next_minute t) \<and> fires s k)"
proof -
  have *: "t < int k * Minute \<longleftrightarrow> next_minute t \<le> k" for k
  proof -
    have "t < int k * Minute \<longleftrightarrow> t div Minute < int k"
      using mult_div_mod_eq [of Minute t] pos_mod_bound [of Minute t] pos_mod_sign [of Minute t] by auto
    with assms(2) show ?thesis by (simp add: next_minute_def Suc_le_eq nat_less_iff pos_imp_zdiv_nonneg_iff)
  qed
  show ?thesis
    using next_from_earliest [where s = s and limit = "five_years_on (next_minute t)" and t = "next_minute t"] assms(1)
    by (auto simp: Next_def * [simplified] split: option.splits)
qed

definition no_duration :: "string \<Rightarrow> duration option" where
  "no_duration s = None"

theorem next_is_the_first_activation_witness:
  "case Parse no_duration ''30 6 29 feb *'' of Inl _ \<Rightarrow> False
   | Inr s \<Rightarrow> Next s 0 = Some (1136550 * Minute)
      \<and> (\<nexists>k. 0 < int k * Minute \<and> k < 1136550 \<and> fires s k)"
proof -
  let ?s = "\<lparr>sc_minute = 1073741824, sc_hour = 64, sc_dom = 536870912, sc_month = 4, sc_dow = 127,
    sc_starDOM = False, sc_starDOW = True, sc_every = 0, sc_expr = ''30 6 29 feb *''\<rparr>"
  have p: "Parse no_duration ''30 6 29 feb *'' = Inr ?s" by code_simp
  have n: "Next ?s 0 = Some (1136550 * Minute)"
    by (simp add: Next_def next_minute_def five_years_on_def next_from.simps civil_def find_year.simps find_month.simps
        first_of_next_def date_day_def days_before_year_def days_before_month_def upt_rec year_len_def month_len_def leap_def
        hits_def shl_one_def dayMatches_def)
  show ?thesis using next_is_the_first_activation [of ?s 0] by (simp add: p n)
qed

text \<open>A range with a step sets exactly its members: for any step up to $2^{63} - 64$ the loop ends and the
  mask gains the values from \<open>lo\<close> to \<open>hi\<close> a multiple of the step above \<open>lo\<close>, and no others.\<close>

theorem range_sets_its_members:
  assumes "0 \<le> lo" and "lo < 64" and "hi < 64" and "1 \<le> step" and "step \<le> 2 ^ 63 - 64"
  shows "case mark_steps mark_fuel lo hi step bits of None \<Rightarrow> False
    | Some b \<Rightarrow> hits b i \<longleftrightarrow> hits bits i \<or> (lo \<le> int i \<and> int i \<le> hi \<and> step dvd int i - lo)"
  using mark_steps_enough [of lo hi step bits] mark_steps_bits [of mark_fuel lo hi step bits _ i] assms
  by (auto split: option.split)

theorem range_sets_its_members_witness:
  "case mark_steps mark_fuel 0 59 15 0 of None \<Rightarrow> False | Some b \<Rightarrow> hits b 45 \<longleftrightarrow> True"
  using range_sets_its_members [where lo = 0 and hi = 59 and step = 15 and bits = 0 and i = 45] by (simp split: option.splits)

text \<open>C40. Where the parser and the activation search depart from what they document: 7 is Sunday on its own but
  not at the end of a range, nor is \<open>sun\<close>; a step near the largest \<open>int\<close> overflows and sets values below
  the start of its range; and 29 February is reported as never firing when the next one is more than five
  years away.\<close>

theorem cron_departures:
  "parseField ''7'' dowSpec = Inr 1 \<and> \<not> is_ok (parseField ''5-7'' dowSpec) \<and> \<not> is_ok (parseField ''fri-sun'' dowSpec)
   \<and> parseField ''5/9223372036854775807'' minuteSpec = Inr (push_bit 5 1 OR push_bit 3 1 OR push_bit 1 1)
   \<and> \<not> is_ok (NextAfter no_duration ''0 0 29 2 *'' (int (date_day 2096 3 1) * 1440 * Minute))"
proof -
  let ?s = "\<lparr>sc_minute = 1, sc_hour = 1, sc_dom = 536870912, sc_month = 4, sc_dow = 127,
    sc_starDOM = False, sc_starDOW = True, sc_every = 0, sc_expr = ''0 0 29 2 *''\<rparr>"
  have p: "Parse no_duration ''0 0 29 2 *'' = Inr ?s" by code_simp
  have "hits 4 m = (m = 2)" "hits 536870912 m = (m = 29)" for m
    using bit_exp_iff [of 2 m, where 'a = "64 word"] bit_exp_iff [of 29 m, where 'a = "64 word"] by (auto simp: hits_iff)
  then have "Next ?s (int (date_day 2096 3 1) * 1440 * Minute) = None"
    by (intro leap_day_gap) (simp_all add: dayMatches_def)
  then have "\<not> is_ok (NextAfter no_duration ''0 0 29 2 *'' (int (date_day 2096 3 1) * 1440 * Minute))"
    by (simp add: NextAfter_def p)
  moreover have "parseField ''7'' dowSpec = Inr 1" "\<not> is_ok (parseField ''5-7'' dowSpec)" "\<not> is_ok (parseField ''fri-sun'' dowSpec)"
    "parseField ''5/9223372036854775807'' minuteSpec = Inr (push_bit 5 1 OR push_bit 3 1 OR push_bit 1 1)" by code_simp+
  ultimately show ?thesis by simp
qed

end
