(* ===== verification/AuditChain.thy ===== *)
theory AuditChain
  imports Cronx Authz World
begin

text \<open>
  The tamper-evident audit log (\<open>internal/audit\<close>): the hash chain of a tenant, appending to it inside a
  transaction whose every statement may fail, and verifying it.  SHA-256, the JSON codec and what
  PostgreSQL returns for a value stored in a JSONB, INET or TEXT column are parameters.  The advisory
  lock makes an append atomic, so appends are steps of one database state.
\<close>

section \<open>Events and records (audit.go)\<close>

record 'j audit_lib =
  al_sha256 :: "string \<Rightarrow> string"
  al_Marshal :: "'j \<Rightarrow> string option"
  al_Unmarshal :: "string \<Rightarrow> 'j option"
  al_EmptyMap :: 'j
  pg_jsonb :: "string \<Rightarrow> string"           \<comment> \<open>the text read back for a stored document\<close>
  pg_inet :: "string \<Rightarrow> string option"      \<comment> \<open>\<open>host(ip)\<close> of a stored address, \<open>None\<close> when the cast fails\<close>
  pg_text_ok :: "string \<Rightarrow> bool"            \<comment> \<open>accepted by a TEXT column\<close>

record 'j event =
  ev_TenantID :: uuid
  ev_ActorType :: string
  ev_ActorID :: "uuid option"
  ev_ActorName :: string
  ev_Action :: string
  ev_ResourceType :: string
  ev_ResourceID :: "uuid option"
  ev_ResourceName :: string
  ev_Outcome :: string
  ev_Detail :: "'j option"
  ev_IPAddress :: string
  ev_UserAgent :: string
  ev_SessionID :: "uuid option"

text \<open>A stored row; the address is NULL when the event had none.\<close>

record audit_row =
  au_Seq :: int
  au_ID :: uuid
  au_TenantID :: uuid
  au_ActorType :: string
  au_ActorID :: "uuid option"
  au_ActorName :: string
  au_Action :: string
  au_ResourceType :: string
  au_ResourceID :: "uuid option"
  au_ResourceName :: string
  au_Outcome :: string
  au_Detail :: string
  au_IPAddress :: "string option"
  au_UserAgent :: string
  au_SessionID :: "uuid option"
  au_PrevHash :: string
  au_Hash :: string
  au_OccurredAt :: gtime

record audit_db =
  ad_rows :: "audit_row list"
  ad_seq :: int
  ad_faults :: "fault list"

text \<open>One statement of the transaction, with the faults of the theory World.\<close>

definition astmt :: "(audit_db, 'a) prog \<Rightarrow> (audit_db, 'a) prog" where
  "astmt q = (\<lambda>db. case ad_faults db of
       [] \<Rightarrow> q db
     | f # fs \<Rightarrow> (let db' = db\<lparr>ad_faults := fs\<rparr> in
         case f of Fine \<Rightarrow> q db'
                 | Fails \<Rightarrow> (Inl ErrDatabase, db')
                 | Lost \<Rightarrow> (Inl ErrDatabase, snd (q db'))
                 | Dies \<Rightarrow> (Inl Killed, db')))"

definition or_default :: "string \<Rightarrow> string \<Rightarrow> string" where
  "or_default v d = (if v = [] then d else v)"

definition applyDefaults :: "'j audit_lib \<Rightarrow> 'j event \<Rightarrow> 'j event" where
  "applyDefaults A ev = ev\<lparr>ev_ActorType := or_default (ev_ActorType ev) ''system'',
     ev_Outcome := or_default (ev_Outcome ev) ''success'',
     ev_Detail := (case ev_Detail ev of None \<Rightarrow> Some (al_EmptyMap A) | d \<Rightarrow> d),
     ev_TenantID := (if ev_TenantID ev = uuid_Nil then DefaultTenantID else ev_TenantID ev)\<rparr>"

definition canonicalJSON :: "'j audit_lib \<Rightarrow> 'j option \<Rightarrow> string result" where
  "canonicalJSON A m = (case al_Marshal A (case m of None \<Rightarrow> al_EmptyMap A | Some d \<Rightarrow> d) of
       None \<Rightarrow> Inl (ErrOther ''audit: encoding detail'') | Some b \<Rightarrow> Inr b)"

definition uuidStr :: "uuid option \<Rightarrow> string" where
  "uuidStr u = (case u of None \<Rightarrow> [] | Some i \<Rightarrow> uuid_String i)"

text \<open>\<open>t.UTC().Format(time.RFC3339Nano)\<close> for a time from 1970 on: the fraction loses its trailing zeros.\<close>

definition rfc3339nano :: "gtime \<Rightarrow> string" where
  "rfc3339nano t = (let secs = nat (t div Second); ns = nat (t mod Second);
       (y, mo, d) = civil (secs div 86400); sod = secs mod 86400;
       frac = rev (dropWhile (\<lambda>c. c = CHR ''0'') (rev (pad 9 ns))) in
     pad 4 y @ ''-'' @ pad 2 mo @ ''-'' @ pad 2 d @ ''T'' @ pad 2 (sod div 3600) @ '':'' @ pad 2 (sod div 60 mod 60)
       @ '':'' @ pad 2 (sod mod 60) @ (if frac = [] then [] else ''.'' @ frac) @ ''Z'')"

text \<open>What is hashed: fifteen fields, each followed by 0x1f, and the canonical detail.\<close>

abbreviation US :: char where "US \<equiv> CHR 0x1F"

definition hashed_fields :: "audit_row \<Rightarrow> string list" where
  "hashed_fields r =
     [au_PrevHash r, uuid_String (au_ID r), uuid_String (au_TenantID r), au_ActorType r, uuidStr (au_ActorID r),
      au_ActorName r, au_Action r, au_ResourceType r, uuidStr (au_ResourceID r), au_ResourceName r, au_Outcome r,
      (case au_IPAddress r of None \<Rightarrow> [] | Some ip \<Rightarrow> ip), au_UserAgent r, uuidStr (au_SessionID r),
      rfc3339nano (au_OccurredAt r)]"

definition preimage :: "audit_row \<Rightarrow> string \<Rightarrow> string" where
  "preimage r detailJSON = concat (map (\<lambda>p. p @ [US]) (hashed_fields r)) @ detailJSON"

definition computeHash :: "'j audit_lib \<Rightarrow> audit_row \<Rightarrow> string \<Rightarrow> string" where
  "computeHash A r detailJSON = hex_encode (al_sha256 A (preimage r detailJSON))"

section \<open>Appending\<close>

definition tenant_rows :: "uuid \<Rightarrow> audit_db \<Rightarrow> audit_row list" where
  "tenant_rows tenant db = sort_key au_Seq (filter (\<lambda>r. au_TenantID r = tenant) (ad_rows db))"

definition chain_head :: "uuid \<Rightarrow> audit_db \<Rightarrow> string" where
  "chain_head tenant db = (case rev (tenant_rows tenant db) of [] \<Rightarrow> [] | r # _ \<Rightarrow> au_Hash r)"

text \<open>The record as the logger builds it: the address is the text of the event, not the stored one.\<close>

definition new_record :: "'j event \<Rightarrow> uuid \<Rightarrow> gtime \<Rightarrow> string \<Rightarrow> string \<Rightarrow> audit_row" where
  "new_record ev rid now prevHash detailJSON =
     \<lparr>au_Seq = 0, au_ID = rid, au_TenantID = ev_TenantID ev, au_ActorType = ev_ActorType ev, au_ActorID = ev_ActorID ev,
      au_ActorName = ev_ActorName ev, au_Action = ev_Action ev, au_ResourceType = ev_ResourceType ev,
      au_ResourceID = ev_ResourceID ev, au_ResourceName = ev_ResourceName ev, au_Outcome = ev_Outcome ev,
      au_Detail = detailJSON, au_IPAddress = (if ev_IPAddress ev = [] then None else Some (ev_IPAddress ev)),
      au_UserAgent = ev_UserAgent ev, au_SessionID = ev_SessionID ev, au_PrevHash = prevHash, au_Hash = [],
      au_OccurredAt = now div 1000 * 1000\<rparr>"

text \<open>What the INSERT stores, if the casts and checks of the table accept it.\<close>

definition insertable :: "'j audit_lib \<Rightarrow> audit_row \<Rightarrow> bool" where
  "insertable A r \<longleftrightarrow> au_ActorType r \<in> {''user'', ''api_token'', ''system'', ''scheduler''}
     \<and> au_Outcome r \<in> {''success'', ''failure'', ''denied''}
     \<and> list_all (pg_text_ok A) [au_ActorName r, au_Action r, au_ResourceType r, au_ResourceName r, au_UserAgent r]
     \<and> (case au_IPAddress r of None \<Rightarrow> True | Some ip \<Rightarrow> pg_inet A ip \<noteq> None)"

definition as_stored :: "'j audit_lib \<Rightarrow> audit_row \<Rightarrow> audit_row" where
  "as_stored A r = r\<lparr>au_Detail := pg_jsonb A (au_Detail r),
     au_IPAddress := Option.bind (au_IPAddress r) (pg_inet A)\<rparr>"

text \<open>\<open>nextval\<close> of the sequence is not undone by a rollback.\<close>

definition insert_event :: "'j audit_lib \<Rightarrow> audit_row \<Rightarrow> (audit_db, int) prog" where
  "insert_event A r = astmt (\<lambda>db. let db' = db\<lparr>ad_seq := ad_seq db + 1\<rparr> in
     if insertable A r then (Inr (ad_seq db), db') else (Inl ErrDatabase, db'))"

definition Log :: "'j audit_lib \<Rightarrow> uuid \<Rightarrow> gtime \<Rightarrow> 'j event \<Rightarrow> (audit_db, audit_row) prog" where
  "Log A rid now ev0 = (let ev = applyDefaults A ev0 in
     if ev_Action ev = [] then fail (ErrOther ''audit: Action is required'') else
     andThen (astmt (ret ())) (\<lambda>_.
     andThen (astmt (ret ())) (\<lambda>_.
     andThen (astmt (get (chain_head (ev_TenantID ev)))) (\<lambda>prevHash.
     andThen (lift (canonicalJSON A (ev_Detail ev))) (\<lambda>detailJSON.
     let r0 = new_record ev rid now prevHash detailJSON; r1 = r0\<lparr>au_Hash := computeHash A r0 detailJSON\<rparr> in
     andThen (insert_event A r1) (\<lambda>seq.
     let r = r1\<lparr>au_Seq := seq\<rparr> in
     andThen (astmt (modify (\<lambda>db. db\<lparr>ad_rows := ad_rows db @ [as_stored A r]\<rparr>))) (\<lambda>_.
     ret r)))))))"

section \<open>Verifying (verify.go)\<close>

definition decodeDetail :: "'j audit_lib \<Rightarrow> string \<Rightarrow> 'j result" where
  "decodeDetail A raw = (if raw = [] \<or> raw = ''null'' then Inr (al_EmptyMap A)
     else case al_Unmarshal A raw of None \<Rightarrow> Inl (ErrOther ''audit: decoding detail'') | Some m \<Rightarrow> Inr m)"

text \<open>A row as scanned, with the canonical detail bytes.\<close>

definition scanRecord :: "'j audit_lib \<Rightarrow> uuid \<Rightarrow> audit_row \<Rightarrow> (audit_row \<times> string) result" where
  "scanRecord A tenantID row =
     bindR (decodeDetail A (au_Detail row)) (\<lambda>detail.
     bindR (canonicalJSON A (Some detail)) (\<lambda>canonical.
     Inr (row\<lparr>au_TenantID := tenantID\<rparr>, canonical)))"

record verify_result =
  vr_Checked :: int
  vr_Valid :: bool
  vr_BrokenAtSeq :: int
  vr_Reason :: string
  vr_FirstEventAt :: "gtime option"
  vr_LastEventAt :: "gtime option"

fun verify_rows :: "'j audit_lib \<Rightarrow> uuid \<Rightarrow> string \<Rightarrow> verify_result \<Rightarrow> audit_row list \<Rightarrow> verify_result result" where
  "verify_rows A tenantID expectedPrev res [] = Inr res"
| "verify_rows A tenantID expectedPrev res (row # rows) =
     bindR (scanRecord A tenantID row) (\<lambda>(r, detailJSON).
     let res' = res\<lparr>vr_Checked := vr_Checked res + 1, vr_LastEventAt := Some (au_OccurredAt r),
           vr_FirstEventAt := (if vr_Checked res = 0 then Some (au_OccurredAt r) else vr_FirstEventAt res)\<rparr> in
     if au_PrevHash r \<noteq> expectedPrev then
       Inr (res'\<lparr>vr_Valid := False, vr_BrokenAtSeq := au_Seq r, vr_Reason := ''a record was removed, reordered, or inserted''\<rparr>)
     else if computeHash A r detailJSON \<noteq> au_Hash r then
       Inr (res'\<lparr>vr_Valid := False, vr_BrokenAtSeq := au_Seq r, vr_Reason := ''the record was modified''\<rparr>)
     else verify_rows A tenantID (au_Hash r) res' rows)"

definition fresh_result :: verify_result where
  "fresh_result = \<lparr>vr_Checked = 0, vr_Valid = True, vr_BrokenAtSeq = 0, vr_Reason = [],
     vr_FirstEventAt = None, vr_LastEventAt = None\<rparr>"

definition tenant_or_default :: "uuid \<Rightarrow> uuid" where
  "tenant_or_default t = (if t = uuid_Nil then DefaultTenantID else t)"

definition Verify :: "'j audit_lib \<Rightarrow> uuid \<Rightarrow> (audit_db, verify_result) prog" where
  "Verify A tenantID0 = (let tenantID = tenant_or_default tenantID0 in
     andThen (astmt (get (tenant_rows tenantID))) (\<lambda>rows.
     lift (verify_rows A tenantID [] fresh_result rows)))"

record audit_filter =
  fl_TenantID :: uuid
  fl_Actions :: "string list"
  fl_ActorID :: "uuid option"
  fl_ResourceType :: string
  fl_ResourceID :: "uuid option"
  fl_Outcome :: string
  fl_Since :: "gtime option"
  fl_Until :: "gtime option"
  fl_Limit :: int
  fl_BeforeSeq :: int

definition matches_filter :: "audit_filter \<Rightarrow> audit_row \<Rightarrow> bool" where
  "matches_filter f r \<longleftrightarrow> (fl_Actions f = [] \<or> au_Action r \<in> set (fl_Actions f))
     \<and> (fl_ActorID f = None \<or> au_ActorID r = fl_ActorID f)
     \<and> (fl_ResourceType f = [] \<or> au_ResourceType r = fl_ResourceType f)
     \<and> (fl_ResourceID f = None \<or> au_ResourceID r = fl_ResourceID f)
     \<and> (fl_Outcome f = [] \<or> au_Outcome r = fl_Outcome f)
     \<and> (case fl_Since f of None \<Rightarrow> True | Some t \<Rightarrow> t \<le> au_OccurredAt r)
     \<and> (case fl_Until f of None \<Rightarrow> True | Some t \<Rightarrow> au_OccurredAt r \<le> t)
     \<and> (fl_BeforeSeq f \<le> 0 \<or> au_Seq r < fl_BeforeSeq f)"

fun scan_all :: "'j audit_lib \<Rightarrow> uuid \<Rightarrow> audit_row list \<Rightarrow> audit_row list result" where
  "scan_all A tenantID [] = Inr []"
| "scan_all A tenantID (row # rows) =
     bindR (scanRecord A tenantID row) (\<lambda>(r, _). bindR (scan_all A tenantID rows) (\<lambda>rs. Inr (r # rs)))"

definition Query :: "'j audit_lib \<Rightarrow> audit_filter \<Rightarrow> (audit_db, audit_row list) prog" where
  "Query A f = (let tenantID = tenant_or_default (fl_TenantID f);
       limit = (if fl_Limit f \<le> 0 \<or> fl_Limit f > 1000 then 100 else nat (fl_Limit f)) in
     andThen (astmt (get (\<lambda>db. take limit (filter (matches_filter f) (rev (tenant_rows tenantID db)))))) (\<lambda>rows.
     lift (scan_all A tenantID rows)))"

text \<open>\<open>Namespace\<close>: the part of an action before the first dot.\<close>

definition action_Namespace :: "string \<Rightarrow> string" where
  "action_Namespace action = fst (cut (CHR ''.'') action)"

text \<open>\<open>clientIP\<close> of \<open>api/server.go\<close>: where the address of an event comes from.  An empty header is an absent one;
  \<open>net.SplitHostPort\<close> is a parameter.\<close>

definition clientIP :: "(string \<Rightarrow> string option) \<Rightarrow> string \<Rightarrow> string \<Rightarrow> string" where
  "clientIP splitHostPort forwardedFor remoteAddr =
     (let ip = trim_space (fst (cut (CHR '','') forwardedFor)) in
      if forwardedFor \<noteq> [] \<and> ip \<noteq> [] then ip
      else case splitHostPort remoteAddr of Some host \<Rightarrow> host | None \<Rightarrow> remoteAddr)"

section \<open>The chain\<close>

fun linked :: "'j audit_lib \<Rightarrow> uuid \<Rightarrow> string \<Rightarrow> audit_row list \<Rightarrow> bool" where
  "linked A t prev [] \<longleftrightarrow> True"
| "linked A t prev (row # rows) \<longleftrightarrow> (case scanRecord A t row of Inl _ \<Rightarrow> False
     | Inr (r, j) \<Rightarrow> au_PrevHash r = prev \<and> computeHash A r j = au_Hash r \<and> linked A t (au_Hash r) rows)"

definition accepted :: "verify_result result \<Rightarrow> bool" where
  "accepted v = (case v of Inl _ \<Rightarrow> False | Inr r \<Rightarrow> vr_Valid r)"

lemma accepted_simps [simp]: "\<not> accepted (Inl e)" "accepted (Inr r) = vr_Valid r"
  by (simp_all add: accepted_def)

lemma accepted_linked: "vr_Valid res \<Longrightarrow> accepted (verify_rows A t prev res rows) \<longleftrightarrow> linked A t prev rows"
proof (induction rows arbitrary: prev res)
  case (Cons row rows)
  show ?case
  proof (cases "scanRecord A t row")
    case (Inr x)
    then show ?thesis
      using Cons by (cases x; cases "au_PrevHash (fst x) = prev"; cases "computeHash A (fst x) (snd x) = au_Hash (fst x)")
        (simp_all add: Let_def)
  qed simp
qed simp

definition head_of :: "string \<Rightarrow> audit_row list \<Rightarrow> string" where
  "head_of prev rows = (if rows = [] then prev else au_Hash (last rows))"

lemma scanRecord_Inr:
  "scanRecord A t row = Inr (r, j) \<Longrightarrow> r = row\<lparr>au_TenantID := t\<rparr>"
  by (auto simp: scanRecord_def)

lemma linked_snoc:
  "linked A t prev (rows @ [row]) \<longleftrightarrow> linked A t prev rows \<and> linked A t (head_of prev rows) [row]"
proof (induction rows arbitrary: prev)
  case (Cons r rows)
  then show ?case
    by (auto simp: head_of_def split: sum.splits dest: scanRecord_Inr)
qed (simp add: head_of_def)

text \<open>Rows in the order of their sequence numbers, below the next one, and every tenant's chain linked.\<close>

definition chain_ok :: "'j audit_lib \<Rightarrow> audit_db \<Rightarrow> bool" where
  "chain_ok A db \<longleftrightarrow> sorted (map au_Seq (ad_rows db)) \<and> (\<forall>r\<in>set (ad_rows db). au_Seq r < ad_seq db)
     \<and> (\<forall>t. linked A t [] (filter (\<lambda>r. au_TenantID r = t) (ad_rows db)))"

lemma tenant_rows_sorted: "sorted (map au_Seq (ad_rows db)) \<Longrightarrow> tenant_rows t db = filter (\<lambda>r. au_TenantID r = t) (ad_rows db)"
  unfolding tenant_rows_def by (rule sort_key_id_if_sorted) (simp add: sorted_map sorted_wrt_filter)

text \<open>What the chain relies on: a detail that was hashed reads back to the same bytes, an address to itself.\<close>

definition detail_stable :: "'j audit_lib \<Rightarrow> 'j \<Rightarrow> bool" where
  "detail_stable A d \<longleftrightarrow> (case al_Marshal A d of None \<Rightarrow> True
     | Some b \<Rightarrow> (case decodeDetail A (pg_jsonb A b) of Inl _ \<Rightarrow> False | Inr d' \<Rightarrow> al_Marshal A d' = Some b))"

definition address_stable :: "'j audit_lib \<Rightarrow> string \<Rightarrow> bool" where
  "address_stable A ip \<longleftrightarrow> ip = [] \<or> pg_inet A ip = None \<or> pg_inet A ip = Some ip"

lemma scan_stored:
  assumes "detail_stable A d" and "al_Marshal A d = Some b" and "au_Detail r = b" and "au_TenantID r = t"
  shows "scanRecord A t (as_stored A r) = Inr (as_stored A r, b)"
proof -
  obtain d' where d': "decodeDetail A (pg_jsonb A b) = Inr d'" "al_Marshal A d' = Some b"
    using assms(1,2) by (auto simp: detail_stable_def split: sum.splits)
  then show ?thesis using assms(3,4) by (simp add: scanRecord_def as_stored_def canonicalJSON_def)
qed

lemma preimage_cong:
  "hashed_fields r = hashed_fields r' \<Longrightarrow> computeHash A r j = computeHash A r' j"
  by (simp add: computeHash_def preimage_def)

lemma keeps_astmt: "(\<And>db fs. I (db\<lparr>ad_faults := fs\<rparr>) = I db) \<Longrightarrow> keeps I q \<Longrightarrow> keeps I (astmt q)"
  by (auto simp: upholds_def astmt_def Let_def split: list.splits fault.splits)

lemma chain_ok_faults: "chain_ok A (db\<lparr>ad_faults := fs\<rparr>) = chain_ok A db"
  by (simp add: chain_ok_def)


text \<open>The transaction as a whole: it appends at most one row, at the head it read.\<close>

lemma wlp_astmt [wlp_intros]:
  assumes "\<And>fs. wlp q Q (db\<lparr>ad_faults := fs\<rparr>)"
  shows "wlp (astmt q) Q db"
proof -
  have "db\<lparr>ad_faults := ad_faults db\<rparr> = db" by simp
  with assms have "wlp q Q db" by metis
  with assms show ?thesis
    by (cases "ad_faults db") (auto simp: wlp_def astmt_def Let_def split: fault.split)
qed

definition appended :: "'j audit_lib \<Rightarrow> uuid \<Rightarrow> gtime \<Rightarrow> 'j event \<Rightarrow> audit_db \<Rightarrow> audit_row \<Rightarrow> bool" where
  "appended A rid now ev db r \<longleftrightarrow> (\<exists>b. canonicalJSON A (ev_Detail ev) = Inr b
     \<and> (let r0 = new_record ev rid now (chain_head (ev_TenantID ev) db) b in
        insertable A r0 \<and> r = r0\<lparr>au_Hash := computeHash A r0 b, au_Seq := ad_seq db\<rparr>))"


text \<open>Both branches of a statement followed by the rest of the program.\<close>

definition post :: "(audit_db, 'a) prog \<Rightarrow> ('a result \<Rightarrow> audit_db \<Rightarrow> bool) \<Rightarrow> audit_db \<Rightarrow> bool" where
  "post m Q db \<longleftrightarrow> Q (fst (m db)) (snd (m db))"

lemma post_astmt_then:
  assumes "\<And>fs e. Q (Inl e) (db\<lparr>ad_faults := fs\<rparr>)"
    and "\<And>fs e. Q (Inl e) (snd (q (db\<lparr>ad_faults := fs\<rparr>)))"
    and "\<And>fs x. fst (q (db\<lparr>ad_faults := fs\<rparr>)) = Inr x \<Longrightarrow> post (f x) Q (snd (q (db\<lparr>ad_faults := fs\<rparr>)))"
  shows "post (andThen (astmt q) f) Q db"
proof -
  have run: "post (andThen q f) Q (db\<lparr>ad_faults := fs\<rparr>)" for fs
    using assms(2,3) [where fs = fs] by (auto simp: post_def andThen_def split: prod.split sum.split)
  have "db\<lparr>ad_faults := ad_faults db\<rparr> = db" by simp
  with run have "post (andThen q f) Q db" by metis
  with run assms(1,2) show ?thesis
    by (auto simp: post_def andThen_def astmt_def Let_def split: list.split fault.split)
qed

definition at_start :: "audit_db \<Rightarrow> audit_db \<Rightarrow> bool" where
  "at_start db0 db \<longleftrightarrow> ad_rows db = ad_rows db0 \<and> ad_seq db = ad_seq db0"

definition drawn :: "audit_db \<Rightarrow> audit_db \<Rightarrow> bool" where
  "drawn db0 db \<longleftrightarrow> ad_rows db = ad_rows db0 \<and> ad_seq db = ad_seq db0 + 1"

definition committed :: "'j audit_lib \<Rightarrow> audit_db \<Rightarrow> audit_row \<Rightarrow> audit_db \<Rightarrow> bool" where
  "committed A db0 r db \<longleftrightarrow> ad_rows db = ad_rows db0 @ [as_stored A r] \<and> ad_seq db = ad_seq db0 + 1"

lemma chain_head_start: "at_start s db \<Longrightarrow> chain_head t db = chain_head t s"
  by (simp add: chain_head_def tenant_rows_def at_start_def)

text \<open>A statement that only reads.\<close>

lemma post_read:
  assumes "\<And>e db. at_start db0 db \<Longrightarrow> Q (Inl e) db" and "at_start db0 db"
    and "\<And>db. at_start db0 db \<Longrightarrow> q db = (Inr x, db)" and "\<And>db. at_start db0 db \<Longrightarrow> post (f x) Q db"
  shows "post (andThen (astmt q) f) Q db"
proof (rule post_astmt_then)
  fix fs and e :: gerror and y
  have s: "at_start db0 (db\<lparr>ad_faults := fs\<rparr>)" using assms(2) by (simp add: at_start_def)
  then show "Q (Inl e) (db\<lparr>ad_faults := fs\<rparr>)" "Q (Inl e) (snd (q (db\<lparr>ad_faults := fs\<rparr>)))"
    using assms(1,3) by simp_all
  show "post (f y) Q (snd (q (db\<lparr>ad_faults := fs\<rparr>)))" if "fst (q (db\<lparr>ad_faults := fs\<rparr>)) = Inr y"
    using that s assms(3,4) by simp
qed

lemma insertable_fields [simp]:
  "insertable A (r\<lparr>au_Hash := h\<rparr>) = insertable A r" "insertable A (r\<lparr>au_Seq := q\<rparr>) = insertable A r"
  by (simp_all add: insertable_def)

lemma Log_outcome:
  "case Log A rid now ev0 db0 of
     (Inr r, db) \<Rightarrow> appended A rid now (applyDefaults A ev0) db0 r \<and> committed A db0 r db
   | (Inl _, db) \<Rightarrow> at_start db0 db \<or> drawn db0 db
       \<or> (\<exists>r. appended A rid now (applyDefaults A ev0) db0 r \<and> committed A db0 r db)"
proof -
  let ?ev = "applyDefaults A ev0"
  let ?Q = "\<lambda>res db. case res of Inr r \<Rightarrow> appended A rid now ?ev db0 r \<and> committed A db0 r db
       | Inl (e :: gerror) \<Rightarrow> at_start db0 db \<or> drawn db0 db \<or> (\<exists>r. appended A rid now ?ev db0 r \<and> committed A db0 r db)"
  let ?h = "chain_head (ev_TenantID ?ev) db0"
  have commit: "post (andThen (astmt (modify (\<lambda>db. db\<lparr>ad_rows := ad_rows db @ [as_stored A r]\<rparr>))) (\<lambda>_. ret r)) ?Q db"
    if "appended A rid now ?ev db0 r" "drawn db0 db" for r db
    by (rule post_astmt_then) (use that in \<open>auto simp: drawn_def committed_def post_def modify_def ret_def\<close>)
  have rest: "post (andThen (insert_event A (r0\<lparr>au_Hash := computeHash A r0 b\<rparr>)) (\<lambda>seq.
       let r = r0\<lparr>au_Hash := computeHash A r0 b, au_Seq := seq\<rparr> in
       andThen (astmt (modify (\<lambda>db. db\<lparr>ad_rows := ad_rows db @ [as_stored A r]\<rparr>))) (\<lambda>_. ret r))) ?Q db"
    if "canonicalJSON A (ev_Detail ?ev) = Inr b" "r0 = new_record ?ev rid now ?h b" "at_start db0 db" for b r0 db
    unfolding insert_event_def Let_def
  proof (rule post_astmt_then, goal_cases)
    case (3 fs x)
    from 3 that have "insertable A r0" "x = ad_seq db0" by (auto simp: at_start_def split: if_splits)
    with that(1,2) have "appended A rid now ?ev db0 (r0\<lparr>au_Hash := computeHash A r0 b, au_Seq := x\<rparr>)"
      by (simp add: appended_def Let_def)
    then show ?case by (rule commit) (use that(3) in \<open>simp add: drawn_def at_start_def\<close>)
  qed (use that(3) in \<open>auto simp: at_start_def drawn_def\<close>)
  have "post (Log A rid now ev0) ?Q db0"
  proof (cases "ev_Action ?ev = []")
    case False
    let ?tail = "\<lambda>prevHash. andThen (lift (canonicalJSON A (ev_Detail ?ev))) (\<lambda>detailJSON.
        let r0 = new_record ?ev rid now prevHash detailJSON; r1 = r0\<lparr>au_Hash := computeHash A r0 detailJSON\<rparr> in
        andThen (insert_event A r1) (\<lambda>seq. let r = r1\<lparr>au_Seq := seq\<rparr> in
        andThen (astmt (modify (\<lambda>db. db\<lparr>ad_rows := ad_rows db @ [as_stored A r]\<rparr>))) (\<lambda>_. ret r)))"
    let ?read = "andThen (astmt (get (chain_head (ev_TenantID ?ev)))) ?tail"
    have tail: "post (?tail ?h) ?Q db" if s: "at_start db0 db" for db
    proof (cases "canonicalJSON A (ev_Detail ?ev)")
      case (Inl e)
      with s show ?thesis by (simp add: post_def andThen_def lift_def)
    next
      case (Inr b)
      with rest [OF Inr refl s] show ?thesis by (simp add: post_def andThen_def lift_def Let_def)
    qed
    have read: "post ?read ?Q db" if "at_start db0 db" for db
      by (rule post_read [where Q = ?Q and f = ?tail and x = ?h]) (use that tail in \<open>auto simp: get_def intro: chain_head_start\<close>)
    have lock: "post (andThen (astmt (ret ())) (\<lambda>_. ?read)) ?Q db" if "at_start db0 db" for db
      by (rule post_read [where Q = ?Q and f = "\<lambda>_. ?read" and x = "()"]) (use that read in \<open>simp_all add: ret_def\<close>)
    have "post (andThen (astmt (ret ())) (\<lambda>_. andThen (astmt (ret ())) (\<lambda>_. ?read))) ?Q db0"
      by (rule post_read [where Q = ?Q and f = "\<lambda>_. andThen (astmt (ret ())) (\<lambda>_. ?read)" and x = "()"])
        (use lock in \<open>simp_all add: ret_def at_start_def\<close>)
    then show ?thesis
      unfolding Log_def Let_def [of ?ev] using False by (simp only: if_False)
  qed (simp add: Log_def Let_def post_def fail_def at_start_def)
  then show ?thesis by (cases "Log A rid now ev0 db0") (simp add: post_def)
qed


section \<open>Hash links\<close>

lemma hex_digit_inj: "a < 16 \<Longrightarrow> b < 16 \<Longrightarrow> hex_digit a = hex_digit b \<Longrightarrow> a = b"
proof -
  have "distinct ''0123456789abcdef''" by simp
  moreover assume "a < 16" "b < 16" "hex_digit a = hex_digit b"
  ultimately show ?thesis by (simp add: hex_digit_def nth_eq_iff_index_eq)
qed

lemma nibbles: "of_char c div 16 < (16 :: nat)" "of_char c mod 16 < (16 :: nat)"
proof -
  have "of_char c < (256 :: nat)" by simp
  then show "of_char c div 16 < (16 :: nat)" by linarith
  show "of_char c mod 16 < (16 :: nat)" by simp
qed

lemma hex_byte_inj: "hex_byte c = hex_byte d \<longleftrightarrow> c = d"
proof
  assume "hex_byte c = hex_byte d"
  then have "of_char c div 16 = (of_char d div 16 :: nat)" "of_char c mod 16 = (of_char d mod 16 :: nat)"
    using nibbles by (auto simp: hex_byte_def intro!: hex_digit_inj)
  then have "of_char c = (of_char d :: nat)" by (metis div_mult_mod_eq)
  then show "c = d" by simp
qed simp

lemma hex_encode_simps: "hex_encode [] = []" "hex_encode (c # s) = hex_byte c @ hex_encode s" "length (hex_byte c) = 2"
  by (simp_all add: hex_encode_def hex_byte_def)

lemma hex_encode_inj: "hex_encode s = hex_encode t \<Longrightarrow> s = t"
proof (induction s arbitrary: t)
  case Nil
  then show ?case by (cases t) (auto simp: hex_encode_simps hex_byte_def)
next
  case (Cons c s)
  then show ?case
    by (cases t) (auto simp: hex_encode_simps hex_byte_inj append_eq_append_conv, simp add: hex_byte_def)
qed

lemma hex_digit_ne_US: "n < 16 \<Longrightarrow> hex_digit n \<noteq> US"
proof -
  assume "n < 16"
  then have "hex_digit n \<in> set ''0123456789abcdef''" unfolding hex_digit_def by (intro nth_mem) simp
  then show ?thesis by auto
qed

lemma hex_encode_no_US: "US \<notin> set (hex_encode s)"
  using hex_digit_ne_US [OF nibbles(1), THEN not_sym] hex_digit_ne_US [OF nibbles(2), THEN not_sym]
  by (auto simp: hex_encode_def hex_byte_def)

lemma hex_encode_Nil [simp]: "hex_encode s = [] \<longleftrightarrow> s = []" "[] = hex_encode s \<longleftrightarrow> s = []"
  by (cases s; auto simp: hex_encode_def hex_byte_def)+

text \<open>The hashed bytes begin with the link to the predecessor.\<close>

lemma preimage_prev:
  assumes "preimage r j = preimage r' j'" and "US \<notin> set (au_PrevHash r)" and "US \<notin> set (au_PrevHash r')"
  shows "au_PrevHash r = au_PrevHash r'"
proof -
  have "takeWhile (\<lambda>c. c \<noteq> US) (preimage r j) = au_PrevHash r" if "US \<notin> set (au_PrevHash r)" for r j
    using that by (auto simp: preimage_def hashed_fields_def takeWhile_tail)
  with assms show ?thesis by metis
qed

text \<open>The bytes every row of a tenant's chain was hashed over, as \<open>Verify\<close> recomputes them.\<close>

definition hashed_bytes :: "'j audit_lib \<Rightarrow> uuid \<Rightarrow> audit_row \<Rightarrow> string" where
  "hashed_bytes A t row = (case scanRecord A t row of Inl _ \<Rightarrow> [] | Inr (r, j) \<Rightarrow> preimage r j)"

lemma linked_hash:
  "linked A t prev [row] \<Longrightarrow> au_Hash row = hex_encode (al_sha256 A (hashed_bytes A t row)) \<and> au_PrevHash row = prev"
  by (auto simp: hashed_bytes_def computeHash_def split: sum.splits dest!: scanRecord_Inr)

lemma linked_head_hex: "linked A t [] rows \<Longrightarrow> \<exists>x. head_of [] rows = hex_encode x"
proof (cases rows rule: rev_cases)
  case Nil
  then show ?thesis by (auto simp: head_of_def hex_encode_simps intro!: exI [of _ "[]"])
next
  case (snoc ys y)
  moreover assume "linked A t [] rows"
  ultimately show ?thesis using linked_hash [of A t "head_of [] ys" y] by (auto simp: linked_snoc head_of_def)
qed

lemma hashed_bytes_prev:
  assumes "linked A t p [row]" and "linked A t p' [row']" and "hashed_bytes A t row = hashed_bytes A t row'"
    and "US \<notin> set p" and "US \<notin> set p'"
  shows "p = p'"
proof -
  obtain r j r' j' where s: "scanRecord A t row = Inr (r, j)" "scanRecord A t row' = Inr (r', j')"
    using assms(1,2) by (auto split: sum.splits)
  from preimage_prev [of r j r' j'] show ?thesis using assms s by (auto simp: hashed_bytes_def)
qed

lemma same_head_same_history:
  assumes "\<And>x. al_sha256 A x \<noteq> []"
  shows "linked A t [] rs \<Longrightarrow> linked A t [] rs' \<Longrightarrow> head_of [] rs = head_of [] rs' \<Longrightarrow>
    map (hashed_bytes A t) rs = map (hashed_bytes A t) rs'
    \<or> (\<exists>x\<in>set rs. \<exists>y\<in>set rs'. hashed_bytes A t x \<noteq> hashed_bytes A t y
        \<and> al_sha256 A (hashed_bytes A t x) = al_sha256 A (hashed_bytes A t y))"
proof (induction rs arbitrary: rs' rule: rev_induct)
  case Nil
  have False if "rs' = ys @ [y]" for ys y
    using that Nil linked_hash [of A t "head_of [] ys" y] assms by (auto simp: head_of_def linked_snoc)
  then show ?case by (cases rs' rule: rev_cases) auto
next
  case (snoc r rs)
  show ?case
  proof (cases rs' rule: rev_cases)
    case Nil
    with snoc.prems linked_hash [of A t _ r] assms show ?thesis by (auto simp: head_of_def linked_snoc)
  next
    case (snoc ys y)
    from snoc.prems snoc have l: "linked A t [] rs" "linked A t (head_of [] rs) [r]" "linked A t [] ys"
      "linked A t (head_of [] ys) [y]" "au_Hash r = au_Hash y"
      by (simp_all add: linked_snoc head_of_def)
    from l(5) linked_hash [OF l(2)] linked_hash [OF l(4)]
    have sha: "al_sha256 A (hashed_bytes A t r) = al_sha256 A (hashed_bytes A t y)"
      by (auto dest: hex_encode_inj)
    show ?thesis
    proof (cases "hashed_bytes A t r = hashed_bytes A t y")
      case True
      from hashed_bytes_prev [OF l(2,4) True] linked_head_hex [OF l(1)] linked_head_hex [OF l(3)]
      have "head_of [] rs = head_of [] ys" using hex_encode_no_US by metis
      from snoc.IH [OF l(1,3) this] True show ?thesis unfolding snoc by auto
    qed (use sha snoc in auto)
  qed
qed


lemma chain_head_of: "chain_head t db = head_of [] (tenant_rows t db)"
  by (cases "tenant_rows t db" rule: rev_cases) (simp_all add: chain_head_def head_of_def)

text \<open>An event whose detail and address survive storage keeps the chain linked when its row is appended.\<close>

definition event_stable :: "'j audit_lib \<Rightarrow> 'j event \<Rightarrow> bool" where
  "event_stable A ev \<longleftrightarrow> detail_stable A (case ev_Detail ev of None \<Rightarrow> al_EmptyMap A | Some d \<Rightarrow> d)
     \<and> address_stable A (ev_IPAddress ev)"

lemma linked_appended:
  assumes "event_stable A ev" and "appended A rid now (applyDefaults A ev) db r"
  shows "linked A (au_TenantID r) (au_PrevHash r) [as_stored A r]"
proof -
  let ?ev = "applyDefaults A ev"
  obtain b where b: "canonicalJSON A (ev_Detail ?ev) = Inr b"
    and ins: "insertable A (new_record ?ev rid now (chain_head (ev_TenantID ?ev) db) b)"
    and r: "r = (new_record ?ev rid now (chain_head (ev_TenantID ?ev) db) b)
        \<lparr>au_Hash := computeHash A (new_record ?ev rid now (chain_head (ev_TenantID ?ev) db) b) b, au_Seq := ad_seq db\<rparr>"
    using assms(2) by (auto simp: appended_def Let_def)
  have m: "al_Marshal A (case ev_Detail ev of None \<Rightarrow> al_EmptyMap A | Some d \<Rightarrow> d) = Some b"
    using b by (auto simp: canonicalJSON_def applyDefaults_def split: option.splits)
  have "scanRecord A (au_TenantID r) (as_stored A r) = Inr (as_stored A r, b)"
    by (rule scan_stored [OF _ m]) (use assms(1) in \<open>auto simp: event_stable_def r new_record_def\<close>)
  moreover have "Option.bind (au_IPAddress r) (pg_inet A) = au_IPAddress r"
    using assms(1) ins by (auto simp: event_stable_def address_stable_def r new_record_def applyDefaults_def insertable_def)
  then have "hashed_fields (as_stored A r) = hashed_fields (new_record ?ev rid now (chain_head (ev_TenantID ?ev) db) b)"
    by (simp add: hashed_fields_def as_stored_def r)
  then have "computeHash A (as_stored A r) b = au_Hash r"
    using preimage_cong by (fastforce simp: r)
  ultimately show ?thesis by (simp add: as_stored_def)
qed

lemma appended_links:
  "appended A rid now ev db r \<Longrightarrow>
     au_PrevHash r = chain_head (au_TenantID r) db \<and> au_Seq r = ad_seq db"
  by (auto simp: appended_def new_record_def Let_def)

lemma chain_ok_committed:
  assumes ok: "chain_ok A db" and "event_stable A ev" and r: "appended A rid now (applyDefaults A ev) db r"
    and c: "committed A db r db'"
  shows "chain_ok A db'"
proof -
  have rows: "ad_rows db' = ad_rows db @ [as_stored A r]" "ad_seq db' = ad_seq db + 1"
    using c by (simp_all add: committed_def)
  have st: "au_Seq (as_stored A r) = ad_seq db" "au_TenantID (as_stored A r) = au_TenantID r"
    using appended_links [OF r] by (simp_all add: as_stored_def)
  have "linked A t [] (filter (\<lambda>x. au_TenantID x = t) (ad_rows db'))" for t
  proof (cases "au_TenantID r = t")
    case True
    have "au_PrevHash r = head_of [] (filter (\<lambda>x. au_TenantID x = t) (ad_rows db))"
      using appended_links [OF r] ok True by (simp add: chain_head_of tenant_rows_sorted chain_ok_def)
    with linked_appended [OF assms(2) r] ok True show ?thesis
      by (simp add: rows st chain_ok_def linked_snoc del: linked.simps)
  qed (use ok in \<open>simp add: rows st chain_ok_def\<close>)
  then show ?thesis
    using ok by (fastforce simp: chain_ok_def rows st sorted_append)
qed

lemma chain_ok_same_rows: "chain_ok A db \<Longrightarrow> ad_rows db' = ad_rows db \<Longrightarrow> ad_seq db \<le> ad_seq db' \<Longrightarrow> chain_ok A db'"
  by (fastforce simp: chain_ok_def)

lemma Log_keeps_chain: "event_stable A ev \<Longrightarrow> keeps (chain_ok A) (Log A rid now ev)"
proof (rule upholdsI)
  fix db assume "event_stable A ev" "chain_ok A db"
  then show "chain_ok A (snd (Log A rid now ev db))"
    using Log_outcome [where A = A and rid = rid and now = now and ?ev0.0 = ev and ?db0.0 = db]
    by (auto simp: at_start_def drawn_def intro: chain_ok_same_rows chain_ok_committed split: prod.splits sum.splits)
qed

lemma Verify_no_faults:
  "ad_faults db = [] \<Longrightarrow> fst (Verify A t db) =
     verify_rows A (tenant_or_default t) [] fresh_result (tenant_rows (tenant_or_default t) db)"
  by (simp add: Verify_def andThen_def astmt_def get_def lift_def Let_def)

lemma chain_ok_accepted:
  assumes "chain_ok A db" and "ad_faults db = []"
  shows "accepted (fst (Verify A t db))"
proof -
  have "linked A (tenant_or_default t) [] (tenant_rows (tenant_or_default t) db)"
    using assms(1) by (simp add: chain_ok_def tenant_rows_sorted)
  then show ?thesis
    unfolding Verify_no_faults [OF assms(2)] by (subst accepted_linked) (simp_all add: fresh_result_def)
qed

section \<open>Properties\<close>

text \<open>A library for the concrete runs: a 32-byte digest that repeats the length, an identity codec, and \<open>INET\<close>
  dropping a network mask.\<close>

definition toy_audit :: "string audit_lib" where
  "toy_audit = \<lparr>al_sha256 = (\<lambda>x. replicate 32 (char_of (length x))), al_Marshal = Some, al_Unmarshal = Some,
     al_EmptyMap = ''{}'', pg_jsonb = id, pg_inet = (\<lambda>ip. Some (takeWhile (\<lambda>c. c \<noteq> CHR ''/'') ip)), pg_text_ok = (\<lambda>_. True)\<rparr>"

definition toy_event :: "string \<Rightarrow> string event" where
  "toy_event ip = \<lparr>ev_TenantID = 1, ev_ActorType = ''user'', ev_ActorID = None, ev_ActorName = ''eve'',
     ev_Action = ''auth.login_failed'', ev_ResourceType = [], ev_ResourceID = None, ev_ResourceName = [],
     ev_Outcome = ''failure'', ev_Detail = None, ev_IPAddress = ip, ev_UserAgent = [], ev_SessionID = None\<rparr>"

definition empty_db :: audit_db where
  "empty_db = \<lparr>ad_rows = [], ad_seq = 1, ad_faults = []\<rparr>"

text \<open>C15. Appending keeps every tenant's chain verifiable: whichever statement fails, loses its reply or is
  the last one of the process, a chain that verified before \<open>Log\<close> verifies after it, provided the detail
  and the address of the event read back as they were written.\<close>

theorem log_keeps_every_chain:
  assumes "chain_ok A db" and "event_stable A ev"
  shows "chain_ok A (snd (Log A rid now ev db))
    \<and> (let db' = (snd (Log A rid now ev db))\<lparr>ad_faults := []\<rparr> in accepted (fst (Verify A t db')))"
proof -
  have ok: "chain_ok A (snd (Log A rid now ev db))"
    using upholdsD [OF Log_keeps_chain [OF assms(2)] assms(1)] .
  then have "accepted (fst (Verify A t ((snd (Log A rid now ev db))\<lparr>ad_faults := []\<rparr>)))"
    by (intro chain_ok_accepted) (simp_all add: chain_ok_faults)
  with ok show ?thesis by simp
qed

theorem log_keeps_every_chain_witness:
  "accepted (fst (Verify toy_audit 1 ((snd (Log toy_audit 7 5 (toy_event ''10.0.0.1'') empty_db))\<lparr>ad_faults := []\<rparr>)))"
proof -
  have "event_stable toy_audit (toy_event ''10.0.0.1'')" by code_simp
  moreover have "chain_ok toy_audit empty_db" by (simp add: chain_ok_def empty_db_def)
  ultimately show ?thesis
    using log_keeps_every_chain [where db = empty_db and A = toy_audit and ev = "toy_event ''10.0.0.1''" and rid = 7 and now = 5 and t = 1]
    by (simp add: Let_def)
qed

text \<open>C16. The chain is tamper evident: two logs of a tenant that both verify and end in the same hash were
  hashed over the same bytes, row by row and so with the same number of rows, unless they exhibit two
  inputs with the same SHA-256 digest.\<close>

theorem chain_is_tamper_evident:
  assumes "\<And>x. length (al_sha256 A x) = 32"
    and "accepted (verify_rows A t [] fresh_result rs)" and "accepted (verify_rows A t [] fresh_result rs')"
    and "head_of [] rs = head_of [] rs'"
  shows "map (hashed_bytes A t) rs = map (hashed_bytes A t) rs'
    \<or> (\<exists>x\<in>set rs. \<exists>y\<in>set rs'. hashed_bytes A t x \<noteq> hashed_bytes A t y
        \<and> al_sha256 A (hashed_bytes A t x) = al_sha256 A (hashed_bytes A t y))"
proof (rule same_head_same_history)
  show "al_sha256 A x \<noteq> []" for x using assms(1) [of x] by auto
  have "vr_Valid fresh_result" by (simp add: fresh_result_def)
  from accepted_linked [OF this, of A t "[]" rs] assms(2) show "linked A t [] rs" by simp
  from accepted_linked [OF \<open>vr_Valid fresh_result\<close>, of A t "[]" rs'] assms(3) show "linked A t [] rs'" by simp
qed (rule assms(4))

definition weak_audit :: "string audit_lib" where
  "weak_audit = toy_audit\<lparr>al_sha256 := (\<lambda>_. replicate 32 CHR 0x00)\<rparr>"

definition one_row :: "string \<Rightarrow> audit_row list" where
  "one_row actor = [\<lparr>au_Seq = 1, au_ID = 7, au_TenantID = 1, au_ActorType = ''user'', au_ActorID = None, au_ActorName = actor,
     au_Action = ''key.reveal'', au_ResourceType = [], au_ResourceID = None, au_ResourceName = [], au_Outcome = ''success'',
     au_Detail = ''{}'', au_IPAddress = None, au_UserAgent = [], au_SessionID = None, au_PrevHash = [],
     au_Hash = hex_encode (replicate 32 CHR 0x00), au_OccurredAt = 0\<rparr>]"

theorem chain_is_tamper_evident_witness:
  "map (hashed_bytes weak_audit 1) (one_row ''eve'') = map (hashed_bytes weak_audit 1) (one_row ''bob'')
     \<or> (\<exists>x\<in>set (one_row ''eve''). \<exists>y\<in>set (one_row ''bob''). hashed_bytes weak_audit 1 x \<noteq> hashed_bytes weak_audit 1 y
        \<and> al_sha256 weak_audit (hashed_bytes weak_audit 1 x) = al_sha256 weak_audit (hashed_bytes weak_audit 1 y))"
proof (rule chain_is_tamper_evident)
  have "accepted (verify_rows weak_audit 1 [] fresh_result (one_row actor))" for actor
    by (subst accepted_linked) (simp_all add: fresh_result_def one_row_def scanRecord_def decodeDetail_def canonicalJSON_def
        weak_audit_def toy_audit_def computeHash_def)
  then show "accepted (verify_rows weak_audit 1 [] fresh_result (one_row ''eve''))"
    "accepted (verify_rows weak_audit 1 [] fresh_result (one_row ''bob''))" by blast+
qed (simp_all add: weak_audit_def one_row_def head_of_def)

lemma linked_take: "linked A t prev rows \<Longrightarrow> linked A t prev (take n rows)"
proof (induction rows arbitrary: prev n)
  case (Cons row rows)
  then show ?case by (cases n) (auto split: sum.splits)
qed simp

lemma length_digest: "hex_encode (replicate 32 (char_of (n :: nat))) = hex_encode (replicate 32 (char_of m)) \<longleftrightarrow> n mod 256 = m mod 256"
  by (metis char_of_eq_iff hex_encode_inj replicate_eq_replicate zero_neq_numeral of_char_of)

lemma two_more: "a + 2 = b \<Longrightarrow> a mod 256 \<noteq> b mod (256 :: nat)"
  using mod_eq_dvd_iff_nat [of a b 256] by auto

lemma toy_hash_eq: "computeHash toy_audit r j = computeHash toy_audit r' j'
    \<longleftrightarrow> length (preimage r j) mod 256 = length (preimage r' j') mod 256"
  by (simp add: computeHash_def toy_audit_def length_digest)

lemma masked_address_breaks_chain:
  "case Log toy_audit 7 0 (toy_event ''10.0.0.1/8'') empty_db of
     (res, db) \<Rightarrow> is_ok res \<and> \<not> accepted (fst (Verify toy_audit 1 db))"
proof -
  let ?new = "new_record (applyDefaults toy_audit (toy_event ''10.0.0.1/8'')) 7 0 [] ''{}''"
  let ?r = "?new\<lparr>au_Hash := computeHash toy_audit ?new ''{}'', au_Seq := 1\<rparr>"
  have ins: "insertable toy_audit ?new"
    by (simp add: insertable_def new_record_def applyDefaults_def toy_event_def or_default_def toy_audit_def)
  have log: "Log toy_audit 7 0 (toy_event ''10.0.0.1/8'') empty_db =
      (Inr ?r, \<lparr>ad_rows = [as_stored toy_audit ?r], ad_seq = 2, ad_faults = []\<rparr>)"
    using ins by (simp add: Log_def andThen_def astmt_def ret_def get_def lift_def modify_def insert_event_def empty_db_def
        chain_head_def tenant_rows_def canonicalJSON_def Let_def)
      (simp add: applyDefaults_def toy_event_def toy_audit_def)
  have "hashed_fields (as_stored toy_audit ?r) = hashed_fields (?new\<lparr>au_IPAddress := Some ''10.0.0.1''\<rparr>)"
    by (simp add: hashed_fields_def as_stored_def new_record_def applyDefaults_def toy_event_def toy_audit_def)
  then have "length (preimage (as_stored toy_audit ?r) ''{}'') + 2 = length (preimage ?new ''{}'')"
    by (simp add: preimage_def hashed_fields_def new_record_def applyDefaults_def toy_event_def)
  then have "length (preimage (as_stored toy_audit ?r) ''{}'') mod 256 \<noteq> length (preimage ?new ''{}'') mod 256"
    by (rule two_more)
  then have "computeHash toy_audit (as_stored toy_audit ?r) ''{}'' \<noteq> computeHash toy_audit ?new ''{}''"
    unfolding toy_hash_eq .
  moreover have "au_Hash (as_stored toy_audit ?r) = computeHash toy_audit ?new ''{}''" by (simp add: as_stored_def)
  ultimately have "computeHash toy_audit (as_stored toy_audit ?r) ''{}'' \<noteq> au_Hash (as_stored toy_audit ?r)" by simp
  moreover have "scanRecord toy_audit 1 (as_stored toy_audit ?r) = Inr (as_stored toy_audit ?r, ''{}'')"
    by (rule scan_stored [where d = "''{}''"])
      (simp_all add: detail_stable_def toy_audit_def decodeDetail_def new_record_def applyDefaults_def toy_event_def)
  ultimately have "\<not> linked toy_audit 1 [] [as_stored toy_audit ?r]"
    by (simp del: One_nat_def)
  then have "\<not> accepted (verify_rows toy_audit 1 [] fresh_result [as_stored toy_audit ?r])"
    by (subst accepted_linked) (simp_all add: fresh_result_def del: linked.simps)
  moreover have "tenant_rows 1 \<lparr>ad_rows = [as_stored toy_audit ?r], ad_seq = 2, ad_faults = []\<rparr> = [as_stored toy_audit ?r]"
    by (simp add: tenant_rows_def as_stored_def new_record_def applyDefaults_def toy_event_def)
  then have "fst (Verify toy_audit 1 \<lparr>ad_rows = [as_stored toy_audit ?r], ad_seq = 2, ad_faults = []\<rparr>)
      = verify_rows toy_audit 1 [] fresh_result [as_stored toy_audit ?r]"
    by (subst Verify_no_faults) (simp_all add: tenant_or_default_def del: verify_rows.simps One_nat_def)
  ultimately show ?thesis by (simp add: log del: One_nat_def verify_rows.simps)
qed

text \<open>C38. Two weaknesses of the chain.  Its last rows can be cut off: every prefix of a chain that verifies
  verifies.  And the address of an event is hashed as the client sent it but stored as an \<open>INET\<close>: a
  request with \<open>X-Forwarded-For: 10.0.0.1/8\<close> is recorded, and from then on the chain is reported as
  modified at that row, though nobody touched it.\<close>

theorem chain_weaknesses:
  "(if accepted (verify_rows A t [] fresh_result rs) then accepted (verify_rows A t [] fresh_result (take n rs)) else True)
   \<and> (let ev = toy_event (clientIP (\<lambda>_. None) ''10.0.0.1/8, 192.0.2.1'' ''192.0.2.9:443'');
         (res, db) = Log toy_audit 7 0 ev empty_db in
      is_ok res \<and> \<not> accepted (fst (Verify toy_audit 1 db)))"
proof (intro conjI)
  show "if accepted (verify_rows A t [] fresh_result rs) then accepted (verify_rows A t [] fresh_result (take n rs)) else True"
    by (simp add: accepted_linked fresh_result_def linked_take)
  have "clientIP (\<lambda>_. None) ''10.0.0.1/8, 192.0.2.1'' ''192.0.2.9:443'' = ''10.0.0.1/8''" by code_simp
  then show "let ev = toy_event (clientIP (\<lambda>_. None) ''10.0.0.1/8, 192.0.2.1'' ''192.0.2.9:443'');
         (res, db) = Log toy_audit 7 0 ev empty_db in
      is_ok res \<and> \<not> accepted (fst (Verify toy_audit 1 db))"
    using masked_address_breaks_chain by (simp add: Let_def split: prod.splits)
qed

text \<open>The log the services see: one entry per row.  \<open>phase\<close> reads the phase out of a stored detail.\<close>

definition abs_row :: "(string \<Rightarrow> string) \<Rightarrow> audit_row \<Rightarrow> audit_entry" where
  "abs_row phase r = \<lparr>ae_TenantID = au_TenantID r, ae_ActorID = au_ActorID r, ae_Action = au_Action r,
     ae_ResourceID = au_ResourceID r, ae_Outcome = au_Outcome r, ae_Phase = phase (au_Detail r)\<rparr>"

definition abs_event :: "'j audit_lib \<Rightarrow> (string \<Rightarrow> string) \<Rightarrow> 'j event \<Rightarrow> audit_entry" where
  "abs_event A phase ev0 = (let ev = applyDefaults A ev0 in
     \<lparr>ae_TenantID = ev_TenantID ev, ae_ActorID = ev_ActorID ev, ae_Action = ev_Action ev,
      ae_ResourceID = ev_ResourceID ev, ae_Outcome = ev_Outcome ev,
      ae_Phase = phase (case canonicalJSON A (ev_Detail ev) of Inl _ \<Rightarrow> [] | Inr b \<Rightarrow> pg_jsonb A b)\<rparr>)"

text \<open>C17. The logger implements the append the services are modelled with: seen as one entry per row, every
  run of \<open>Log\<close>, with whatever faults in its five statements, is a run of the one-statement \<open>audit_Log\<close>
  under some fault: it succeeds exactly when the entry was appended and acknowledged, and otherwise the log is
  unchanged or, when only the reply of the commit was lost, has the entry.\<close>

theorem log_refines_audit_Log:
  "\<exists>f. (let (res, db') = Log A rid now ev db;
           (res', w') = audit_Log (abs_event A phase ev)
             (w\<lparr>w_audit := map (abs_row phase) (ad_rows db), w_faults := [f]\<rparr>) in
        is_ok res = is_ok res' \<and> map (abs_row phase) (ad_rows db') = w_audit w')"
proof -
  have e: "abs_row phase (as_stored A r) = abs_event A phase ev" if "appended A rid now (applyDefaults A ev) db r" for r
    using that by (auto simp: appended_def abs_row_def abs_event_def as_stored_def new_record_def Let_def)
  have run: "audit_Log x (w\<lparr>w_audit := l, w_faults := [Fine]\<rparr>) = (Inr (), w\<lparr>w_faults := [], w_audit := l @ [x]\<rparr>)"
    "audit_Log x (w\<lparr>w_audit := l, w_faults := [Fails]\<rparr>) = (Inl ErrDatabase, w\<lparr>w_faults := [], w_audit := l\<rparr>)"
    "audit_Log x (w\<lparr>w_audit := l, w_faults := [Lost]\<rparr>) = (Inl ErrDatabase, w\<lparr>w_faults := [], w_audit := l @ [x]\<rparr>)" for x l
    by (cases w; simp add: audit_Log_def stmt_def modify_def Let_def)+
  obtain res db' where log: "Log A rid now ev db = (res, db')" by (cases "Log A rid now ev db")
  have "(\<exists>r. res = Inr r \<and> map (abs_row phase) (ad_rows db') = map (abs_row phase) (ad_rows db) @ [abs_event A phase ev])
      \<or> (\<exists>x. res = Inl x \<and> ad_rows db' = ad_rows db)
      \<or> (\<exists>x. res = Inl x \<and> map (abs_row phase) (ad_rows db') = map (abs_row phase) (ad_rows db) @ [abs_event A phase ev])"
    using Log_outcome [where A = A and rid = rid and now = now and ?ev0.0 = ev and ?db0.0 = db] e
    by (auto simp: log at_start_def drawn_def committed_def split: sum.splits)
  then show ?thesis
  proof (elim disjE exE conjE)
    fix r assume "res = Inr r" "map (abs_row phase) (ad_rows db') = map (abs_row phase) (ad_rows db) @ [abs_event A phase ev]"
    then show ?thesis by (intro exI [of _ Fine]) (simp add: log run)
  next
    fix x assume "res = Inl x" "ad_rows db' = ad_rows db"
    then show ?thesis by (intro exI [of _ Fails]) (simp add: log run)
  next
    fix x assume "res = Inl x" "map (abs_row phase) (ad_rows db') = map (abs_row phase) (ad_rows db) @ [abs_event A phase ev]"
    then show ?thesis by (intro exI [of _ Lost]) (simp add: log run)
  qed
qed

end
