(* ===== verification/Reconcile.thy ===== *)
theory Reconcile
  imports DeploySafety
begin

text \<open>
  Drift detection (\<open>internal/service/reconcile.go\<close>) and the inventory of keys found on targets
  (\<open>internal/store/discovery.go\<close>).  Go iterates a map in no particular order: \<open>ord\<close> is the order the
  run happens to use, an arbitrary permutation of the fingerprints found.
\<close>

section \<open>The inventory (discovery.go)\<close>

definition same_discovery :: "discovered_key \<Rightarrow> discovered_key \<Rightarrow> bool" where
  "same_discovery d x \<longleftrightarrow> d_TargetID x = d_TargetID d \<and> d_PrincipalID x = d_PrincipalID d
     \<and> d_Fingerprint x = d_Fingerprint d"

definition reobserved :: "gtime \<Rightarrow> discovered_key \<Rightarrow> discovered_key \<Rightarrow> discovered_key" where
  "reobserved now d x = x\<lparr>d_LastSeenAt := now, d_PublicKey := d_PublicKey d, d_Comment := d_Comment d,
     d_Options := d_Options d,
     d_State := (if d_State x = DiscoveredRemoved then DiscoveredUnmanaged else d_State x)\<rparr>"

definition Observe :: "discovered_key \<Rightarrow> ('h, discovered_key) dbprog" where
  "Observe d0 = andThen uuid_New (\<lambda>did. stmt (\<lambda>w.
     let d = d0\<lparr>d_ID := did, d_TenantID := (if d_TenantID d0 = uuid_Nil then DefaultTenantID else d_TenantID d0),
               d_State := DiscoveredUnmanaged, d_AdoptedKeyID := None, d_FirstSeenAt := w_now w, d_LastSeenAt := w_now w\<rparr>
     in case List.find (same_discovery d) (w_discovered w) of
          Some x \<Rightarrow> (Inr (reobserved (w_now w) d x),
            w\<lparr>w_discovered := upd_where (same_discovery d) (reobserved (w_now w) d) (w_discovered w)\<rparr>)
        | None \<Rightarrow>
            if list_ex (\<lambda>t. t_ID t = d_TargetID d) (w_targets w) \<and> list_ex (\<lambda>p. p_ID p = d_PrincipalID d) (w_principals w)
            then (Inr d, w\<lparr>w_discovered := w_discovered w @ [d]\<rparr>)
            else (Inl (ErrOther ''store: recording discovered key''), w)))"

text \<open>An empty \<open>seen\<close> list is SQL NULL, which puts no condition on the fingerprint.\<close>

definition gone :: "uuid \<Rightarrow> uuid \<Rightarrow> string list \<Rightarrow> gtime \<Rightarrow> discovered_key \<Rightarrow> bool" where
  "gone tid pid seen cutoff d \<longleftrightarrow> d_TargetID d = tid \<and> d_PrincipalID d = pid \<and> d_State d = DiscoveredUnmanaged
     \<and> d_LastSeenAt d < cutoff \<and> (seen = [] \<or> d_Fingerprint d \<notin> set seen)"

definition MarkAbsent :: "uuid \<Rightarrow> uuid \<Rightarrow> string list \<Rightarrow> gtime \<Rightarrow> ('h, nat) dbprog" where
  "MarkAbsent tid pid seen cutoff = stmt (\<lambda>w.
     (Inr (length (filter (gone tid pid seen cutoff) (w_discovered w))),
      w\<lparr>w_discovered := upd_where (gone tid pid seen cutoff) (\<lambda>d. d\<lparr>d_State := DiscoveredRemoved\<rparr>) (w_discovered w)\<rparr>))"

record discovery_filter =
  df_TenantID :: uuid
  df_States :: "discovered_state list"
  df_TargetID :: "uuid option"
  df_Limit :: int

definition discovery_limit :: "int \<Rightarrow> nat" where
  "discovery_limit n = (if n \<le> 0 \<or> n > 1000 then 200 else nat n)"

definition Discovery_List :: "discovery_filter \<Rightarrow> ('h, discovered_key list) dbprog" where
  "Discovery_List f = stmt (get (\<lambda>w. take (discovery_limit (df_Limit f)) (sort_key (\<lambda>d. - d_LastSeenAt d)
     (filter (\<lambda>d. d_TenantID d = (if df_TenantID f = uuid_Nil then DefaultTenantID else df_TenantID f)
        \<and> (df_States f = [] \<or> d_State d \<in> set (df_States f)) \<and> opt_eq (df_TargetID f) (d_TargetID d)
        \<and> list_ex (\<lambda>t. t_ID t = d_TargetID d) (w_targets w)
        \<and> list_ex (\<lambda>p. p_ID p = d_PrincipalID d) (w_principals w)) (w_discovered w)))))"

definition Discovery_Get :: "uuid \<Rightarrow> uuid \<Rightarrow> ('h, discovered_key) dbprog" where
  "Discovery_Get tenantID did = select_one w_discovered (\<lambda>d. d_TenantID d = tenantID \<and> d_ID d = did)"

definition Discovery_SetState ::
  "uuid \<Rightarrow> uuid \<Rightarrow> discovered_state \<Rightarrow> uuid option \<Rightarrow> ('h, discovered_key) dbprog" where
  "Discovery_SetState tenantID did st adopted =
     update_returning w_discovered (\<lambda>rows w. w\<lparr>w_discovered := rows\<rparr>) ErrNotFound
       (\<lambda>d. d_TenantID d = tenantID \<and> d_ID d = did)
       (\<lambda>now d. d\<lparr>d_State := st, d_AdoptedKeyID := (case adopted of None \<Rightarrow> d_AdoptedKeyID d | Some k \<Rightarrow> Some k)\<rparr>)"

definition CountByState :: "uuid \<Rightarrow> ('h, discovered_state \<Rightarrow> nat) dbprog" where
  "CountByState tenantID = stmt (get (\<lambda>w st.
     length (filter (\<lambda>d. d_TenantID d = tenantID \<and> d_State d = st) (w_discovered w))))"

section \<open>Targets by filter (targets.go)\<close>

text \<open>\<open>LIKE\<close> with its two wildcards and the default escape.\<close>

fun sql_like :: "string \<Rightarrow> string \<Rightarrow> bool" where
  "sql_like [] s = (s = [])"
| "sql_like (c # cs) [] = (c = CHR ''%'' \<and> sql_like cs [])"
| "sql_like (c # cs) (x # xs) =
     (if c = CHR ''%'' then sql_like cs (x # xs) \<or> sql_like (c # cs) xs
      else if c = CHR ''_'' then sql_like cs xs
      else if c = CHR 0x5C then (case cs of [] \<Rightarrow> False | e # es \<Rightarrow> e = x \<and> sql_like es xs)
      else c = x \<and> sql_like cs xs)"

record target_filter =
  tf_TenantID :: uuid
  tf_Kinds :: "string list"
  tf_Tags :: "string list"
  tf_Health :: "string list"
  tf_DriftState :: "string list"
  tf_Enabled :: "bool option"
  tf_IsCanary :: "bool option"
  tf_Search :: string
  tf_Limit :: int
  tf_Offset :: nat

definition target_matches :: "target_filter \<Rightarrow> target \<Rightarrow> bool" where
  "target_matches f t \<longleftrightarrow>
     t_TenantID t = (if tf_TenantID f = uuid_Nil then DefaultTenantID else tf_TenantID f)
     \<and> (tf_Kinds f = [] \<or> t_Kind t \<in> set (tf_Kinds f))
     \<and> (tf_Tags f = [] \<or> list_ex (\<lambda>x. x \<in> set (tf_Tags f)) (t_Tags t))
     \<and> (tf_Health f = [] \<or> fst (t_Health t) \<in> set (tf_Health f))
     \<and> (tf_DriftState f = [] \<or> t_DriftState t \<in> set (tf_DriftState f))
     \<and> opt_eq (tf_Enabled f) (t_Enabled t) \<and> opt_eq (tf_IsCanary f) (t_IsCanary t)
     \<and> (let search = trim_space (tf_Search f); pat = ''%'' @ to_lower search @ ''%'' in
        search = [] \<or> sql_like pat (to_lower (t_Name t)) \<or> sql_like pat (to_lower (t_Address t)))"

definition Targets_List :: "target_filter \<Rightarrow> ('h, target list) dbprog" where
  "Targets_List f = stmt (get (\<lambda>w.
     take (if tf_Limit f \<le> 0 \<or> tf_Limit f > 1000 then 200 else nat (tf_Limit f))
       (drop (tf_Offset f) (sort_key t_Name (filter (target_matches f) (w_targets w))))))"

section \<open>One account (reconcile.go)\<close>

record principal_report =
  rep_PrincipalID :: uuid
  rep_Username :: string
  rep_Missing :: "string list"
  rep_Unexpected :: "string list"
  rep_Unmanaged :: "string list"
  rep_Healed :: bool
  rep_Error :: string

definition report_InSync :: "principal_report \<Rightarrow> bool" where
  "report_InSync r \<longleftrightarrow> length (rep_Missing r) = 0 \<and> length (rep_Unexpected r) = 0 \<and> rep_Error r = []"

definition empty_report :: "principal \<Rightarrow> principal_report" where
  "empty_report p = \<lparr>rep_PrincipalID = p_ID p, rep_Username = p_Username p, rep_Missing = [], rep_Unexpected = [],
     rep_Unmanaged = [], rep_Healed = False, rep_Error = []\<rparr>"

text \<open>\<open>MarshalAuthorizedKey\<close> ends in the newline that is cut off here.\<close>

definition discovered_line :: "'p ssh_lib \<Rightarrow> 'p entry \<Rightarrow> string" where
  "discovered_line L e = (case e_PublicKey e of None \<Rightarrow> e_Raw e
     | Some pub \<Rightarrow> butlast (ssh_Marshal L pub) @ (if e_Comment e \<noteq> [] then '' '' @ e_Comment e else []))"

definition key_entries :: "'p entry list \<Rightarrow> 'p entry list" where
  "key_entries actual = filter (\<lambda>e. e_Kind e = EntryKey \<and> e_Fingerprint e \<noteq> []) actual"

definition seen_fingerprints :: "'p entry list \<Rightarrow> string list" where
  "seen_fingerprints actual = map e_Fingerprint (key_entries actual)"

text \<open>The map \<open>present\<close>: a later line with the same fingerprint replaces an earlier one.\<close>

definition present_map :: "'p entry list \<Rightarrow> string \<Rightarrow> 'p entry option" where
  "present_map actual = map_of (rev (map (\<lambda>e. (e_Fingerprint e, e)) (key_entries actual)))"

text \<open>\<open>managedByFingerprint\<close> asks for 1000 keys; the listing replaces that limit by 100.\<close>

definition managedByFingerprint :: "uuid \<Rightarrow> ('h, string \<Rightarrow> key option) dbprog" where
  "managedByFingerprint tenantID =
     andThen (Keys_List ((all_keys_filter tenantID)\<lparr>kf_Limit := 1000\<rparr>)) (\<lambda>ks.
     ret (map_of (rev (map (\<lambda>k. (k_Fingerprint k, k)) ks))))"

text \<open>The loop over the assignments of the account; it carries the report and the set \<open>expected\<close>.\<close>

definition check_assignment ::
  "subject \<Rightarrow> (string \<Rightarrow> 'p entry option) \<Rightarrow> assignment \<Rightarrow> principal_report \<times> string list \<Rightarrow>
     ('h, principal_report \<times> string list) dbprog" where
  "check_assignment s present a = (\<lambda>(report, expected).
     andThen (attempt (Keys_Get (TenantID s) (a_KeyID a))) (\<lambda>r.
     case r of
       Inl e \<Rightarrow> ret (report, expected)
     | Inr k \<Rightarrow> (case a_DesiredState a of
           StatePresent \<Rightarrow>
             if present (k_Fingerprint k) = None
             then andThen (warn (RecordDeployment (a_ID a) StateAbsent ''the key is not present on the target'')) (\<lambda>_.
                  ret (report\<lparr>rep_Missing := rep_Missing report @ [k_Fingerprint k]\<rparr>, k_Fingerprint k # expected))
             else ret (report, k_Fingerprint k # expected)
         | StateAbsent \<Rightarrow>
             ret (if present (k_Fingerprint k) \<noteq> None
                  then report\<lparr>rep_Unexpected := rep_Unexpected report @ [k_Fingerprint k]\<rparr> else report, expected)
         | _ \<Rightarrow> ret (report, expected))))"

definition discovered_of :: "'p ssh_lib \<Rightarrow> subject \<Rightarrow> target \<Rightarrow> principal \<Rightarrow> string \<Rightarrow> 'p entry \<Rightarrow> discovered_key" where
  "discovered_of L s t p fp e = \<lparr>d_ID = uuid_Nil, d_TenantID = TenantID s, d_TargetID = t_ID t,
     d_PrincipalID = p_ID p, d_Fingerprint = fp, d_PublicKey = discovered_line L e, d_Algorithm = e_Type e,
     d_Comment = e_Comment e, d_Options = e_Options e, d_State = DiscoveredUnmanaged, d_AdoptedKeyID = None,
     d_FirstSeenAt = 0, d_LastSeenAt = 0\<rparr>"

text \<open>The loop over the keys found.\<close>

definition classify ::
  "'p ssh_lib \<Rightarrow> subject \<Rightarrow> target \<Rightarrow> principal \<Rightarrow> (string \<Rightarrow> key option) \<Rightarrow> (string \<Rightarrow> 'p entry option) \<Rightarrow>
     string list \<Rightarrow> string \<Rightarrow> principal_report \<Rightarrow> ('h, principal_report) dbprog" where
  "classify L s t p managed present expected fp report =
     (if fp \<in> set expected then ret report
      else case managed fp of
          Some k \<Rightarrow> ret (report\<lparr>rep_Unexpected := rep_Unexpected report @ [fp @ '' ('' @ k_Name k @ '')'']\<rparr>)
        | None \<Rightarrow> (case present fp of None \<Rightarrow> ret report
            | Some e \<Rightarrow>
                andThen (warn (Observe (discovered_of L s t p fp e))) (\<lambda>_.
                ret (report\<lparr>rep_Unmanaged := rep_Unmanaged report @ [fp]\<rparr>))))"

definition heal ::
  "('h, 'p) env \<Rightarrow> subject \<Rightarrow> target \<Rightarrow> principal \<Rightarrow> principal_report \<Rightarrow> ('h, principal_report) dbprog" where
  "heal E s t p report =
     (if t_ReconcileMode t = ''auto_heal'' \<and> (rep_Missing report \<noteq> [] \<or> rep_Unexpected report \<noteq> []) then
        andThen (attempt (Deploy E s (t_ID t) (p_ID p) \<lparr>do_DryRun = False, do_Prune = rep_Unexpected report \<noteq> [],
            do_VerifyAuth = True, do_ChangesetID = None\<rparr>)) (\<lambda>r.
        ret (case r of Inl e \<Rightarrow> report\<lparr>rep_Error := ''auto-heal failed: '' @ err_text e\<rparr>
                     | Inr _ \<Rightarrow> report\<lparr>rep_Healed := True\<rparr>))
      else ret report)"

text \<open>From the listing of the account on.\<close>

definition inspect ::
  "('h, 'p) env \<Rightarrow> (string list \<Rightarrow> string list) \<Rightarrow> subject \<Rightarrow> target \<Rightarrow> principal \<Rightarrow> (string \<Rightarrow> key option) \<Rightarrow>
     'p entry list \<Rightarrow> assignment list \<Rightarrow> ('h, principal_report) dbprog" where
  "inspect E ord s t p managed actual desired =
     andThen (foldEach desired (empty_report p, []) (check_assignment s (present_map actual))) (\<lambda>(report1, expected).
     andThen time_Now (\<lambda>observedAt.
     andThen (foldEach (ord (remdups (seen_fingerprints actual))) report1
       (classify (env_ssh E) s t p managed (present_map actual) expected)) (\<lambda>report.
     andThen (warn (MarkAbsent (t_ID t) (p_ID p) (seen_fingerprints actual) observedAt)) (\<lambda>_.
     andThen (if rep_Unmanaged report \<noteq> [] then emit ''discovery.unmanaged_key'' (Some (t_ID t)) else ret ()) (\<lambda>_.
     heal E s t p report)))))"

definition failed_report :: "principal \<Rightarrow> gerror \<Rightarrow> principal_report" where
  "failed_report p e = (empty_report p)\<lparr>rep_Error := err_text e\<rparr>"

definition reconcilePrincipal ::
  "('h, 'p) env \<Rightarrow> (string list \<Rightarrow> string list) \<Rightarrow> subject \<Rightarrow> target \<Rightarrow> ('h, 'p) connector \<Rightarrow>
     (string \<Rightarrow> key option) \<Rightarrow> principal \<Rightarrow> ('h, principal_report) dbprog" where
  "reconcilePrincipal E ord s t conn managed p =
     andThen (attempt (load_credential E (TenantID s) t)) (\<lambda>c.
     case c of Inl e \<Rightarrow> ret (failed_report p e)
     | Inr cred \<Rightarrow>
       andThen (call (cn_List conn \<lparr>rq_Target = toConnectorTarget t, rq_Principal = toConnectorPrincipal p,
                                   rq_Credential = cred\<rparr>)) (\<lambda>r.
       case r of Inl e \<Rightarrow> ret (failed_report p e)
       | Inr actual \<Rightarrow>
         andThen (attempt (ForPrincipal (TenantID s) (p_ID p))) (\<lambda>a.
         case a of Inl e \<Rightarrow> ret (failed_report p e)
         | Inr desired \<Rightarrow> inspect E ord s t p managed actual desired)))"

section \<open>A target, all targets, adoption\<close>

record reconcile_result =
  rr_TargetID :: uuid
  rr_TargetName :: string
  rr_DriftState :: string
  rr_Mode :: string
  rr_Principals :: "principal_report list"
  rr_CheckedAt :: gtime

definition Drifted :: "reconcile_result \<Rightarrow> bool" where
  "Drifted r \<longleftrightarrow> list_ex (\<lambda>p. \<not> report_InSync p) (rr_Principals r)"

definition reconcile_record :: "subject \<Rightarrow> string \<Rightarrow> uuid option \<Rightarrow> ('h, unit) dbprog" where
  "reconcile_record s action rid = record_audit (audit_by s action rid ''success'' [])"

definition reconcile_target ::
  "('h, 'p) env \<Rightarrow> (string list \<Rightarrow> string list) \<Rightarrow> subject \<Rightarrow> target \<Rightarrow> ('h, 'p) connector \<Rightarrow> ('h, reconcile_result) dbprog" where
  "reconcile_target E ord s t conn =
     andThen (ListPrincipals (t_ID t)) (\<lambda>principals.
     andThen time_Now (\<lambda>checked.
     andThen (managedByFingerprint (TenantID s)) (\<lambda>managed.
     andThen (foldEach principals [] (\<lambda>p reports.
        andThen (reconcilePrincipal E ord s t conn managed p) (\<lambda>rep. ret (reports @ [rep])))) (\<lambda>reports.
     let res0 = \<lparr>rr_TargetID = t_ID t, rr_TargetName = t_Name t, rr_DriftState = ''in_sync'', rr_Mode = t_ReconcileMode t,
                 rr_Principals = reports, rr_CheckedAt = checked\<rparr>;
         res = (if Drifted res0 then res0\<lparr>rr_DriftState := ''drifted''\<rparr> else res0) in
     andThen (warn (SetDrift (TenantID s) (t_ID t) (rr_DriftState res))) (\<lambda>_.
     andThen (if rr_DriftState res = ''drifted'' then emit ''drift.detected'' (Some (t_ID t)) else ret ()) (\<lambda>_.
     andThen (reconcile_record s ''reconcile.run'' (Some (t_ID t))) (\<lambda>_.
     ret res)))))))"

definition Reconcile ::
  "('h, 'p) env \<Rightarrow> (string list \<Rightarrow> string list) \<Rightarrow> subject \<Rightarrow> uuid \<Rightarrow> ('h, reconcile_result) dbprog" where
  "Reconcile E ord s tid =
     andThen (lift (Require (Some s) PermReconcileRun)) (\<lambda>_.
     andThen (Targets_Get (TenantID s) tid) (\<lambda>t.
     if \<not> InScope (Some s) (t_Tags t) then fail ErrOutOfScope else
     if t_ReconcileMode t = ''disabled'' then fail (ErrOther ''service: reconciliation is disabled for target'') else
     andThen (lift (Registry_Get (env_registry E) (t_Connector t))) (\<lambda>conn.
     if \<not> CanList (cn_Capabilities conn) then fail (ErrOther ''service: the connector cannot read back its keys'')
     else reconcile_target E ord s t conn)))"

definition ReconcileAll ::
  "('h, 'p) env \<Rightarrow> (string list \<Rightarrow> string list) \<Rightarrow> subject \<Rightarrow> ('h, reconcile_result list) dbprog" where
  "ReconcileAll E ord s =
     andThen (lift (Require (Some s) PermReconcileRun)) (\<lambda>_.
     andThen (Targets_List \<lparr>tf_TenantID = TenantID s, tf_Kinds = [], tf_Tags = [], tf_Health = [], tf_DriftState = [],
         tf_Enabled = None, tf_IsCanary = None, tf_Search = [], tf_Limit = 1000, tf_Offset = 0\<rparr>) (\<lambda>targets.
     foldEach targets [] (\<lambda>t out.
       if \<not> t_Enabled t \<or> t_ReconcileMode t = ''disabled'' then ret out
       else andThen (attempt (Reconcile E ord s (t_ID t))) (\<lambda>r.
         case r of
           Inl e \<Rightarrow> andThen (warn (SetDrift (TenantID s) (t_ID t) ''error'')) (\<lambda>_. ret out)
         | Inr res \<Rightarrow> ret (out @ [res])))))"

definition shortFingerprint :: "string \<Rightarrow> string" where
  "shortFingerprint fp = (let trimmed = (if prefix ''SHA256:'' fp then drop 7 fp else fp) in
     if length trimmed > 8 then take 8 trimmed else trimmed)"

definition adopted_key :: "'p ssh_lib \<Rightarrow> subject \<Rightarrow> discovered_key \<Rightarrow> string \<Rightarrow> 'p \<Rightarrow> string \<Rightarrow> key" where
  "adopted_key L s d name pub comment =
     \<lparr>k_ID = uuid_Nil, k_TenantID = TenantID s,
      k_Name = (if name = [] then ''adopted-'' @ shortFingerprint (d_Fingerprint d) else name),
      k_Algorithm = (case ParseAlgorithm (ssh_Type L pub) of Inr a \<Rightarrow> algorithm_String a | Inl _ \<Rightarrow> ssh_Type L pub),
      k_PublicKey = d_PublicKey d, k_Fingerprint = d_Fingerprint d, k_Comment = orString comment (d_Comment d),
      k_Status = KeyActive, k_KeyClass = KeyClassDiscovered, k_Generation = 0, k_ParentKeyID = None,
      k_OwnerID = Some (UserID s), k_Tags = [''adopted''], k_HasPrivateKey = False,
      k_Compliant = is_ok (ParseAlgorithm (ssh_Type L pub)), k_ExpiresAt = None, k_ActivatedAt = None,
      k_RetiredAt = None, k_CreatedAt = 0\<rparr>"

definition Adopt :: "('h, 'p) env \<Rightarrow> subject \<Rightarrow> uuid \<Rightarrow> string \<Rightarrow> ('h, key) dbprog" where
  "Adopt E s did name =
     andThen (lift (Require (Some s) PermKeyAdopt)) (\<lambda>_.
     andThen (Discovery_Get (TenantID s) did) (\<lambda>d.
     if d_State d = DiscoveredAdopted then fail ErrConflict else
     case ParseAuthorizedKey (env_ssh E) (d_PublicKey d) of
       None \<Rightarrow> fail (ErrOther ''service: the discovered key is not a valid public key'')
     | Some (pub, comment, _) \<Rightarrow>
         andThen (Keys_Create (adopted_key (env_ssh E) s d name pub comment) None) (\<lambda>k.
         andThen (Assignments_Upsert (TenantID s) (k_ID k) (d_TargetID d) (d_PrincipalID d) (d_Options d) StatePresent) (\<lambda>_.
         andThen (Discovery_SetState (TenantID s) did DiscoveredAdopted (Some (k_ID k))) (\<lambda>_.
         andThen (reconcile_record s ''key.adopt'' (Some (k_ID k))) (\<lambda>_.
         ret k))))))"

definition Ignore :: "subject \<Rightarrow> uuid \<Rightarrow> ('h, discovered_key) dbprog" where
  "Ignore s did =
     andThen (lift (Require (Some s) PermKeyAdopt)) (\<lambda>_.
     Discovery_SetState (TenantID s) did DiscoveredIgnored None)"

definition ListDiscovered :: "subject \<Rightarrow> discovery_filter \<Rightarrow> ('h, discovered_key list) dbprog" where
  "ListDiscovered s f =
     andThen (lift (Require (Some s) PermTargetRead)) (\<lambda>_.
     Discovery_List (f\<lparr>df_TenantID := TenantID s\<rparr>))"

end
