(* ===== verification/ReconcileSafety.thy ===== *)
theory ReconcileSafety
  imports Reconcile RotationLinux
begin

text \<open>
  What reconciliation may do to a machine: a key SKM has no record of survives every deployment and every
  reconciliation, pruning and healing included.
\<close>

section \<open>Keys without a record are spared\<close>

text \<open>A good desired key that is not \<open>fp\<close>: with it, \<open>safe\<close> says that no stored key has that fingerprint.\<close>

definition spared :: "(desired_key \<Rightarrow> bool) \<Rightarrow> string \<Rightarrow> desired_key \<Rightarrow> bool" where
  "spared good fp d \<longleftrightarrow> good d \<and> dk_Fingerprint d \<noteq> fp"

lemma key_connector_spared:
  "key_connector conn login held good \<Longrightarrow> key_connector conn login held (spared good fp)"
  by (simp add: key_connector_def spared_def)

lemma connected_spared: "connected E login held good \<Longrightarrow> connected E login held (spared good fp)"
  by (auto simp: connected_def intro: key_connector_spared)

lemma no_record:
  assumes "safe held (spared good fp) opts_ok l fp pl ro w" and "opts_ok []"
  shows "\<forall>k\<in>set (w_keys w). k_Fingerprint k \<noteq> fp"
  using assms by (fastforce simp: safe_def spared_def)

lemma keys_matching_mem: "set (keys_matching f rows) \<subseteq> set rows"
  by (auto simp: keys_matching_def dest!: in_set_takeD in_set_dropD)

lemma managed_pages_mem:
  assumes "\<forall>m\<in>set out. R m" and "\<forall>k\<in>set (w_keys w). R (k_Fingerprint k)"
  shows "wlp (managed_pages fuel tenant n out) (\<lambda>x _. \<forall>m\<in>set x. R m) w"
  using assms
proof (induction fuel arbitrary: n out w)
  case (Suc fuel)
  have step: "\<forall>m\<in>set (out @ map k_Fingerprint (keys_matching f (w_keys w))). R m" for f
    using Suc.prems keys_matching_mem [of f "w_keys w"] by auto
  show ?case
    unfolding managed_pages.simps Keys_List_def Let_def
    by (intro wlp_intros Suc.IH) (use step Suc.prems in simp_all)
qed (simp add: wlp_ret)

lemma managed_unclaimed:
  assumes "safe held (spared good fp) opts_ok l fp pl ro w" and "opts_ok []"
  shows "wlp (managedFingerprints tenant) (\<lambda>x _. fp \<notin> set x) w"
proof -
  have "wlp (managed_pages fuel tenant 0 []) (\<lambda>x _. \<forall>m\<in>set x. m \<noteq> fp) w" for fuel
    by (rule managed_pages_mem) (use no_record [OF assms] in auto)
  then show ?thesis
    unfolding managedFingerprints_def
    by (intro wlp_andThen wlp_get) (rule wlp_weaken, assumption, blast)
qed

lemma safe_after_managed:
  assumes "opts_ok []"
    and "\<And>x. fp \<notin> set x \<Longrightarrow> keeps (safe held (spared good fp) opts_ok l fp pl ro) (f x)"
  shows "keeps (safe held (spared good fp) opts_ok l fp pl ro) (andThen (managedFingerprints tenant) f)"
  by (rule keeps_andThen_result [where R = "\<lambda>x. fp \<notin> set x"])
    (auto intro: safe_managed managed_unclaimed assms)

lemma safe_inventory [safe_intros]:
  "keeps (safe held good opts_ok l fp pl ro) (Observe d)"
  "keeps (safe held good opts_ok l fp pl ro) (MarkAbsent tid pid seen cutoff)"
  unfolding Observe_def MarkAbsent_def
  by (intro keeps_intros safe_intros safe_stmt;
      auto simp: upholds_def safe_def places_def Let_def split: option.split)+

context connected begin

lemma spared_converge:
  assumes conn: "env_registry E kind = Some conn" and good: "\<forall>d\<in>set desired. spared good fp d"
    and managed: "fp \<notin> set managed"
  shows "keeps (safe held (spared good fp) opts_ok l fp pl ro) (converge E s tid pid rq conn opts desired rows sid managed)"
proof -
  note c = connected_spared [OF connected_axioms, of fp]
  have "fp \<in> held (snd (cn_Apply conn rq desired (DefaultApplyOptions\<lparr>ao_DryRun := do_DryRun opts,
      ao_Prune := do_Prune opts, ao_ManagedFingerprints := managed\<rparr>) h)) l" if "fp \<in> held h l" for h
    by (rule key_connector.apply_keeps_desired [OF connected.registered [OF c conn] that good])
      (simp_all add: DefaultApplyOptions_def managed)
  then show ?thesis
    unfolding converge_def auditDeploy_def recordFailure_def Let_def
    by (intro keeps_intros safe_intros safe_hosts connected.safe_deploy_succeeded [OF c conn]) auto
qed

lemma spared_deploy_to:
  assumes "resolved_in E pl tid pid x" and ok: "opts_ok []"
  shows "keeps (safe held (spared good fp) opts_ok l fp pl ro) (deploy_to E s tid pid opts x)"
proof -
  obtain t p cred conn where x: "x = (t, p, cred, conn)" by (cases x)
  with assms(1) obtain kind where conn: "env_registry E kind = Some conn" by (auto simp: resolved_in_def)
  note c = connected_spared [OF connected_axioms, of fp]
  show ?thesis
    unfolding deploy_to_def x prod.case Let_def
    by (intro keeps_if keeps_fail safe_after_desiredKeys)
      (auto intro!: keeps_andThen connected.safe_take_snapshot [OF c conn] safe_after_managed ok
         spared_converge [OF conn])
qed

lemma spared_Deploy:
  assumes "opts_ok []"
  shows "keeps (safe held (spared good fp) opts_ok l fp pl ro) (Deploy E s tid pid opts)"
  unfolding Deploy_def
  by (intro keeps_andThen [OF keeps_lift] safe_after_resolve spared_deploy_to assms)

lemma spared_inspect:
  assumes "opts_ok []"
  shows "keeps (safe held (spared good fp) opts_ok l fp pl ro) (inspect E ord s t p managed actual desired)"
  unfolding inspect_def check_assignment_def classify_def heal_def Keys_Get_def
  by (intro keeps_intros safe_intros spared_Deploy assms keeps_case_prod)
    (auto intro!: keeps_intros safe_intros split: binding_state.split)

lemma spared_reconcilePrincipal:
  assumes ok: "opts_ok []" and conn: "env_registry E kind = Some conn"
  shows "keeps (safe held (spared good fp) opts_ok l fp pl ro) (reconcilePrincipal E ord s t conn managed p)"
  unfolding reconcilePrincipal_def ForPrincipal_def
  by (intro keeps_intros safe_intros spared_inspect ok safe_hosts)
    (simp add: key_connector.list_held [OF registered [OF conn]])

lemma spared_Reconcile:
  assumes ok: "opts_ok []"
  shows "keeps (safe held (spared good fp) opts_ok l fp pl ro) (Reconcile E ord s tid)"
proof -
  have "keeps (safe held (spared good fp) opts_ok l fp pl ro) (reconcile_target E ord s t conn)"
    if "env_registry E kind = Some conn" for t kind conn
    unfolding reconcile_target_def ListPrincipals_def managedByFingerprint_def Keys_List_def reconcile_record_def Let_def
    by (intro keeps_intros safe_intros spared_reconcilePrincipal [where opts_ok = opts_ok, OF ok that])
  then have r: "keeps (safe held (spared good fp) opts_ok l fp pl ro)
      (andThen (lift (Registry_Get (env_registry E) kind)) (\<lambda>conn. if \<not> CanList (cn_Capabilities conn) then fail e
         else reconcile_target E ord s t conn))" for kind e t
    by (cases "env_registry E kind")
      (auto simp: Registry_Get_def lift_def andThen_def upholds_def fail_def)
  show ?thesis
    unfolding Reconcile_def Targets_Get_def
    by (intro keeps_intros safe_intros r)
qed

lemma spared_ReconcileAll:
  assumes "opts_ok []"
  shows "keeps (safe held (spared good fp) opts_ok l fp pl ro) (ReconcileAll E ord s)"
  unfolding ReconcileAll_def Targets_List_def
  by (intro keeps_intros safe_intros spared_Reconcile assms)

end

section \<open>Properties\<close>

definition unclaimed_world :: "hosts world" where
  "unclaimed_world = (toy_world RotationCompleted RTRetired)\<lparr>w_keys := [toy_key 7 ''B''],
     w_targets := [toy_target_row\<lparr>t_ReconcileMode := ''auto_heal''\<rparr>]\<rparr>"

text \<open>C4. A key SKM has no record of is never taken from a machine: whatever faults strike, no deployment (pruning or
  not), no reconciliation of a target and no sweep over all targets (healing or not) removes, from any
  login of any host, a key whose fingerprint is no row of the key table.\<close>

theorem unrecorded_keys_survive:
  assumes "connected E login held good" and "opts_ok []"
    and "safe held (spared good fp) opts_ok l fp pl (\<lambda>_. True) w"
  shows "fp \<in> held (w_hosts (snd (Deploy E s tid pid opts w))) l
     \<and> fp \<in> held (w_hosts (snd (Reconcile E ord s tid w))) l
     \<and> fp \<in> held (w_hosts (snd (ReconcileAll E ord s w))) l"
  using upholdsD [OF connected.spared_Deploy [where opts_ok = opts_ok, OF assms(1,2)] assms(3)]
    upholdsD [OF connected.spared_Reconcile [where opts_ok = opts_ok, OF assms(1,2)] assms(3)]
    upholdsD [OF connected.spared_ReconcileAll [where opts_ok = opts_ok, OF assms(1,2)] assms(3)]
  by (simp add: safe_def)

theorem unrecorded_keys_survive_witness:
  "''A'' \<in> linux_held toy_ssh (w_hosts (snd (ReconcileAll toy_env rev (NewSubject 2 1 ''op'' AllPermissions [] []) unclaimed_world))) toy_login"
proof -
  have "connected toy_env (linux_login locked_site) (linux_held toy_ssh) (linux_good toy_ssh)"
    by (rule linux_connected) (simp add: toy_env_def)
  moreover have "safe (linux_held toy_ssh) (spared (linux_good toy_ssh) ''A'') (\<lambda>os. os = []) toy_login ''A''
      (places unclaimed_world) (\<lambda>_. True) unclaimed_world"
  proof -
    have "''A'' \<in> linux_held toy_ssh (toy_hosts ''locked'' two_keys []) toy_login" by code_simp
    then show ?thesis
      using toy_good [of "''B''" "[]"]
      by (simp add: safe_def unclaimed_world_def toy_world_def blank_def toy_key_def spared_def)
  qed
  ultimately show ?thesis
    using unrecorded_keys_survive [where opts_ok = "\<lambda>os. os = []" and s = "NewSubject 2 1 ''op'' AllPermissions [] []"
      and ord = rev and E = toy_env and w = unclaimed_world and fp = "''A''" and l = toy_login] by blast
qed

end
