(* ===== verification/ReconcileReport.thy ===== *)
theory ReconcileReport
  imports Reconcile RotationLinux
begin

definition resolved_keys :: "'h world \<Rightarrow> subject \<Rightarrow> binding_state \<Rightarrow> assignment list \<Rightarrow> string list" where
  "resolved_keys w s st desired = concat (map (\<lambda>a. if a_DesiredState a \<noteq> st then []
     else (case List.find (\<lambda>k. k_TenantID k = TenantID s \<and> k_ID k = a_KeyID a) (w_keys w) of
             None \<Rightarrow> [] | Some k \<Rightarrow> [k_Fingerprint k])) desired)"

text \<open>A run without faults in which the tables the loops read stay the same.\<close>

definition calm :: "'h world \<Rightarrow> 'h world \<Rightarrow> bool" where
  "calm w w' \<longleftrightarrow> w_faults w = [] \<and> w_faults w' = [] \<and> w_keys w' = w_keys w \<and> w_targets w' = w_targets w
     \<and> w_principals w' = w_principals w"

lemma calm_refl: "w_faults w = [] \<Longrightarrow> calm w w"
  and calm_trans: "calm w w' \<Longrightarrow> calm w' w'' \<Longrightarrow> calm w w''"
  by (simp_all add: calm_def)

lemma resolved_keys_calm: "calm w w' \<Longrightarrow> resolved_keys w' s st as = resolved_keys w s st as"
  by (simp add: resolved_keys_def calm_def cong: if_cong)

lemma present_map_dom: "dom (present_map actual) = set (seen_fingerprints actual)"
  by (simp add: present_map_def seen_fingerprints_def dom_map_of_conv_image_fst image_image)

lemma check_assignment_run:
  assumes "w_faults w = []"
  shows "\<exists>w'. check_assignment s present a (report, expected) w =
     (Inr (report\<lparr>rep_Missing := rep_Missing report @ filter (\<lambda>fp. present fp = None) (resolved_keys w s StatePresent [a]),
           rep_Unexpected := rep_Unexpected report @ filter (\<lambda>fp. present fp \<noteq> None) (resolved_keys w s StateAbsent [a])\<rparr>,
        resolved_keys w s StatePresent [a] @ expected), w') \<and> calm w w' \<and> w_discovered w' = w_discovered w"
  using assms
  by (auto simp: check_assignment_def resolved_keys_def Keys_Get_def select_one_def calm_def warn_def ignoring_def
      RecordDeployment_def attempt_def andThen_def ret_def modify_def uncaught_def
      split: option.split binding_state.split)

lemma check_loop_run:
  assumes "w_faults w = []"
  shows "\<exists>w' exp. foldEach as (report, expected) (check_assignment s present) w =
     (Inr (report\<lparr>rep_Missing := rep_Missing report @ filter (\<lambda>fp. present fp = None) (resolved_keys w s StatePresent as),
           rep_Unexpected := rep_Unexpected report @ filter (\<lambda>fp. present fp \<noteq> None) (resolved_keys w s StateAbsent as)\<rparr>,
        exp), w') \<and> calm w w' \<and> w_discovered w' = w_discovered w
     \<and> set exp = set (resolved_keys w s StatePresent as) \<union> set expected"
  using assms
proof (induction as arbitrary: report expected w)
  case Nil
  then show ?case by (simp add: ret_def resolved_keys_def calm_refl)
next
  case (Cons a as)
  obtain w1 where 1: "check_assignment s present a (report, expected) w =
     (Inr (report\<lparr>rep_Missing := rep_Missing report @ filter (\<lambda>fp. present fp = None) (resolved_keys w s StatePresent [a]),
           rep_Unexpected := rep_Unexpected report @ filter (\<lambda>fp. present fp \<noteq> None) (resolved_keys w s StateAbsent [a])\<rparr>,
        resolved_keys w s StatePresent [a] @ expected), w1)" "calm w w1" "w_discovered w1 = w_discovered w"
    using check_assignment_run [OF Cons.prems] by blast
  have f1: "w_faults w1 = []" using 1(2) by (simp add: calm_def)
  have r: "resolved_keys w s st (a # as) = resolved_keys w s st [a] @ resolved_keys w1 s st as" for st
    using resolved_keys_calm [OF 1(2)] by (simp add: resolved_keys_def)
  let ?rep = "report\<lparr>rep_Missing := rep_Missing report @ filter (\<lambda>fp. present fp = None) (resolved_keys w s StatePresent [a]),
           rep_Unexpected := rep_Unexpected report @ filter (\<lambda>fp. present fp \<noteq> None) (resolved_keys w s StateAbsent [a])\<rparr>"
  from Cons.IH [OF f1, of ?rep "resolved_keys w s StatePresent [a] @ expected"] obtain w2 exp where 2:
    "foldEach as (?rep, resolved_keys w s StatePresent [a] @ expected) (check_assignment s present) w1 =
     (Inr (?rep\<lparr>rep_Missing := rep_Missing ?rep @ filter (\<lambda>fp. present fp = None) (resolved_keys w1 s StatePresent as),
           rep_Unexpected := rep_Unexpected ?rep @ filter (\<lambda>fp. present fp \<noteq> None) (resolved_keys w1 s StateAbsent as)\<rparr>,
        exp), w2)" "calm w1 w2" "w_discovered w2 = w_discovered w1"
    "set exp = set (resolved_keys w1 s StatePresent as) \<union> set (resolved_keys w s StatePresent [a] @ expected)" by blast
  show ?case
    by (rule exI [of _ w2], rule exI [of _ exp])
      (use 1 2 calm_trans [OF 1(2) 2(2)] in \<open>auto simp: andThen_def r\<close>)
qed

text \<open>The inventory has a row for the key, not marked as removed.\<close>

definition noted :: "target \<Rightarrow> principal \<Rightarrow> string \<Rightarrow> discovered_key list \<Rightarrow> bool" where
  "noted t p fp rows \<longleftrightarrow> (\<exists>d\<in>set rows. d_TargetID d = t_ID t \<and> d_PrincipalID d = p_ID p
     \<and> d_Fingerprint d = fp \<and> d_State d \<noteq> DiscoveredRemoved)"

lemma noted_map:
  assumes "noted t p fp rows"
    and "\<And>d. d_State d \<noteq> DiscoveredRemoved \<Longrightarrow> d \<in> set rows \<Longrightarrow> d_TargetID d = t_ID t \<Longrightarrow> d_PrincipalID d = p_ID p \<Longrightarrow> d_Fingerprint d = fp \<Longrightarrow>
      d_TargetID (f d) = d_TargetID d \<and> d_PrincipalID (f d) = d_PrincipalID d \<and> d_Fingerprint (f d) = d_Fingerprint d
      \<and> d_State (f d) \<noteq> DiscoveredRemoved"
  shows "noted t p fp (map f rows)"
proof -
  from assms(1) obtain d where d: "d \<in> set rows" "d_TargetID d = t_ID t" "d_PrincipalID d = p_ID p"
    "d_Fingerprint d = fp" "d_State d \<noteq> DiscoveredRemoved"
    by (auto simp: noted_def)
  with assms(2) [OF d(5,1-4)] show ?thesis by (auto simp: noted_def intro!: bexI [of _ d])
qed

lemma noted_append: "noted t p fp (xs @ ys) \<longleftrightarrow> noted t p fp xs \<or> noted t p fp ys"
  by (auto simp: noted_def)

lemma noted_update:
  assumes "d_TargetID d = t_ID t" "d_PrincipalID d = p_ID p" "List.find (same_discovery d) rows = Some x"
  shows "noted t p (d_Fingerprint d) (upd_where (same_discovery d) (reobserved now d) rows)"
proof -
  have x: "x \<in> set rows" "same_discovery d x" using assms(3) by (auto simp: find_Some_iff)
  then have "reobserved now d x \<in> set (upd_where (same_discovery d) (reobserved now d) rows)"
    by (force simp: upd_where_def)
  moreover have "d_TargetID (reobserved now d x) = t_ID t" "d_PrincipalID (reobserved now d x) = p_ID p"
    "d_Fingerprint (reobserved now d x) = d_Fingerprint d" "d_State (reobserved now d x) \<noteq> DiscoveredRemoved"
    using x(2) assms(1,2) by (auto simp: same_discovery_def reobserved_def)
  ultimately show ?thesis unfolding noted_def by blast
qed

lemma Observe_run:
  assumes "w_faults w = []" "t \<in> set (w_targets w)" "p \<in> set (w_principals w)"
  shows "\<exists>w'. warn (Observe (discovered_of L s t p fp e)) w = (Inr (), w') \<and> calm w w'
     \<and> noted t p fp (w_discovered w') \<and> (\<forall>x. noted t p x (w_discovered w) \<longrightarrow> noted t p x (w_discovered w'))"
proof -
  define d where "d = (discovered_of L s t p fp e)\<lparr>d_ID := w_next w,
     d_TenantID := (if TenantID s = uuid_Nil then DefaultTenantID else TenantID s),
     d_State := DiscoveredUnmanaged, d_AdoptedKeyID := None, d_FirstSeenAt := w_now w, d_LastSeenAt := w_now w\<rparr>"
  have d: "d_TargetID d = t_ID t" "d_PrincipalID d = p_ID p" "d_Fingerprint d = fp" "d_State d = DiscoveredUnmanaged"
    by (simp_all add: d_def discovered_of_def)
  have fk: "list_ex (\<lambda>x. t_ID x = t_ID t) (w_targets w)" "list_ex (\<lambda>x. p_ID x = p_ID p) (w_principals w)"
    using assms(2,3) by (auto simp: list_ex_iff)
  define rows where "rows = (case List.find (same_discovery d) (w_discovered w) of
     Some x \<Rightarrow> upd_where (same_discovery d) (reobserved (w_now w) d) (w_discovered w) | None \<Rightarrow> w_discovered w @ [d])"
  have "warn (Observe (discovered_of L s t p fp e)) w = (Inr (), w\<lparr>w_next := Suc (w_next w), w_discovered := rows\<rparr>)"
    using assms(1) fk d
    by (simp add: warn_def ignoring_def Observe_def uuid_New_def prog_simps rows_def d_def discovered_of_def
        split: option.split)
  moreover have "noted t p fp rows"
    using noted_update [of d t p "w_discovered w"] d
    by (auto simp: rows_def noted_append noted_def split: option.split)
  moreover have "noted t p x rows" if "noted t p x (w_discovered w)" for x
  proof -
    have "noted t p x (upd_where (same_discovery d) (reobserved (w_now w) d) (w_discovered w))"
      using that unfolding upd_where_def by (rule noted_map) (auto simp: reobserved_def)
    with that show ?thesis by (simp add: rows_def noted_append split: option.split)
  qed
  ultimately show ?thesis using assms(1) by (auto simp: calm_def)
qed

lemma classify_loop_run:
  assumes "w_faults w = []" "t \<in> set (w_targets w)" "p \<in> set (w_principals w)" "\<forall>fp\<in>set fps. present fp \<noteq> None"
  shows "\<exists>w'. foldEach fps report (classify L s t p managed present expected) w =
     (Inr (report\<lparr>rep_Unexpected := rep_Unexpected report @
             concat (map (\<lambda>fp. if fp \<in> set expected then [] else
               (case managed fp of None \<Rightarrow> [] | Some k \<Rightarrow> [fp @ '' ('' @ k_Name k @ '')''])) fps),
           rep_Unmanaged := rep_Unmanaged report @ filter (\<lambda>fp. fp \<notin> set expected \<and> managed fp = None) fps\<rparr>), w')
     \<and> calm w w' \<and> (\<forall>x. noted t p x (w_discovered w) \<longrightarrow> noted t p x (w_discovered w'))
     \<and> (\<forall>fp\<in>set fps. fp \<notin> set expected \<and> managed fp = None \<longrightarrow> noted t p fp (w_discovered w'))"
  using assms
proof (induction fps arbitrary: report w)
  case Nil
  then show ?case by (simp add: ret_def calm_refl)
next
  case (Cons fp fps)
  show ?case
  proof (cases "fp \<in> set expected \<or> managed fp \<noteq> None")
    case True
    then consider "fp \<in> set expected" | k where "fp \<notin> set expected" "managed fp = Some k" by auto
    then show ?thesis
    proof cases
      case 1
      with Cons.IH [of w report] Cons.prems show ?thesis by (auto simp: classify_def andThen_def ret_def)
    next
      case 2
      with Cons.IH [of w "report\<lparr>rep_Unexpected := rep_Unexpected report @ [fp @ '' ('' @ k_Name k @ '')'']\<rparr>"] Cons.prems
      show ?thesis by (auto simp: classify_def andThen_def ret_def)
    qed
  next
    case False
    obtain e where e: "present fp = Some e" using Cons.prems(4) by auto
    obtain w1 where w1: "warn (Observe (discovered_of L s t p fp e)) w = (Inr (), w1)" "calm w w1" "noted t p fp (w_discovered w1)"
      "\<forall>x. noted t p x (w_discovered w) \<longrightarrow> noted t p x (w_discovered w1)"
      using Observe_run [OF Cons.prems(1-3)] by blast
    have prems: "w_faults w1 = []" "t \<in> set (w_targets w1)" "p \<in> set (w_principals w1)"
      using w1(2) Cons.prems by (auto simp: calm_def)
    have c: "classify L s t p managed present expected fp report w = (Inr (report\<lparr>rep_Unmanaged := rep_Unmanaged report @ [fp]\<rparr>), w1)"
      using False e w1(1) by (simp add: classify_def andThen_def ret_def)
    have "\<forall>fp\<in>set fps. present fp \<noteq> None" using Cons.prems(4) by simp
    from Cons.IH [OF prems this, of "report\<lparr>rep_Unmanaged := rep_Unmanaged report @ [fp]\<rparr>"] obtain w2 where w2:
      "foldEach fps (report\<lparr>rep_Unmanaged := rep_Unmanaged report @ [fp]\<rparr>) (classify L s t p managed present expected) w1 =
     (Inr (report\<lparr>rep_Unmanaged := rep_Unmanaged report @ [fp], rep_Unexpected := rep_Unexpected report @
             concat (map (\<lambda>fp. if fp \<in> set expected then [] else
               (case managed fp of None \<Rightarrow> [] | Some k \<Rightarrow> [fp @ '' ('' @ k_Name k @ '')''])) fps),
           rep_Unmanaged := (rep_Unmanaged report @ [fp]) @ filter (\<lambda>fp. fp \<notin> set expected \<and> managed fp = None) fps\<rparr>), w2)"
      "calm w1 w2" "\<forall>x. noted t p x (w_discovered w1) \<longrightarrow> noted t p x (w_discovered w2)"
      "\<forall>fp\<in>set fps. fp \<notin> set expected \<and> managed fp = None \<longrightarrow> noted t p fp (w_discovered w2)"
      by auto
    show ?thesis
      by (rule exI [of _ w2]) (use w1 w2 False calm_trans [OF w1(2) w2(2)] in \<open>simp add: andThen_def c\<close>)
  qed
qed

lemma MarkAbsent_run:
  assumes "w_faults w = []"
  shows "\<exists>w'. warn (MarkAbsent (t_ID t) (p_ID p) seen cutoff) w = (Inr (), w') \<and> calm w w'
     \<and> (\<forall>fp\<in>set seen. noted t p fp (w_discovered w) \<longrightarrow> noted t p fp (w_discovered w'))"
proof -
  let ?rows = "upd_where (gone (t_ID t) (p_ID p) seen cutoff) (\<lambda>d. d\<lparr>d_State := DiscoveredRemoved\<rparr>) (w_discovered w)"
  have "warn (MarkAbsent (t_ID t) (p_ID p) seen cutoff) w = (Inr (), w\<lparr>w_discovered := ?rows\<rparr>)"
    using assms by (simp add: warn_def ignoring_def MarkAbsent_def prog_simps)
  moreover have "noted t p fp ?rows" if "fp \<in> set seen" "noted t p fp (w_discovered w)" for fp
    using that(2) unfolding upd_where_def by (rule noted_map) (use that(1) in \<open>auto simp: gone_def\<close>)
  ultimately show ?thesis using assms by (auto simp: calm_def)
qed

lemma side_channel_run:
  assumes "w_faults w = []"
  shows "\<exists>w'. (if c then emit ty rid else ret ()) w = (Inr (), w') \<and> calm w w' \<and> w_discovered w' = w_discovered w"
    and "\<exists>n w'. time_Now w = (Inr n, w') \<and> calm w w' \<and> w_discovered w' = w_discovered w"
  using assms
  by (auto simp: emit_def ignoring_def prog_simps calm_def time_Now_def split: list.split)

lemma inspect_report:
  assumes "w_faults w = []" and "t \<in> set (w_targets w)" and "p \<in> set (w_principals w)"
    and "\<And>xs. set (ord xs) = set xs" and "t_ReconcileMode t \<noteq> ''auto_heal''"
  shows "\<exists>rep w'. inspect E ord s t p managed actual desired w = (Inr rep, w')
     \<and> set (rep_Missing rep) = set (resolved_keys w s StatePresent desired) - set (seen_fingerprints actual)
     \<and> set (rep_Unmanaged rep) = {fp \<in> set (seen_fingerprints actual).
          fp \<notin> set (resolved_keys w s StatePresent desired) \<and> managed fp = None}
     \<and> set (rep_Unexpected rep) = set (resolved_keys w s StateAbsent desired) \<inter> set (seen_fingerprints actual)
          \<union> {fp @ '' ('' @ k_Name k @ '')'' | fp k. fp \<in> set (seen_fingerprints actual)
               \<and> fp \<notin> set (resolved_keys w s StatePresent desired) \<and> managed fp = Some k}
     \<and> (\<forall>fp\<in>set (rep_Unmanaged rep). noted t p fp (w_discovered w'))"
proof -
  let ?exp = "resolved_keys w s StatePresent desired" and ?seen = "seen_fingerprints actual"
  let ?present = "present_map actual"
  have calmD: "w_faults w' = []" "t \<in> set (w_targets w')" "p \<in> set (w_principals w')" if "calm w w'" for w'
    using that assms(2,3) by (auto simp: calm_def)
  obtain w1 expected where 1: "foldEach desired (empty_report p, []) (check_assignment s ?present) w =
     (Inr ((empty_report p)\<lparr>rep_Missing := rep_Missing (empty_report p) @ filter (\<lambda>fp. ?present fp = None) ?exp,
           rep_Unexpected := rep_Unexpected (empty_report p) @ filter (\<lambda>fp. ?present fp \<noteq> None) (resolved_keys w s StateAbsent desired)\<rparr>,
        expected), w1)" (is "_ = (Inr (?rep1, _), _)") and c1: "calm w w1" and e: "set expected = set ?exp"
    using check_loop_run [OF assms(1), of desired "empty_report p" "[]" s ?present] by auto
  obtain n w2 where 2: "time_Now w1 = (Inr n, w2)" and c2: "calm w w2"
    using side_channel_run(2) [OF calmD(1) [OF c1]] calm_trans [OF c1] by blast
  let ?fps = "ord (remdups ?seen)"
  have fps: "set ?fps = set ?seen" by (simp add: assms(4))
  have pres: "\<forall>fp\<in>set ?fps. ?present fp \<noteq> None" using present_map_dom [of actual] by (auto simp: fps dom_def)
  let ?rep = "?rep1\<lparr>rep_Unexpected := rep_Unexpected ?rep1 @
             concat (map (\<lambda>fp. if fp \<in> set expected then [] else
               (case managed fp of None \<Rightarrow> [] | Some k \<Rightarrow> [fp @ '' ('' @ k_Name k @ '')''])) ?fps),
           rep_Unmanaged := rep_Unmanaged ?rep1 @ filter (\<lambda>fp. fp \<notin> set expected \<and> managed fp = None) ?fps\<rparr>"
  obtain w3 where 3: "foldEach ?fps ?rep1 (classify (env_ssh E) s t p managed ?present expected) w2 = (Inr ?rep, w3)"
    and c3: "calm w w3" and n3: "\<forall>fp\<in>set ?fps. fp \<notin> set expected \<and> managed fp = None \<longrightarrow> noted t p fp (w_discovered w3)"
    using classify_loop_run [OF calmD [OF c2] pres, of ?rep1 "env_ssh E" s managed expected] calm_trans [OF c2] by blast
  obtain w4 where 4: "warn (MarkAbsent (t_ID t) (p_ID p) ?seen n) w3 = (Inr (), w4)" and c4: "calm w w4"
    and n4: "\<forall>fp\<in>set ?seen. noted t p fp (w_discovered w3) \<longrightarrow> noted t p fp (w_discovered w4)"
    using MarkAbsent_run [OF calmD(1) [OF c3], of t p ?seen n] calm_trans [OF c3] by blast
  obtain w5 where 5: "(if rep_Unmanaged ?rep \<noteq> [] then emit ''discovery.unmanaged_key'' (Some (t_ID t)) else ret ()) w4 = (Inr (), w5)"
    and c5: "calm w w5" and n5: "w_discovered w5 = w_discovered w4"
    using side_channel_run(1) [OF calmD(1) [OF c4], of "rep_Unmanaged ?rep \<noteq> []"] calm_trans [OF c4] by blast
  have run: "inspect E ord s t p managed actual desired w = (Inr ?rep, w5)"
    unfolding inspect_def andThen_def 1 prod.case sum.case 2 3 4 5
    using assms(5) by (simp add: heal_def ret_def)
  have none: "?present fp = None \<longleftrightarrow> fp \<notin> set ?seen" for fp
    using present_map_dom [of actual] by auto
  show ?thesis
    using n3 n4
    by (intro exI [of _ ?rep] exI [of _ w5] conjI run)
      (auto simp: empty_report_def e fps n5 none split: if_splits option.splits, metis+)
qed

text \<open>C18. Without faults and without healing, a reconciliation accounts for every key it finds and every
  key it expects.  Missing are exactly the keys assigned as present that are not there; a key found is
  expected, or reported as unexpected if SKM manages it, or reported as unmanaged and on record in the
  inventory; keys assigned as absent that are there are unexpected too.  The order in which Go walks
  the map of keys found does not matter.\<close>

theorem reconcile_accounts_for_every_key:
  assumes "w_faults w = []" and "t \<in> set (w_targets w)" and "p \<in> set (w_principals w)"
    and "\<And>xs. set (ord xs) = set xs" and "t_ReconcileMode t \<noteq> ''auto_heal''"
  shows "\<exists>rep w'. inspect E ord s t p managed actual desired w = (Inr rep, w')
     \<and> set (rep_Missing rep) = set (resolved_keys w s StatePresent desired) - set (seen_fingerprints actual)
     \<and> set (rep_Unmanaged rep) = {fp \<in> set (seen_fingerprints actual).
          fp \<notin> set (resolved_keys w s StatePresent desired) \<and> managed fp = None}
     \<and> set (rep_Unexpected rep) = set (resolved_keys w s StateAbsent desired) \<inter> set (seen_fingerprints actual)
          \<union> {fp @ '' ('' @ k_Name k @ '')'' | fp k. fp \<in> set (seen_fingerprints actual)
               \<and> fp \<notin> set (resolved_keys w s StatePresent desired) \<and> managed fp = Some k}
     \<and> (\<forall>fp\<in>set (rep_Unmanaged rep). noted t p fp (w_discovered w'))"
  by (rule inspect_report [OF assms])

section \<open>A key that was recorded long ago\<close>




section \<open>A small fleet\<close>

definition plain_key_entry :: "string \<Rightarrow> string entry" where
  "plain_key_entry fp = \<lparr>e_Kind = EntryKey, e_Raw = fp, e_Options = [], e_Type = ''ssh-ed25519'', e_PublicKey = Some fp,
     e_Comment = [], e_Fingerprint = fp, e_dirty = False\<rparr>"

definition robot :: subject where
  "robot = NewSubject 2 1 ''op'' [PermReconcileRun, PermDeployExecute, PermKeyAdopt] [] []"

definition list_world :: "string \<Rightarrow> key list \<Rightarrow> assignment list \<Rightarrow> discovered_key list \<Rightarrow> 'h \<Rightarrow> 'h world" where
  "list_world mode ks asg disc h = (blank h)\<lparr>w_keys := ks, w_targets := [toy_target_row\<lparr>t_ReconcileMode := mode\<rparr>],
     w_principals := [toy_principal_row], w_assignments := asg, w_discovered := disc,
     w_credentials := [\<lparr>cr_ID = 5, cr_TenantID = 1, cr_Kind = CredOther, cr_Username = [], cr_KeyID = None,
       cr_Secret = Some \<lparr>KEKVersion = 1, WrappedDEK = replicate 60 (CHR ''k''), Ciphertext = replicate 60 (CHR ''c'')\<rparr>\<rparr>]\<rparr>"

definition toy_assignment :: "uuid \<Rightarrow> binding_state \<Rightarrow> assignment" where
  "toy_assignment kid st = \<lparr>a_ID = 10 + kid, a_TenantID = 1, a_KeyID = kid, a_TargetID = 3, a_PrincipalID = 4, a_Options = [],
     a_DesiredState = st, a_ActualState = StatePresent, a_DeployedAt = None, a_AuthVerifiedAt = None, a_LastError = [], a_CreatedAt = 0\<rparr>"





theorem reconcile_accounts_for_every_key_witness:
  "\<exists>rep w'. inspect toy_env rev robot toy_target_row toy_principal_row [''B'' \<mapsto> toy_key 7 ''B'']
      (map plain_key_entry [''A'', ''B'', ''C'']) [toy_assignment 6 StatePresent]
      (list_world [] [toy_key 6 ''A''] [] [] (toy_hosts ''u'' [] [])) = (Inr rep, w')
    \<and> rep_Missing rep = [] \<and> set (rep_Unmanaged rep) = {''C''} \<and> set (rep_Unexpected rep) = {''B (web)''}"
proof -
  have p: "w_faults (list_world [] [toy_key 6 ''A''] [] [] (toy_hosts ''u'' [] [])) = []"
    "toy_target_row \<in> set (w_targets (list_world [] [toy_key 6 ''A''] [] [] (toy_hosts ''u'' [] [])))"
    "toy_principal_row \<in> set (w_principals (list_world [] [toy_key 6 ''A''] [] [] (toy_hosts ''u'' [] [])))"
    by (simp_all add: list_world_def blank_def toy_target_row_def)
  have e: "resolved_keys (list_world [] [toy_key 6 ''A''] [] [] (toy_hosts ''u'' [] [])) robot StatePresent [toy_assignment 6 StatePresent] = [''A'']"
    "resolved_keys (list_world [] [toy_key 6 ''A''] [] [] (toy_hosts ''u'' [] [])) robot StateAbsent [toy_assignment 6 StatePresent] = []"
    "seen_fingerprints (map plain_key_entry [''A'', ''B'', ''C'']) = [''A'', ''B'', ''C'']"
    by code_simp+
  show ?thesis
    using reconcile_accounts_for_every_key [OF p, of rev toy_env robot "[''B'' \<mapsto> toy_key 7 ''B'']"
        "map plain_key_entry [''A'', ''B'', ''C'']" "[toy_assignment 6 StatePresent]"]
    unfolding e by (auto simp: toy_target_row_def toy_key_def split: if_splits)
qed

end
