(* ===== verification/Accounts.thy ===== *)
theory Accounts
  imports Store
begin

text \<open>
  The repositories behind sign-in and administration: accounts and roles (\<open>internal/store/users.go\<close>) and API
  tokens (\<open>internal/store/tokens.go\<close>).  One statement each, over the tables of the world; what a deletion
  cascades to follows the foreign keys of the schema.
\<close>

section \<open>Accounts (users.go)\<close>

definition Locked :: "gtime \<Rightarrow> user_row \<Rightarrow> bool" where
  "Locked now u \<longleftrightarrow> (case u_LockedUntil u of None \<Rightarrow> False | Some t \<Rightarrow> now < t)"

definition Users_Create :: "user_row \<Rightarrow> ('h, user_row) dbprog" where
  "Users_Create u0 =
     andThen (if u_ID u0 = uuid_Nil then uuid_New else ret (u_ID u0)) (\<lambda>uid.
     let u = u0\<lparr>u_ID := uid, u_TenantID := (if u_TenantID u0 = uuid_Nil then DefaultTenantID else u_TenantID u0),
               u_FailedLogins := 0, u_LockedUntil := None, u_LastLoginAt := None\<rparr> in
     stmt (\<lambda>w. if list_ex (\<lambda>x. u_TenantID x = u_TenantID u \<and> u_Username x = u_Username u) (w_users w)
                then (Inl ErrConflict, w) else (Inr u, w\<lparr>w_users := w_users w @ [u]\<rparr>)))"

definition Users_Get :: "uuid \<Rightarrow> uuid \<Rightarrow> ('h, user_row) dbprog" where
  "Users_Get tenantID uid = select_one w_users (\<lambda>u. u_TenantID u = tenantID \<and> u_ID u = uid)"

definition GetByUsername :: "uuid \<Rightarrow> string \<Rightarrow> ('h, user_row) dbprog" where
  "GetByUsername tenantID name = select_one w_users (\<lambda>u. u_TenantID u = tenantID \<and> u_Username u = name)"

definition Users_List :: "uuid \<Rightarrow> ('h, user_row list) dbprog" where
  "Users_List tenantID = stmt (get (\<lambda>w. sort_key u_Username (filter (\<lambda>u. u_TenantID u = tenantID) (w_users w))))"

definition update_users :: "(user_row \<Rightarrow> bool) \<Rightarrow> (gtime \<Rightarrow> user_row \<Rightarrow> user_row) \<Rightarrow> ('h, unit) dbprog" where
  "update_users hit f = stmt (modify (\<lambda>w. w\<lparr>w_users := upd_where hit (f (w_now w)) (w_users w)\<rparr>))"

definition RecordLogin :: "uuid \<Rightarrow> ('h, unit) dbprog" where
  "RecordLogin uid = update_users (\<lambda>u. u_ID u = uid)
     (\<lambda>now u. u\<lparr>u_LastLoginAt := Some now, u_FailedLogins := 0, u_LockedUntil := None\<rparr>)"

definition RecordFailedLogin :: "uuid \<Rightarrow> int \<Rightarrow> duration \<Rightarrow> ('h, unit) dbprog" where
  "RecordFailedLogin uid threshold lockFor = update_users (\<lambda>u. u_ID u = uid)
     (\<lambda>now u. u\<lparr>u_FailedLogins := u_FailedLogins u + 1,
        u_LockedUntil := (if u_FailedLogins u + 1 \<ge> threshold then Some (now + lockFor) else u_LockedUntil u)\<rparr>)"

definition Users_SetPassword :: "uuid \<Rightarrow> string \<Rightarrow> ('h, unit) dbprog" where
  "Users_SetPassword uid hash = update_users (\<lambda>u. u_ID u = uid)
     (\<lambda>now u. u\<lparr>u_PasswordHash := hash, u_MustChangePW := False\<rparr>)"

definition SetTOTP :: "uuid \<Rightarrow> string \<Rightarrow> bool \<Rightarrow> string list \<Rightarrow> ('h, unit) dbprog" where
  "SetTOTP uid secret enrolled codes = update_users (\<lambda>u. u_ID u = uid)
     (\<lambda>now u. u\<lparr>u_TOTPSecret := secret, u_TOTPEnrolled := enrolled, u_RecoveryCodes := codes\<rparr>)"

definition SetActive :: "uuid \<Rightarrow> uuid \<Rightarrow> bool \<Rightarrow> ('h, unit) dbprog" where
  "SetActive tenantID uid active = update_users (\<lambda>u. u_TenantID u = tenantID \<and> u_ID u = uid)
     (\<lambda>now u. u\<lparr>u_Active := active\<rparr>)"

definition UpdateProfile ::
  "uuid \<Rightarrow> uuid \<Rightarrow> string \<Rightarrow> string \<Rightarrow> bool \<Rightarrow> bool \<Rightarrow> bool \<Rightarrow> ('h, unit) dbprog" where
  "UpdateProfile tenantID uid email displayName active mustChange unlock =
     (let hit = (\<lambda>u. u_TenantID u = tenantID \<and> u_ID u = uid) in
     exec_affecting (\<lambda>w. list_ex hit (w_users w)) ErrNotFound
       (\<lambda>w. w\<lparr>w_users := upd_where hit (\<lambda>u. u\<lparr>u_Email := email, u_DisplayName := displayName, u_Active := active,
          u_MustChangePW := mustChange, u_FailedLogins := (if unlock then 0 else u_FailedLogins u),
          u_LockedUntil := (if unlock then None else u_LockedUntil u)\<rparr>) (w_users w)\<rparr>))"

text \<open>Sessions, role bindings, overrides, scopes and tokens go with the account; references that may be
  null are cleared.\<close>

definition forget_user :: "uuid \<Rightarrow> uuid option \<Rightarrow> uuid option" where
  "forget_user uid o1 = (if o1 = Some uid then None else o1)"

definition cascade_user :: "uuid \<Rightarrow> 'h world \<Rightarrow> 'h world" where
  "cascade_user uid w = w\<lparr>
     w_userRoles := filter (\<lambda>x. fst x \<noteq> uid) (w_userRoles w),
     w_overrides := filter (\<lambda>x. fst x \<noteq> uid) (w_overrides w),
     w_userScopes := filter (\<lambda>x. fst x \<noteq> uid) (w_userScopes w),
     w_sessions := filter (\<lambda>x. ss_UserID x \<noteq> uid) (w_sessions w),
     w_tokens := map (\<lambda>t. t\<lparr>tk_CreatedBy := forget_user uid (tk_CreatedBy t)\<rparr>)
       (filter (\<lambda>t. tk_UserID t \<noteq> Some uid) (w_tokens w)),
     w_keys := map (\<lambda>k. k\<lparr>k_OwnerID := forget_user uid (k_OwnerID k)\<rparr>) (w_keys w),
     w_policies := map (\<lambda>p. p\<lparr>pol_CreatedBy := forget_user uid (pol_CreatedBy p)\<rparr>) (w_policies w),
     w_rotations := map (\<lambda>r. r\<lparr>r_ApprovedBy := forget_user uid (r_ApprovedBy r),
       r_CreatedBy := forget_user uid (r_CreatedBy r)\<rparr>) (w_rotations w),
     w_jobs := map (\<lambda>j. j\<lparr>j_CreatedBy := forget_user uid (j_CreatedBy j)\<rparr>) (w_jobs w)\<rparr>"

definition Users_Delete :: "uuid \<Rightarrow> uuid \<Rightarrow> ('h, unit) dbprog" where
  "Users_Delete tenantID uid =
     (let hit = (\<lambda>u. u_TenantID u = tenantID \<and> u_ID u = uid) in
     exec_affecting (\<lambda>w. list_ex hit (w_users w)) ErrNotFound
       (\<lambda>w. (cascade_user uid w)\<lparr>w_users := filter (\<lambda>u. \<not> hit u) (w_users w)\<rparr>))"

section \<open>Roles (users.go)\<close>

definition seed_role :: "uuid \<Rightarrow> system_role \<Rightarrow> ('h, unit) dbprog" where
  "seed_role tenantID role = andThen uuid_New (\<lambda>rid. stmt (modify (\<lambda>w.
     let hit = (\<lambda>r. ro_TenantID r = tenantID \<and> ro_Name r = sr_Name role);
         perms = PermissionStrings (sr_Permissions role) in
     w\<lparr>w_roles := (if list_ex hit (w_roles w)
        then upd_where hit (\<lambda>r. r\<lparr>ro_Permissions := perms\<rparr>) (w_roles w)
        else w_roles w @ [\<lparr>ro_ID = rid, ro_TenantID = tenantID, ro_Name = sr_Name role, ro_IsSystem = True,
               ro_Permissions = perms\<rparr>])\<rparr>)))"

definition EnsureSystemRoles :: "uuid \<Rightarrow> ('h, unit) dbprog" where
  "EnsureSystemRoles tenantID = forEach SystemRoles (seed_role tenantID)"

definition GetRoleByName :: "uuid \<Rightarrow> string \<Rightarrow> ('h, role_row) dbprog" where
  "GetRoleByName tenantID name = select_one w_roles (\<lambda>r. ro_TenantID r = tenantID \<and> ro_Name r = name)"

definition ListRoles :: "uuid \<Rightarrow> ('h, role_row list) dbprog" where
  "ListRoles tenantID = stmt (get (\<lambda>w. sort_key ro_Name (filter (\<lambda>r. ro_TenantID r = tenantID) (w_roles w))))"

definition GrantRole :: "uuid \<Rightarrow> uuid \<Rightarrow> ('h, unit) dbprog" where
  "GrantRole uid rid = stmt (\<lambda>w.
     if (uid, rid) \<in> set (w_userRoles w) then (Inr (), w)
     else if list_ex (\<lambda>u. u_ID u = uid) (w_users w) \<and> list_ex (\<lambda>r. ro_ID r = rid) (w_roles w)
     then (Inr (), w\<lparr>w_userRoles := w_userRoles w @ [(uid, rid)]\<rparr>)
     else (Inl (ErrOther ''store: granting role''), w))"

definition RevokeRole :: "uuid \<Rightarrow> uuid \<Rightarrow> ('h, unit) dbprog" where
  "RevokeRole uid rid = stmt (modify (\<lambda>w.
     w\<lparr>w_userRoles := filter (\<lambda>x. x \<noteq> (uid, rid)) (w_userRoles w)\<rparr>))"

definition RoleNamesFor :: "uuid \<Rightarrow> ('h, string list) dbprog" where
  "RoleNamesFor uid = stmt (get (\<lambda>w. sort (map ro_Name (roles_of w uid))))"

section \<open>API tokens (tokens.go)\<close>

definition Token_Active :: "gtime \<Rightarrow> token_row \<Rightarrow> bool" where
  "Token_Active now t \<longleftrightarrow> tk_RevokedAt t = None \<and> (case tk_ExpiresAt t of None \<Rightarrow> True | Some e \<Rightarrow> now < e)"

definition Token_Status :: "gtime \<Rightarrow> token_row \<Rightarrow> string" where
  "Token_Status now t = (if tk_RevokedAt t \<noteq> None then ''revoked''
     else if (case tk_ExpiresAt t of None \<Rightarrow> False | Some e \<Rightarrow> \<not> now < e) then ''expired'' else ''active'')"

definition Tokens_Create :: "token_row \<Rightarrow> string \<Rightarrow> ('h, token_row) dbprog" where
  "Tokens_Create t0 hash = andThen uuid_New (\<lambda>tid. stmt (\<lambda>w.
     let t = t0\<lparr>tk_ID := tid, tk_Hash := hash, tk_LastUsedAt := None, tk_RevokedAt := None, tk_CreatedAt := w_now w\<rparr> in
     if list_ex (\<lambda>x. tk_Hash x = hash) (w_tokens w) then (Inl ErrConflict, w)
     else if (case tk_UserID t of None \<Rightarrow> True | Some u \<Rightarrow> list_ex (\<lambda>x. u_ID x = u) (w_users w))
     then (Inr t, w\<lparr>w_tokens := w_tokens w @ [t]\<rparr>)
     else (Inl (ErrOther ''store: creating api token''), w)))"

definition Tokens_ByHash :: "string \<Rightarrow> ('h, token_row) dbprog" where
  "Tokens_ByHash hash = select_one w_tokens (\<lambda>t. tk_Hash t = hash)"

definition Tokens_List :: "uuid \<Rightarrow> uuid option \<Rightarrow> ('h, token_row list) dbprog" where
  "Tokens_List tenantID uid = stmt (get (\<lambda>w. sort_key (\<lambda>t. - tk_CreatedAt t)
     (filter (\<lambda>t. tk_TenantID t = tenantID \<and> (case uid of None \<Rightarrow> True | Some u \<Rightarrow> tk_UserID t = Some u)) (w_tokens w))))"

definition Tokens_Get :: "uuid \<Rightarrow> uuid \<Rightarrow> ('h, token_row) dbprog" where
  "Tokens_Get tenantID tid = select_one w_tokens (\<lambda>t. tk_TenantID t = tenantID \<and> tk_ID t = tid)"

definition Tokens_Revoke :: "uuid \<Rightarrow> uuid \<Rightarrow> ('h, unit) dbprog" where
  "Tokens_Revoke tenantID tid =
     (let hit = (\<lambda>t. tk_TenantID t = tenantID \<and> tk_ID t = tid \<and> tk_RevokedAt t = None) in
     exec_affecting (\<lambda>w. list_ex hit (w_tokens w)) ErrNotFound
       (\<lambda>w. w\<lparr>w_tokens := upd_where hit (\<lambda>t. t\<lparr>tk_RevokedAt := Some (w_now w)\<rparr>) (w_tokens w)\<rparr>))"

definition Tokens_Delete :: "uuid \<Rightarrow> uuid \<Rightarrow> ('h, unit) dbprog" where
  "Tokens_Delete tenantID tid =
     (let hit = (\<lambda>t. tk_TenantID t = tenantID \<and> tk_ID t = tid) in
     exec_affecting (\<lambda>w. list_ex hit (w_tokens w)) ErrNotFound
       (\<lambda>w. w\<lparr>w_tokens := filter (\<lambda>t. \<not> hit t) (w_tokens w)\<rparr>))"

definition TouchUsed :: "uuid \<Rightarrow> ('h, unit) dbprog" where
  "TouchUsed tid = stmt (modify (\<lambda>w. w\<lparr>w_tokens := upd_where
     (\<lambda>t. tk_ID t = tid \<and> (case tk_LastUsedAt t of None \<Rightarrow> True | Some u \<Rightarrow> u < w_now w - Minute))
     (\<lambda>t. t\<lparr>tk_LastUsedAt := Some (w_now w)\<rparr>) (w_tokens w)\<rparr>))"

section \<open>Lemmas\<close>

lemma roles_of_faults [simp]: "roles_of (w\<lparr>w_faults := fs\<rparr>) uid = roles_of w uid"
  by (simp add: roles_of_def)

end
