(* ===== verification/Totp.thy ===== *)
theory Totp
  imports Base64 Cronx
begin

text \<open>
  Time-based one-time passwords and recovery codes (\<open>internal/auth/totp.go\<close>).  HMAC-SHA1 and the random
  source are the fields of \<open>auth_lib\<close>, with what the other parts of the sign-in code use; base32
  without padding is written out over bits.
\<close>

section \<open>The library of the sign-in code\<close>

text \<open>\<open>ac_rand i n\<close>: the \<open>i\<close>-th reading of \<open>n\<close> random bytes.  \<open>ac_argon2\<close> takes password, salt, time, memory, threads
  and length; \<open>ac_inet\<close> says which texts an INET column accepts.\<close>

record auth_lib =
  ac_hmac_sha1 :: "string \<Rightarrow> string \<Rightarrow> string"
  ac_sha256 :: "string \<Rightarrow> string"
  ac_argon2 :: "string \<Rightarrow> string \<Rightarrow> nat \<Rightarrow> nat \<Rightarrow> nat \<Rightarrow> nat \<Rightarrow> string"
  ac_rand :: "nat \<Rightarrow> nat \<Rightarrow> string option"
  ac_inet :: "string \<Rightarrow> bool"
  ac_ParseDuration :: "string \<Rightarrow> duration option"
  ac_uuid_Parse :: "string \<Rightarrow> uuid option"

section \<open>Base32 without padding\<close>

definition b32_alphabet :: string where
  "b32_alphabet = ''ABCDEFGHIJKLMNOPQRSTUVWXYZ234567''"

definition b32_val :: "char \<Rightarrow> nat option" where
  "b32_val c = map_of (zip b32_alphabet [0..<32]) c"

fun num_of :: "bool list \<Rightarrow> nat" where
  "num_of [] = 0"
| "num_of (b # bs) = (if b then 2 ^ length bs else 0) + num_of bs"

fun bits_of :: "nat \<Rightarrow> nat \<Rightarrow> bool list" where
  "bits_of 0 n = []"
| "bits_of (Suc w) n = (n div 2 ^ w mod 2 = 1) # bits_of w n"

function chunks :: "nat \<Rightarrow> 'a list \<Rightarrow> 'a list list" where
  "chunks n xs = (if xs = [] \<or> n = 0 then [] else take n xs # chunks n (drop n xs))"
  by pat_completeness auto
termination by (relation "measure (\<lambda>(n, xs). length xs)") auto

declare chunks.simps [simp del]

definition b32_encode :: "string \<Rightarrow> string" where
  "b32_encode s = map (\<lambda>g. b32_alphabet ! num_of (g @ replicate (5 - length g) False))
     (chunks 5 (concat (map (\<lambda>c. bits_of 8 (byte c)) s)))"

text \<open>Bytes in a group of so many characters; a group of 1, 3 or 6 is dropped without an error.\<close>

definition group_bytes :: "nat \<Rightarrow> nat" where
  "group_bytes r = (if r = 8 then 5 else if r = 7 then 4 else if r = 5 then 3 else if r = 4 then 2 else if r = 2 then 1 else 0)"

definition b32_group :: "nat list \<Rightarrow> string" where
  "b32_group vs = map (\<lambda>g. char_of (num_of g))
     (chunks 8 (take (8 * group_bytes (length vs)) (concat (map (bits_of 5) vs))))"

definition b32_decode :: "string \<Rightarrow> string option" where
  "b32_decode s = (let s' = filter (\<lambda>c. c \<noteq> CR \<and> c \<noteq> LF) s in
     case those (map b32_val s') of None \<Rightarrow> None | Some vs \<Rightarrow> Some (concat (map b32_group (chunks 8 vs))))"

text \<open>\<open>strings.ToUpper\<close> as far as its result is compared with ASCII text.\<close>

definition upper_char :: "char \<Rightarrow> char" where
  "upper_char c = (case map_of (zip ''abcdefghijklmnopqrstuvwxyz'' ''ABCDEFGHIJKLMNOPQRSTUVWXYZ'') c of
       Some d \<Rightarrow> d | None \<Rightarrow> c)"

fun to_upper :: "string \<Rightarrow> string" where
  "to_upper (a # b # s) =
     (if [a, b] = [CHR 0xC4, CHR 0xB1] then CHR ''I'' # to_upper s
      else if [a, b] = [CHR 0xC5, CHR 0xBF] then CHR ''S'' # to_upper s
      else upper_char a # to_upper (b # s))"
| "to_upper [a] = [upper_char a]"
| "to_upper [] = []"

section \<open>One-time passwords (totp.go)\<close>

definition totpDigits :: nat where "totpDigits = 6"
definition totpPeriod :: duration where "totpPeriod = 30 * Second"
definition totpSkew :: nat where "totpSkew = 1"

definition GenerateTOTPSecret :: "auth_lib \<Rightarrow> nat \<Rightarrow> string result" where
  "GenerateTOTPSecret A i = (case ac_rand A i 20 of
       None \<Rightarrow> Inl (ErrOther ''auth: generating TOTP secret'') | Some buf \<Rightarrow> Inr (b32_encode buf))"

text \<open>\<open>url.PathEscape\<close> and \<open>url.QueryEscape\<close>: unreserved characters stay, a path segment also keeps
  \<open>$&+=:@\<close>, and a query writes a space as \<open>+\<close>.\<close>

definition unreserved :: "char \<Rightarrow> bool" where
  "unreserved c \<longleftrightarrow> c \<in> set ''ABCDEFGHIJKLMNOPQRSTUVWXYZabcdefghijklmnopqrstuvwxyz0123456789-_.~''"

definition percent :: "char \<Rightarrow> string" where
  "percent c = [CHR ''%'', ''0123456789ABCDEF'' ! (byte c div 16), ''0123456789ABCDEF'' ! (byte c mod 16)]"

definition PathEscape :: "string \<Rightarrow> string" where
  "PathEscape s = concat (map (\<lambda>c. if unreserved c \<or> c \<in> set ''$&+=:@'' then [c] else percent c) s)"

definition QueryEscape :: "string \<Rightarrow> string" where
  "QueryEscape s = concat (map (\<lambda>c. if c = CHR '' '' then ''+'' else if unreserved c then [c] else percent c) s)"

definition TOTPURI :: "string \<Rightarrow> string \<Rightarrow> string \<Rightarrow> string" where
  "TOTPURI issuer account secret = ''otpauth://totp/'' @ PathEscape (issuer @ '':'' @ account)
     @ ''?algorithm=SHA1&digits='' @ show_nat totpDigits @ ''&issuer='' @ QueryEscape issuer
     @ ''&period='' @ show_nat (nat (totpPeriod div Second)) @ ''&secret='' @ QueryEscape secret"

text \<open>\<open>binary.BigEndian\<close>: eight bytes of a counter, and four bytes as a number.\<close>

definition be64 :: "64 word \<Rightarrow> string" where
  "be64 c = map (\<lambda>i. char_of (unat (drop_bit (8 * (7 - i)) c) mod 256)) [0..<8]"

definition be32 :: "string \<Rightarrow> nat" where
  "be32 s = foldl (\<lambda>acc c. 256 * acc + byte c) 0 s"

definition hotp_value :: "string \<Rightarrow> nat" where
  "hotp_value mac = (let offset = byte (last mac) mod 16 in be32 (take 4 (drop offset mac)) mod 2 ^ 31)"

definition hotp :: "auth_lib \<Rightarrow> string \<Rightarrow> 64 word \<Rightarrow> string" where
  "hotp A key counter = pad totpDigits (hotp_value (ac_hmac_sha1 A key (be64 counter)) mod 10 ^ totpDigits)"

definition totp_key :: "string \<Rightarrow> string option" where
  "totp_key secret = b32_decode (to_upper (trim_space secret))"

text \<open>\<open>uint64(t.Unix())\<close> divided by the period in seconds.\<close>

definition totp_counter :: "gtime \<Rightarrow> 64 word" where
  "totp_counter t = word_of_int (t div Second) div 30"

definition TOTPCode :: "auth_lib \<Rightarrow> string \<Rightarrow> gtime \<Rightarrow> string result" where
  "TOTPCode A secret t = (case totp_key secret of
       None \<Rightarrow> Inl (ErrOther ''auth: decoding TOTP secret'') | Some key \<Rightarrow> Inr (hotp A key (totp_counter t)))"

definition VerifyTOTP :: "auth_lib \<Rightarrow> string \<Rightarrow> string \<Rightarrow> gtime \<Rightarrow> bool" where
  "VerifyTOTP A secret submitted now = (let code = trim_space submitted in
     if length code \<noteq> totpDigits then False
     else case totp_key secret of None \<Rightarrow> False
     | Some key \<Rightarrow> list_ex (\<lambda>delta. hotp A key (totp_counter now + word_of_int delta) = code)
         [- int totpSkew, 0, int totpSkew])"

section \<open>Recovery codes (totp.go)\<close>

definition recovery_alphabet :: string where
  "recovery_alphabet = ''abcdefghjkmnpqrstuvwxyz23456789''"

definition recovery_code :: "string \<Rightarrow> string" where
  "recovery_code buf = (let cs = map (\<lambda>v. recovery_alphabet ! (byte v mod length recovery_alphabet)) buf in
     take 5 cs @ (if length cs > 5 then ''-'' else []) @ drop 5 cs)"

fun GenerateRecoveryCodes :: "auth_lib \<Rightarrow> nat \<Rightarrow> nat \<Rightarrow> string list result" where
  "GenerateRecoveryCodes A i 0 = Inr []"
| "GenerateRecoveryCodes A i (Suc n) = (case ac_rand A i 10 of
       None \<Rightarrow> Inl (ErrOther ''auth: generating recovery code'')
     | Some buf \<Rightarrow> bindR (GenerateRecoveryCodes A (Suc i) n) (\<lambda>codes. Inr (recovery_code buf # codes)))"

section \<open>Lemmas\<close>

lemma bits_of_num: "length bs = w \<Longrightarrow> bits_of w (num_of bs) = bs"
proof -
  have lt: "num_of bs < 2 ^ length bs" for bs by (induction bs) auto
  have low: "bits_of w (2 ^ w * m + n) = bits_of w n" for w m n
  proof (induction w arbitrary: m n)
    case (Suc w)
    have e: "2 ^ Suc w * m + n = 2 ^ w * (2 * m) + n" by simp
    have "(2 ^ w * (2 * m) + n) div 2 ^ w = 2 * m + n div 2 ^ w" by simp
    then show ?case unfolding e bits_of.simps Suc.IH [of "2 * m" n] by simp
  qed simp
  show "length bs = w \<Longrightarrow> bits_of w (num_of bs) = bs"
  proof (induction bs arbitrary: w)
    case (Cons b bs)
    moreover have "(2 ^ length bs + num_of bs) div 2 ^ length bs = 1" "num_of bs div 2 ^ length bs = 0"
      using lt [of bs] by (simp_all add: div_add_self1)
    ultimately show ?case using low [of "length bs" 1 "num_of bs"] by (cases w) auto
  qed simp
qed

lemma num_of_bits: "n < 2 ^ w \<Longrightarrow> num_of (bits_of w n) = n"
proof -
  have len: "length (bits_of w n) = w" for w n by (induction w) auto
  have "num_of (bits_of w n) = n mod 2 ^ w" for w n
  proof (induction w)
    case (Suc w)
    have "n mod 2 ^ Suc w = 2 ^ w * (n div 2 ^ w mod 2) + n mod 2 ^ w"
      by (metis mod_mult2_eq power_Suc2 mult.commute)
    moreover have "n div 2 ^ w mod 2 = 1 \<or> n div 2 ^ w mod 2 = 0" by auto
    ultimately show ?case using Suc by (auto simp: len)
  qed simp
  then show "n < 2 ^ w \<Longrightarrow> num_of (bits_of w n) = n" by simp
qed

lemma length_bits_of [simp]: "length (bits_of w n) = w"
  by (induction w) auto

lemma num_of_less: "num_of bs < 2 ^ length bs"
  by (induction bs) auto

lemma chunks_Nil [simp]: "chunks n [] = []"
  by (simp add: chunks.simps)

lemma chunks_append: "length xs = n \<Longrightarrow> 0 < n \<Longrightarrow> chunks n (xs @ ys) = xs # chunks n ys"
  by (auto simp: chunks.simps [of n "xs @ ys"])

lemma chunks_concat: "(\<And>g. g \<in> set gs \<Longrightarrow> length g = n) \<Longrightarrow> 0 < n \<Longrightarrow> chunks n (concat gs) = gs"
proof (induction gs)
  case (Cons g gs)
  then show ?case by (simp add: chunks_append)
qed simp

lemma chunks_full: "n dvd length xs \<Longrightarrow> 0 < n \<Longrightarrow> concat (chunks n xs) = xs \<and> (\<forall>g\<in>set (chunks n xs). length g = n)"
proof (induction n xs rule: chunks.induct)
  case (1 n xs)
  show ?case
  proof (cases "xs = []")
    case False
    then have "n \<le> length xs" using 1(2) by (auto dest: dvd_imp_le)
    have e: "chunks n xs = take n xs # chunks n (drop n xs)"
      using False 1(3) by (subst chunks.simps) simp
    have IH: "concat (chunks n (drop n xs)) = drop n xs \<and> (\<forall>g\<in>set (chunks n (drop n xs)). length g = n)"
    proof (rule 1(1))
      show "\<not> (xs = [] \<or> n = 0)" "0 < n" using False 1(3) by simp_all
      show "n dvd length (drop n xs)" using dvd_diff_nat [OF 1(2) dvd_refl] by simp
    qed
    have "concat (chunks n xs) = xs" unfolding e concat.simps conjunct1 [OF IH] by (rule append_take_drop_id)
    moreover have "length g = n" if "g \<in> set (chunks n xs)" for g
    proof -
      from that have "g = take n xs \<or> g \<in> set (chunks n (drop n xs))" unfolding e list.set by blast
      moreover have "length (take n xs) = n" using \<open>n \<le> length xs\<close> by simp
      ultimately show ?thesis using conjunct2 [OF IH] by blast
    qed
    ultimately show ?thesis by blast
  qed simp
qed

lemma b32_val_nth: "n < 32 \<Longrightarrow> b32_val (b32_alphabet ! n) = Some n"
proof -
  assume "n < 32"
  moreover have "distinct b32_alphabet" by code_simp
  moreover have "length b32_alphabet = 32" by code_simp
  ultimately show ?thesis unfolding b32_val_def by (simp add: map_of_zip_nth)
qed

lemma b32_nth_plain: "n < 32 \<Longrightarrow> b32_alphabet ! n \<notin> {CR, LF}"
proof -
  assume "n < 32"
  then have "b32_alphabet ! n \<in> set b32_alphabet" by (intro nth_mem) (simp add: b32_alphabet_def)
  moreover have "list_all (\<lambda>c. c \<noteq> CR \<and> c \<noteq> LF) b32_alphabet" by code_simp
  ultimately show ?thesis by (auto simp: list_all_iff)
qed


lemma length_concat_eq: "(\<And>x. x \<in> set xs \<Longrightarrow> length (f x) = m) \<Longrightarrow> length (concat (map f xs)) = m * length xs"
  by (induction xs) auto

text \<open>A secret of whole groups reads back as itself.\<close>

lemma b32_decode_encode:
  assumes "5 dvd length s"
  shows "b32_decode (b32_encode s) = Some s"
proof -
  define B where "B = concat (map (\<lambda>c. bits_of 8 (byte c)) s)"
  have lenB: "length B = 8 * length s" unfolding B_def by (rule length_concat_eq) simp
  have full: "concat (chunks 5 B) = B" "\<forall>g\<in>set (chunks 5 B). length g = 5"
    using chunks_full [of 5 B] assms by (simp_all add: lenB)
  define V where "V = map num_of (chunks 5 B)"
  have V: "v < 32" if "v \<in> set V" for v
  proof -
    from that obtain g where "g \<in> set (chunks 5 B)" "v = num_of g" by (auto simp: V_def)
    with full(2) num_of_less [of g] show ?thesis by simp
  qed
  have enc: "b32_encode s = map ((!) b32_alphabet) V"
    unfolding b32_encode_def V_def map_map B_def [symmetric] using full(2) by (auto intro!: map_cong)
  have dec: "those (map b32_val (filter (\<lambda>c. c \<noteq> CR \<and> c \<noteq> LF) (map ((!) b32_alphabet) V))) = Some V"
    using V by (induction V) (use b32_nth_plain in \<open>auto simp: b32_val_nth\<close>)
  have bits: "concat (map (bits_of 5) V) = B"
  proof -
    have "map (bits_of 5) V = chunks 5 B"
      unfolding V_def map_map using full(2) by (auto intro!: map_idI simp: bits_of_num)
    then show ?thesis by (simp add: full(1))
  qed
  have lenV: "length V * 5 = 8 * length s"
    using lenB length_concat_eq [of V "bits_of 5" 5] bits by simp
  have groups: "concat (map b32_group (chunks 8 vs)) = map (\<lambda>g. char_of (num_of g)) (chunks 8 (concat (map (bits_of 5) vs)))"
    if "8 dvd length vs" for vs
    using that
  proof (induction "length vs" arbitrary: vs rule: less_induct)
    case less
    show ?case
    proof (cases "vs = []")
      case False
      define x y where "x = take 8 vs" and "y = drop 8 vs"
      have "8 \<le> length vs" using False less(2) by (auto dest: dvd_imp_le)
      then have vs: "vs = x @ y" "length x = 8" "length y < length vs" by (simp_all add: x_def y_def)
      have "8 dvd length y" using dvd_diff_nat [OF less(2) dvd_refl] by (simp add: y_def)
      note IH = less(1) [OF vs(3) this]
      let ?X = "concat (map (bits_of 5) x)"
      have X: "length ?X = 40" using length_concat_eq [of x "bits_of 5" 5] vs(2) by simp
      have X5: "chunks 8 (?X @ ys) = chunks 8 ?X @ chunks 8 ys" for ys
      proof -
        have "concat (chunks 8 ?X) = ?X" "\<forall>g\<in>set (chunks 8 ?X). length g = 8"
          using chunks_full [of 8 ?X] X by simp_all
        moreover have "chunks 8 (concat gs @ ys) = gs @ chunks 8 ys" if "\<forall>g\<in>set gs. length g = 8" for gs
          using that by (induction gs) (simp_all add: chunks_append)
        ultimately show ?thesis by metis
      qed
      have "b32_group x = map (\<lambda>g. char_of (num_of g)) (chunks 8 ?X)"
        using X by (simp add: b32_group_def group_bytes_def vs(2))
      then show ?thesis unfolding vs(1) by (simp add: chunks_append [OF vs(2)] IH X5)
    qed simp
  qed
  have "8 dvd length V"
  proof -
    obtain k where "length s = 5 * k" using assms by blast
    with lenV have "length V = 8 * k" by simp
    then show ?thesis by simp
  qed
  moreover have "chunks 8 B = map (\<lambda>c. bits_of 8 (byte c)) s"
    unfolding B_def by (rule chunks_concat) auto
  moreover have "num_of (bits_of 8 (byte c)) = byte c" for c
    by (rule num_of_bits) simp
  ultimately have "concat (map b32_group (chunks 8 V)) = s"
    using groups [of V] by (simp add: bits comp_def)
  then show ?thesis by (simp add: b32_decode_def enc dec Let_def)
qed

lemma show_nat_length: "n < 10 ^ k \<Longrightarrow> 0 < k \<Longrightarrow> length (show_nat n) \<le> k"
proof (induction n arbitrary: k rule: show_nat.induct)
  case (1 n)
  show ?case
  proof (cases "n < 10")
    case False
    then have "1 < k" using 1(2,3) by (cases k; cases "k - 1") auto
    moreover from this have "n div 10 < 10 ^ (k - 1)" using 1(2) by (cases k) (auto simp: less_mult_imp_div_less mult.commute)
    ultimately have "length (show_nat (n div 10)) \<le> k - 1" using 1(1) [OF False, of "k - 1"] by simp
    with False \<open>1 < k\<close> show ?thesis by (simp add: show_nat.simps [of n])
  qed (use 1(3) in \<open>simp add: show_nat.simps [of n]\<close>)
qed

lemma show_nat_digits: "set (show_nat n) \<subseteq> set ''0123456789''"
proof (induction n rule: show_nat.induct)
  case (1 n)
  have "''0123456789'' ! (m mod 10) \<in> set ''0123456789''" for m by (rule nth_mem) simp
  moreover have "n < 10 \<Longrightarrow> ''0123456789'' ! n \<in> set ''0123456789''" by (rule nth_mem) simp
  ultimately show ?case using 1 by (subst show_nat.simps) auto
qed


lemma totp_counter_int:
  assumes "0 \<le> t" and "t < 2 ^ 64 * Second"
  shows "totp_counter t = word_of_int (t div Second div 30)"
proof -
  let ?s = "t div Second"
  have s: "0 \<le> ?s" "?s < 2 ^ 64" using assms by simp_all
  then have "uint (word_of_int ?s :: 64 word) = ?s" by (simp add: uint_word_of_int)
  then have "uint (word_of_int ?s div 30 :: 64 word) = ?s div 30" by (simp add: uint_div)
  then show ?thesis unfolding totp_counter_def by (metis word_of_int_uint)
qed

section \<open>Properties\<close>

text \<open>C32. A verification accepts exactly the codes of three time steps, the current one and its two neighbours:
  the submitted text, trimmed, must be six characters long and equal to what \<open>TOTPCode\<close> computes 30 seconds ago, now
  or in 30 seconds.\<close>

theorem verify_accepts_three_steps:
  assumes "totpPeriod \<le> now" and "now + totpPeriod < 2 ^ 64 * Second"
  shows "VerifyTOTP A secret code now \<longleftrightarrow> length (trim_space code) = 6
     \<and> (TOTPCode A secret (now - totpPeriod) = Inr (trim_space code) \<or> TOTPCode A secret now = Inr (trim_space code)
        \<or> TOTPCode A secret (now + totpPeriod) = Inr (trim_space code))"
proof -
  let ?c = "now div Second div 30"
  have step: "(now - totpPeriod) div Second div 30 = ?c - 1" "(now + totpPeriod) div Second div 30 = ?c + 1"
    using div_mult_self1 [of "Second" now "- 30"] div_mult_self1 [of "Second" now 30]
      div_mult_self1 [of "30::int" "now div Second" "- 1"] div_mult_self1 [of "30::int" "now div Second" 1]
    by (simp_all add: totpPeriod_def add.commute)
  have r: "0 \<le> now - totpPeriod" "0 \<le> now" "0 \<le> now + totpPeriod" "now - totpPeriod < 2 ^ 64 * Second" "now < 2 ^ 64 * Second"
    using assms by (simp_all add: totpPeriod_def)
  have c: "totp_counter (now - totpPeriod) = totp_counter now + word_of_int (- 1)"
    "totp_counter (now + totpPeriod) = totp_counter now + word_of_int 1"
    unfolding totp_counter_int [OF r(1,4)] totp_counter_int [OF r(2,5)] totp_counter_int [OF r(3) assms(2)] step
    by (simp_all add: wi_hom_syms)
  show ?thesis
    by (auto simp: VerifyTOTP_def TOTPCode_def totpDigits_def totpSkew_def c Let_def split: option.split)
qed

text \<open>A one-time password is always six digits, and the dynamic truncation never reads past the HMAC:
  for a 20-byte digest the four bytes at the chosen offset exist.  A recovery code made of ten random bytes is
  two groups of five with a dash, eleven characters in all.\<close>

theorem code_shapes:
  assumes "length (ac_hmac_sha1 A key (be64 counter)) = 20" and "length buf = 10"
  shows "length (hotp A key counter) = 6 \<and> set (hotp A key counter) \<subseteq> set ''0123456789''
     \<and> byte (last (ac_hmac_sha1 A key (be64 counter))) mod 16 + 4 \<le> length (ac_hmac_sha1 A key (be64 counter))
     \<and> length (recovery_code buf) = 11 \<and> recovery_code buf ! 5 = CHR ''-''"
proof -
  let ?n = "hotp_value (ac_hmac_sha1 A key (be64 counter)) mod 10 ^ 6"
  have "length (show_nat ?n) \<le> 6" by (rule show_nat_length) simp_all
  moreover have "byte (last (ac_hmac_sha1 A key (be64 counter))) mod 16 + 4 \<le> 20"
    using mod_less_divisor [of 16 "byte (last (ac_hmac_sha1 A key (be64 counter)))"] by simp
  ultimately show ?thesis
    using show_nat_digits [of ?n] assms
    by (auto simp: hotp_def pad_def totpDigits_def Let_def recovery_code_def nth_append)
qed

definition toy_auth :: auth_lib where
  "toy_auth = \<lparr>ac_hmac_sha1 = (\<lambda>k m. rev m @ ''abcdefghijkl''), ac_sha256 = (\<lambda>s. take 32 (s @ replicate 32 (CHR ''0''))),
     ac_argon2 = (\<lambda>pw salt t m p n. take n (pw @ salt @ replicate n (CHR ''0''))),
     ac_rand = (\<lambda>i n. Some (replicate n (char_of (97 + i mod 26)))), ac_inet = (\<lambda>s. s \<noteq> ''unknown''),
     ac_ParseDuration = (\<lambda>s. None), ac_uuid_Parse = (\<lambda>s. None)\<rparr>"

theorem verify_accepts_three_steps_witness:
  "VerifyTOTP toy_auth ''AAAAAAAA'' ''246151'' (60 * Second) \<longleftrightarrow> length (trim_space ''246151'') = 6
     \<and> (TOTPCode toy_auth ''AAAAAAAA'' (60 * Second - totpPeriod) = Inr (trim_space ''246151'')
        \<or> TOTPCode toy_auth ''AAAAAAAA'' (60 * Second) = Inr (trim_space ''246151'')
        \<or> TOTPCode toy_auth ''AAAAAAAA'' (60 * Second + totpPeriod) = Inr (trim_space ''246151''))"
  by (rule verify_accepts_three_steps) (simp_all add: totpPeriod_def)

theorem code_shapes_witness: "length (hotp toy_auth ''k'' 7) = 6 \<and> recovery_code (replicate 10 (CHR ''a'')) ! 5 = CHR ''-''"
proof -
  have "length (ac_hmac_sha1 toy_auth ''k'' (be64 7)) = 20" by (simp add: toy_auth_def be64_def)
  from code_shapes [OF this, of "replicate 10 (CHR ''a'')"] show ?thesis by simp
qed

end
