(* ===== verification/Password.thy ===== *)
theory Password
  imports Totp
begin

text \<open>
  Password hashing (\<open>internal/auth/password.go\<close>): Argon2id digests, a parameter of the model, in the PHC
  string format.  The cost parameters keep their machine width.  \<open>fmt.Sscanf\<close> is modelled for the two
  formats used, on ASCII text; a cost of zero makes the Argon2 package panic.
\<close>

section \<open>Definitions\<close>

record params =
  pm_Time :: "32 word"
  pm_Memory :: "32 word"
  pm_Threads :: "8 word"

definition argonKeyLen :: nat where "argonKeyLen = 32"
definition saltLen :: nat where "saltLen = 16"
definition argon2_Version :: nat where "argon2_Version = 19"

definition DefaultParams :: params where
  "DefaultParams = \<lparr>pm_Time = 3, pm_Memory = 65536, pm_Threads = 4\<rparr>"

definition IDKey :: "auth_lib \<Rightarrow> string \<Rightarrow> string \<Rightarrow> params \<Rightarrow> nat \<Rightarrow> string result" where
  "IDKey A password salt p n =
     (if pm_Time p = 0 \<or> pm_Threads p = 0 then Inl Panic
      else Inr (ac_argon2 A password salt (unat (pm_Time p)) (unat (pm_Memory p)) (unat (pm_Threads p)) n))"

text \<open>\<open>base64.RawStdEncoding\<close>: the padding is left off, and refused on input; line breaks are skipped.\<close>

definition raw_encode :: "string \<Rightarrow> string" where
  "raw_encode s = filter (\<lambda>c. c \<noteq> CHR ''='') (EncodeToString s)"

definition raw_decode :: "string \<Rightarrow> string option" where
  "raw_decode s0 = (let s = filter (\<lambda>c. c \<noteq> CR \<and> c \<noteq> LF) s0; r = length s mod 4 in
     if CHR ''='' \<in> set s \<or> r = 1 then None
     else DecodeString (s @ (if r = 2 then ''=='' else if r = 3 then ''='' else [])))"

definition HashPassword :: "auth_lib \<Rightarrow> nat \<Rightarrow> string \<Rightarrow> params \<Rightarrow> string result" where
  "HashPassword A i password p0 =
     (if password = [] then Inl (ErrOther ''auth: password is empty'') else
      let p = (if pm_Time p0 = 0 \<or> pm_Memory p0 = 0 \<or> pm_Threads p0 = 0 then DefaultParams else p0) in
      case ac_rand A i saltLen of None \<Rightarrow> Inl (ErrOther ''auth: generating salt'')
      | Some salt \<Rightarrow> bindR (IDKey A password salt p argonKeyLen) (\<lambda>digest.
          Inr (''$argon2id$v='' @ show_nat argon2_Version @ ''$m='' @ show_nat (unat (pm_Memory p))
            @ '',t='' @ show_nat (unat (pm_Time p)) @ '',p='' @ show_nat (unat (pm_Threads p))
            @ ''$'' @ raw_encode salt @ ''$'' @ raw_encode digest)))"

text \<open>The literals and verbs of a scan.  \<open>%d\<close> skips blanks; an unsigned number takes no sign and must fit.\<close>

definition scan_lit :: "string \<Rightarrow> string \<Rightarrow> string option" where
  "scan_lit lit s = (if prefix lit s then Some (drop (length lit) s) else None)"

definition is_digit :: "char \<Rightarrow> bool" where
  "is_digit c \<longleftrightarrow> digit_value c \<noteq> None"

definition skip_blanks :: "string \<Rightarrow> string" where
  "skip_blanks s = dropWhile (\<lambda>c. c \<in> set [CHR '' '', CHR 0x09, CHR 0x0B, CHR 0x0C, CHR 0x0D]) s"

definition scan_uint :: "nat \<Rightarrow> string \<Rightarrow> (nat \<times> string) option" where
  "scan_uint bits s0 = (let s = skip_blanks s0; ds = takeWhile is_digit s in
     if ds = [] then None
     else case digits_value 0 ds of None \<Rightarrow> None
        | Some v \<Rightarrow> if v < 2 ^ bits then Some (nat v, dropWhile is_digit s) else None)"

definition scan_int :: "string \<Rightarrow> (int \<times> string) option" where
  "scan_int s0 = (let s = skip_blanks s0;
       (neg, s') = (case s of [] \<Rightarrow> (False, []) | c # cs \<Rightarrow>
          if c = CHR ''-'' then (True, cs) else if c = CHR ''+'' then (False, cs) else (False, s));
       ds = takeWhile is_digit s' in
     if ds = [] then None
     else case digits_value 0 ds of None \<Rightarrow> None
        | Some v \<Rightarrow> (let n = (if neg then - v else v) in
            if - (2 ^ 63) \<le> n \<and> n < 2 ^ 63 then Some (n, dropWhile is_digit s') else None))"

definition ErrInvalidHash :: gerror where
  "ErrInvalidHash = ErrOther ''auth: password hash is malformed''"

definition scan_version :: "string \<Rightarrow> int option" where
  "scan_version s = (case scan_lit ''v='' s of None \<Rightarrow> None | Some r \<Rightarrow> map_option fst (scan_int r))"

definition scan_params :: "string \<Rightarrow> params option" where
  "scan_params s =
     (case scan_lit ''m='' s of None \<Rightarrow> None | Some s1 \<Rightarrow>
      case scan_uint 32 s1 of None \<Rightarrow> None | Some (m, s2) \<Rightarrow>
      case scan_lit '',t='' s2 of None \<Rightarrow> None | Some s3 \<Rightarrow>
      case scan_uint 32 s3 of None \<Rightarrow> None | Some (t, s4) \<Rightarrow>
      case scan_lit '',p='' s4 of None \<Rightarrow> None | Some s5 \<Rightarrow>
      case scan_uint 8 s5 of None \<Rightarrow> None
      | Some (p, _) \<Rightarrow> Some \<lparr>pm_Time = of_nat t, pm_Memory = of_nat m, pm_Threads = of_nat p\<rparr>)"

definition decodeHash :: "string \<Rightarrow> (params \<times> string \<times> string) result" where
  "decodeHash encoded = (let parts = split_on (CHR ''$'') encoded in
     if length parts \<noteq> 6 \<or> parts ! 1 \<noteq> ''argon2id'' then Inl ErrInvalidHash else
     case scan_version (parts ! 2) of None \<Rightarrow> Inl ErrInvalidHash
     | Some version \<Rightarrow>
         if version \<noteq> int argon2_Version then Inl (ErrOther ''auth: unsupported argon2 version'') else
         case scan_params (parts ! 3) of None \<Rightarrow> Inl ErrInvalidHash
         | Some p \<Rightarrow> (case raw_decode (parts ! 4) of None \<Rightarrow> Inl ErrInvalidHash
           | Some salt \<Rightarrow> (case raw_decode (parts ! 5) of None \<Rightarrow> Inl ErrInvalidHash
             | Some digest \<Rightarrow> Inr (p, salt, digest))))"

definition VerifyPassword :: "auth_lib \<Rightarrow> string \<Rightarrow> string \<Rightarrow> params \<Rightarrow> (bool \<times> bool) result" where
  "VerifyPassword A password encoded current0 =
     bindR (decodeHash encoded) (\<lambda>(p, salt, want).
     bindR (IDKey A password salt p (length want)) (\<lambda>got.
     if got \<noteq> want then Inr (False, False) else
     let current = (if pm_Time current0 = 0 then DefaultParams else current0) in
     Inr (True, pm_Time p < pm_Time current \<or> pm_Memory p < pm_Memory current \<or> pm_Threads p < pm_Threads current)))"

text \<open>The hash an unknown user's password is verified against; the outcome is thrown away.\<close>

definition dummy_hash :: string where
  "dummy_hash = ''$argon2id$v=19$m=65536,t=3,p=4$YWJjZGVmZ2hpamtsbW5vcA$cnfCJ0dOZlYyH1qXQF2gJqYnFbBqbf4pBiUEZBEIRuU''"

definition DummyVerify :: "auth_lib \<Rightarrow> string \<Rightarrow> unit result" where
  "DummyVerify A password = (case VerifyPassword A password dummy_hash DefaultParams of
     Inl Panic \<Rightarrow> Inl Panic | _ \<Rightarrow> Inr ())"

section \<open>Lemmas\<close>

lemma digit_value_show: "n < 10 \<Longrightarrow> digit_value (''0123456789'' ! n) = Some (int n)"
proof -
  assume "n < 10"
  then have "n \<in> {0, 1, 2, 3, 4, 5, 6, 7, 8, 9}" by auto
  then show ?thesis by (auto simp: digit_value_def)
qed

lemma digits_value_append:
  "digits_value acc (xs @ ys) = (case digits_value acc xs of None \<Rightarrow> None | Some v \<Rightarrow> digits_value v ys)"
  by (induction xs arbitrary: acc) (auto split: option.split)

lemma digits_value_show: "digits_value 0 (show_nat n) = Some (int n)"
proof (induction n rule: show_nat.induct)
  case (1 n)
  show ?case
  proof (cases "n < 10")
    case True
    then show ?thesis by (simp add: show_nat.simps [of n] digit_value_show)
  next
    case False
    have "10 * int (n div 10) + int (n mod 10) = int n"
      by (metis mult_div_mod_eq of_nat_add of_nat_mult of_nat_numeral)
    with 1 [OF False] False show ?thesis
      by (simp add: show_nat.simps [of n] digits_value_append digit_value_show)
  qed
qed

lemma show_nat_is_digit: "\<forall>c\<in>set (show_nat n). is_digit c"
proof -
  have "list_all is_digit ''0123456789''" by code_simp
  with show_nat_digits [of n] show ?thesis by (auto simp: list_all_iff)
qed

lemma show_nat_Nil [simp]: "show_nat n \<noteq> []"
  by (subst show_nat.simps) simp

lemma skip_blanks_show: "skip_blanks (show_nat n @ r) = show_nat n @ r"
proof -
  obtain c s where cs: "show_nat n = c # s" by (cases "show_nat n") simp_all
  with show_nat_digits [of n] have "c \<in> set ''0123456789''" by auto
  moreover have "list_all (\<lambda>c. c \<notin> set [CHR '' '', CHR 0x09, CHR 0x0B, CHR 0x0C, CHR 0x0D]) ''0123456789''" by code_simp
  ultimately show ?thesis by (auto simp: skip_blanks_def cs list_all_iff)
qed

lemma split_digits:
  assumes "r = [] \<or> \<not> is_digit (hd r)"
  shows "takeWhile is_digit (show_nat n @ r) = show_nat n" "dropWhile is_digit (show_nat n @ r) = r"
proof -
  have "takeWhile is_digit r = []" "dropWhile is_digit r = r" using assms by (cases r; simp)+
  then show "takeWhile is_digit (show_nat n @ r) = show_nat n" "dropWhile is_digit (show_nat n @ r) = r"
    using show_nat_is_digit [of n] by (simp_all add: takeWhile_append2 dropWhile_append2)
qed

lemma scan_uint_show:
  "r = [] \<or> \<not> is_digit (hd r) \<Longrightarrow> n < 2 ^ bits \<Longrightarrow> scan_uint bits (show_nat n @ r) = Some (n, r)"
  using of_nat_less_iff [of n "2 ^ bits", where ?'a = int]
  by (simp add: scan_uint_def skip_blanks_show split_digits digits_value_show)

definition raw_padding :: "nat \<Rightarrow> string" where
  "raw_padding n = (if n mod 4 = 2 then ''=='' else if n mod 4 = 3 then ''='' else [])"

lemma sextets:
  "byte a div 4 < 64" "byte a mod 4 * 16 < 64" "byte a mod 4 * 16 + byte b div 16 < 64" "byte b mod 16 * 4 < 64"
  "byte b mod 16 * 4 + byte c div 64 < 64" "byte c mod 64 < 64"
  using sextet_bounds [OF byte_less [of a] byte_less [of b] byte_less [of c]] by simp_all

lemma sextets_not_pad:
  "b64_char (byte a div 4) \<noteq> CHR ''=''" "b64_char (byte a mod 4 * 16) \<noteq> CHR ''=''"
  "b64_char (byte a mod 4 * 16 + byte b div 16) \<noteq> CHR ''=''" "b64_char (byte b mod 16 * 4) \<noteq> CHR ''=''"
  "b64_char (byte b mod 16 * 4 + byte c div 64) \<noteq> CHR ''=''" "b64_char (byte c mod 64) \<noteq> CHR ''=''"
  by (intro b64_char_not_pad sextets)+

lemma raw_shape: "EncodeToString s = raw_encode s @ raw_padding (length (raw_encode s)) \<and> length (raw_encode s) mod 4 \<noteq> 1"
  unfolding raw_encode_def
proof (induction s rule: EncodeToString.induct)
  case (4 a b c s)
  have "raw_padding (Suc (Suc (Suc (Suc n)))) = raw_padding n" for n
    by (simp add: raw_padding_def)
  with 4 show ?case by (simp add: sextets_not_pad)
next
  case (2 a)
  show ?case by (simp add: sextets_not_pad raw_padding_def)
next
  case (3 a b)
  show ?case by (simp add: sextets_not_pad raw_padding_def)
qed (simp add: raw_padding_def)

lemma raw_decode_encode: "raw_decode (raw_encode s) = Some s"
proof -
  have nl: "CR \<notin> set (raw_encode s)" "LF \<notin> set (raw_encode s)"
    using encode_no_space [of s] by (auto simp: raw_encode_def)
  then have f: "filter (\<lambda>c. c \<noteq> CR \<and> c \<noteq> LF) (raw_encode s) = raw_encode s" by (intro filter_True) auto
  have eq: "CHR ''='' \<notin> set (raw_encode s)" by (simp add: raw_encode_def)
  have "DecodeString (raw_encode s @ raw_padding (length (raw_encode s))) = Some s"
    using decode_encode [of s] raw_shape [of s] by simp
  then show ?thesis
    using raw_shape [of s] eq by (simp add: raw_decode_def f Let_def raw_padding_def split: if_splits)
qed

lemma b64_no_dollar: "CHR ''$'' \<notin> set (raw_encode s)"
proof -
  have "list_all (\<lambda>c. c \<noteq> CHR ''$'') b64_alphabet" by code_simp
  moreover have "length b64_alphabet = 64" by code_simp
  ultimately have d: "n < 64 \<Longrightarrow> b64_char n \<noteq> CHR ''$''" for n
    by (auto simp: b64_char_def list_all_length)
  show ?thesis
    unfolding raw_encode_def
    by (induction s rule: EncodeToString.induct) (simp_all add: d [THEN not_sym] sextets)
qed

definition phc :: "params \<Rightarrow> string \<Rightarrow> string \<Rightarrow> string" where
  "phc p salt digest = ''$argon2id$v='' @ show_nat argon2_Version @ ''$m='' @ show_nat (unat (pm_Memory p))
     @ '',t='' @ show_nat (unat (pm_Time p)) @ '',p='' @ show_nat (unat (pm_Threads p))
     @ ''$'' @ raw_encode salt @ ''$'' @ raw_encode digest"

lemma scan_params_show:
  "scan_params (''m='' @ show_nat (unat (pm_Memory p)) @ '',t='' @ show_nat (unat (pm_Time p)) @ '',p='' @ show_nat (unat (pm_Threads p))) = Some p"
proof -
  have lit: "scan_lit l (l @ r) = Some r" for l r by (simp add: scan_lit_def)
  have comma: "\<not> is_digit (CHR '','')" by code_simp
  have b: "unat (pm_Memory p) < 2 ^ 32" "unat (pm_Time p) < 2 ^ 32" "unat (pm_Threads p) < 2 ^ 8"
  proof -
    have "unat (pm_Memory p) < 2 ^ len_of TYPE(32)" "unat (pm_Time p) < 2 ^ len_of TYPE(32)"
      "unat (pm_Threads p) < 2 ^ len_of TYPE(8)" by (rule unsigned_less)+
    then show "unat (pm_Memory p) < 2 ^ 32" "unat (pm_Time p) < 2 ^ 32" "unat (pm_Threads p) < 2 ^ 8" by simp_all
  qed
  have "scan_uint 32 (show_nat (unat (pm_Memory p)) @ '',t='' @ x) = Some (unat (pm_Memory p), '',t='' @ x)"
    "scan_uint 32 (show_nat (unat (pm_Time p)) @ '',p='' @ x) = Some (unat (pm_Time p), '',p='' @ x)"
    "scan_uint 8 (show_nat (unat (pm_Threads p)) @ []) = Some (unat (pm_Threads p), [])" for x
    by (rule scan_uint_show [OF _ b(1)] scan_uint_show [OF _ b(2)] scan_uint_show [OF _ b(3)]; simp add: comma)+
  then show ?thesis
    unfolding scan_params_def lit option.case prod.case append_assoc by (cases p) (simp add: scan_lit_def)
qed

lemma decodeHash_phc: "decodeHash (phc p salt digest) = Inr (p, salt, digest)"
proof -
  let ?m = "''m='' @ show_nat (unat (pm_Memory p)) @ '',t='' @ show_nat (unat (pm_Time p)) @ '',p='' @ show_nat (unat (pm_Threads p))"
  let ?parts = "[[], ''argon2id'', ''v=19'', ?m, raw_encode salt, raw_encode digest]"
  have nineteen: "show_nat argon2_Version = ''19''" by code_simp
  have d: "CHR ''$'' \<notin> set (show_nat n)" for n using show_nat_digits [of n] by auto
  have "phc p salt digest = join_with [CHR ''$''] ?parts"
    by (simp add: phc_def nineteen)
  moreover have "split_on (CHR ''$'') (join_with [CHR ''$''] ?parts) = ?parts"
    by (rule split_join) (use d b64_no_dollar in auto)
  ultimately have parts: "split_on (CHR ''$'') (phc p salt digest) = ?parts" by simp
  have v: "scan_version ''v=19'' = Some (int argon2_Version)" by code_simp
  show ?thesis
    unfolding decodeHash_def parts Let_def
    by (simp add: v scan_params_show [simplified] raw_decode_encode)
qed

lemma decode_dummy: "\<exists>salt digest. decodeHash dummy_hash = Inr (DefaultParams, salt, digest) \<and> length salt = saltLen \<and> length digest = argonKeyLen"
proof -
  let ?s = "''YWJjZGVmZ2hpamtsbW5vcA''" and ?d = "''cnfCJ0dOZlYyH1qXQF2gJqYnFbBqbf4pBiUEZBEIRuU''"
  have parts: "split_on (CHR ''$'') dummy_hash = [[], ''argon2id'', ''v=19'', ''m=65536,t=3,p=4'', ?s, ?d]" by code_simp
  have "show_nat 65536 = ''65536''" "show_nat 3 = ''3''" "show_nat 4 = ''4''" by (simp_all add: show_nat.simps)
  then have p: "scan_params ''m=65536,t=3,p=4'' = Some DefaultParams"
    using scan_params_show [of DefaultParams] by (simp add: DefaultParams_def)
  have v: "scan_version ''v=19'' = Some (int argon2_Version)" by code_simp
  have "map_option length (raw_decode ?s) = Some saltLen" "map_option length (raw_decode ?d) = Some argonKeyLen"
    by code_simp+
  then obtain salt digest where "raw_decode ?s = Some salt" "length salt = saltLen" "raw_decode ?d = Some digest"
    "length digest = argonKeyLen" by (auto simp: map_option_case split: option.splits)
  then show ?thesis by (simp add: decodeHash_def parts Let_def p v)
qed

section \<open>Properties\<close>

text \<open>C31. A stored hash verifies exactly the passwords with the same Argon2 digest: for every cost setting, the hash
  \<open>HashPassword\<close> writes is read back with its own parameters and salt, a password with the same digest is accepted, any
  other is refused without an error, and a rehash is asked for exactly when some parameter is below the
  current policy.  The hash checked for unknown users carries the default cost, a full salt and a full
  digest, so it costs the same.\<close>

theorem password_reads_back:
  assumes "HashPassword A i password p0 = Inr h" and "ac_rand A i saltLen = Some salt"
    and "\<And>pw s t m th n. length (ac_argon2 A pw s t m th n) = n"
  shows "VerifyPassword A guess h current =
      (let p = (if pm_Time p0 = 0 \<or> pm_Memory p0 = 0 \<or> pm_Threads p0 = 0 then DefaultParams else p0);
           cur = (if pm_Time current = 0 then DefaultParams else current) in
       Inr (if IDKey A guess salt p argonKeyLen = IDKey A password salt p argonKeyLen
            then (True, pm_Time p < pm_Time cur \<or> pm_Memory p < pm_Memory cur \<or> pm_Threads p < pm_Threads cur)
            else (False, False)))
    \<and> (case decodeHash dummy_hash of Inl _ \<Rightarrow> False
       | Inr (p, salt, digest) \<Rightarrow> p = DefaultParams \<and> length salt = saltLen \<and> length digest = argonKeyLen)"
proof
  let ?p = "if pm_Time p0 = 0 \<or> pm_Memory p0 = 0 \<or> pm_Threads p0 = 0 then DefaultParams else p0"
  have "pm_Time DefaultParams \<noteq> 0" "pm_Threads DefaultParams \<noteq> 0" by (simp_all add: DefaultParams_def)
  then have nz: "pm_Time ?p \<noteq> 0" "pm_Threads ?p \<noteq> 0" by auto
  then have key: "IDKey A pw salt ?p n = Inr (ac_argon2 A pw salt (unat (pm_Time ?p)) (unat (pm_Memory ?p)) (unat (pm_Threads ?p)) n)" for pw n
    by (simp add: IDKey_def)
  obtain d where d: "IDKey A password salt ?p argonKeyLen = Inr d" and h: "h = phc ?p salt d"
    using assms(1,2) by (auto simp: HashPassword_def phc_def Let_def split: if_splits)
  have "length d = argonKeyLen" using d assms(3) by (auto simp: key)
  then show "VerifyPassword A guess h current =
      (let p = ?p; cur = (if pm_Time current = 0 then DefaultParams else current) in
       Inr (if IDKey A guess salt p argonKeyLen = IDKey A password salt p argonKeyLen
            then (True, pm_Time p < pm_Time cur \<or> pm_Memory p < pm_Memory cur \<or> pm_Threads p < pm_Threads cur)
            else (False, False)))"
    unfolding VerifyPassword_def h decodeHash_phc Let_def d
    by (simp add: key)
  show "case decodeHash dummy_hash of Inl _ \<Rightarrow> False
       | Inr (p, salt, digest) \<Rightarrow> p = DefaultParams \<and> length salt = saltLen \<and> length digest = argonKeyLen"
    using decode_dummy by auto
qed

theorem password_reads_back_witness:
  "\<exists>h. HashPassword toy_auth 0 ''pw'' DefaultParams = Inr h \<and> VerifyPassword toy_auth ''pw'' h DefaultParams = Inr (True, False)
     \<and> VerifyPassword toy_auth ''px'' h DefaultParams = Inr (False, False)"
proof -
  obtain h where h: "HashPassword toy_auth 0 ''pw'' DefaultParams = Inr h"
    by (auto simp: HashPassword_def IDKey_def DefaultParams_def toy_auth_def saltLen_def Let_def)
  have r: "ac_rand toy_auth 0 saltLen = Some (replicate 16 (CHR ''a''))"
    by code_simp
  have l: "length (ac_argon2 toy_auth pw s t m th n) = n" for pw s t m th n
    by (simp add: toy_auth_def)
  have "IDKey toy_auth ''px'' (replicate 16 (CHR ''a'')) DefaultParams argonKeyLen
      \<noteq> IDKey toy_auth ''pw'' (replicate 16 (CHR ''a'')) DefaultParams argonKeyLen"
    by (simp add: IDKey_def DefaultParams_def toy_auth_def argonKeyLen_def)
  then show ?thesis
    using password_reads_back [OF h r l, of "''pw''" DefaultParams] password_reads_back [OF h r l, of "''px''" DefaultParams] h
    by (auto simp: DefaultParams_def)
qed

end
