(* ===== verification/AuthService.thy ===== *)
theory AuthService
  imports Accounts Password KeyService
begin

text \<open>
  Sign-in, sessions, second factors and token authentication (\<open>internal/service/auth.go\<close>).  The detail of
  an audit entry is its \<open>reason\<close> or \<open>event\<close>.  The rendered QR image is a parameter.
\<close>

section \<open>Sessions\<close>

definition MaxFailedLogins :: int where "MaxFailedLogins = 5"
definition LockoutDuration :: duration where "LockoutDuration = 15 * Minute"
definition TokenPrefix :: string where "TokenPrefix = ''skmt_''"

text \<open>\<open>as_Tokens\<close> says whether \<open>SetTokens\<close> was called.\<close>

record auth_service =
  as_Lib :: auth_lib
  as_TTL :: duration
  as_Tokens :: bool
  as_QR :: "string \<Rightarrow> string option"

definition NewAuthService :: "auth_lib \<Rightarrow> (string \<Rightarrow> string option) \<Rightarrow> duration \<Rightarrow> auth_service" where
  "NewAuthService A png sessionTTL = \<lparr>as_Lib = A, as_TTL = (if sessionTTL \<le> 0 then 12 * Hour else sessionTTL),
     as_Tokens = False, as_QR = png\<rparr>"

definition SetTokens :: "auth_service \<Rightarrow> auth_service" where
  "SetTokens S = S\<lparr>as_Tokens := True\<rparr>"

record session =
  se_Token :: string
  se_ExpiresAt :: gtime
  se_User :: user_row
  se_Roles :: "string list"
  se_Permissions :: "string list"
  se_MFAVerified :: bool

record login_request =
  lr_Username :: string
  lr_Password :: string
  lr_TOTPCode :: string
  lr_IPAddress :: string

definition hashToken :: "auth_lib \<Rightarrow> string \<Rightarrow> string" where
  "hashToken A token = hex_encode (ac_sha256 A token)"

definition hashRecoveryCodes :: "auth_lib \<Rightarrow> string list \<Rightarrow> string list" where
  "hashRecoveryCodes A codes = map (\<lambda>c. hex_encode (ac_sha256 A c)) codes"

text \<open>\<open>base64.RawURLEncoding\<close>.\<close>

definition raw_url_encode :: "string \<Rightarrow> string" where
  "raw_url_encode s = map (\<lambda>c. if c = CHR ''+'' then CHR ''-'' else if c = CHR ''/'' then CHR ''_'' else c) (raw_encode s)"

definition auditLogin :: "uuid \<Rightarrow> uuid option \<Rightarrow> string \<Rightarrow> string \<Rightarrow> ('h, unit) dbprog" where
  "auditLogin tenantID uid outcome reason = record_audit \<lparr>ae_TenantID = tenantID, ae_ActorID = uid,
     ae_Action = (if outcome \<noteq> ''success'' then ''auth.login_failed'' else ''auth.login''), ae_ResourceID = uid,
     ae_Outcome = outcome, ae_Phase = reason\<rparr>"

definition logEvent :: "subject \<Rightarrow> string \<Rightarrow> string \<Rightarrow> string \<Rightarrow> ('h, unit) dbprog" where
  "logEvent s action outcome event = record_audit \<lparr>ae_TenantID = TenantID s, ae_ActorID = Some (UserID s),
     ae_Action = action, ae_ResourceID = None, ae_Outcome = outcome, ae_Phase = event\<rparr>"

definition createSession :: "auth_service \<Rightarrow> user_row \<Rightarrow> bool \<Rightarrow> string \<Rightarrow> ('h, string \<times> gtime) dbprog" where
  "createSession S user mfaVerified ip =
     andThen draw (\<lambda>i.
     case ac_rand (as_Lib S) i 32 of None \<Rightarrow> fail (ErrOther ''service: generating session token'')
     | Some raw \<Rightarrow>
         andThen time_Now (\<lambda>now.
         andThen (if mfaVerified then andThen time_Now (\<lambda>t. ret (Some t)) else ret None) (\<lambda>mfaAt.
         andThen uuid_New (\<lambda>sid.
         let token = raw_url_encode raw; expiresAt = now + as_TTL S;
             row = \<lparr>ss_ID = sid, ss_UserID = u_ID user, ss_TokenHash = hashToken (as_Lib S) token,
                    ss_MFAVerifiedAt = mfaAt, ss_ExpiresAt = expiresAt, ss_RevokedAt = None\<rparr> in
         andThen (stmt (\<lambda>w.
           if ip \<noteq> [] \<and> \<not> ac_inet (as_Lib S) ip
              \<or> list_ex (\<lambda>x. ss_TokenHash x = ss_TokenHash row) (w_sessions w)
              \<or> \<not> list_ex (\<lambda>u. u_ID u = u_ID user) (w_users w)
           then (Inl (ErrOther ''service: storing session''), w)
           else (Inr (), w\<lparr>w_sessions := w_sessions w @ [row]\<rparr>))) (\<lambda>_.
         ret (token, expiresAt))))))"

section \<open>Sign-in\<close>

definition is_locked :: "user_row \<Rightarrow> ('h, bool) dbprog" where
  "is_locked u = (case u_LockedUntil u of None \<Rightarrow> ret False | Some _ \<Rightarrow> andThen time_Now (\<lambda>now. ret (Locked now u)))"

definition refuse_login :: "uuid \<Rightarrow> uuid option \<Rightarrow> string \<Rightarrow> string \<Rightarrow> gerror \<Rightarrow> ('h, 'a) dbprog" where
  "refuse_login tenantID uid outcome reason e = andThen (auditLogin tenantID uid outcome reason) (\<lambda>_. fail e)"

definition strike :: "uuid \<Rightarrow> uuid \<Rightarrow> string \<Rightarrow> ('h, 'a) dbprog" where
  "strike tenantID uid reason =
     andThen (RecordFailedLogin uid MaxFailedLogins LockoutDuration) (\<lambda>_.
     refuse_login tenantID (Some uid) ''failure'' reason ErrInvalidCredentials)"

definition rehash :: "auth_service \<Rightarrow> user_row \<Rightarrow> string \<Rightarrow> ('h, unit) dbprog" where
  "rehash S user password = andThen draw (\<lambda>i.
     case HashPassword (as_Lib S) i password DefaultParams of
       Inl e \<Rightarrow> ret () | Inr fresh \<Rightarrow> ignoring (Users_SetPassword (u_ID user) fresh))"

text \<open>The second factor of an account that has one; \<open>True\<close> when it was checked.\<close>

definition second_factor :: "auth_service \<Rightarrow> uuid \<Rightarrow> user_row \<Rightarrow> string \<Rightarrow> ('h, bool) dbprog" where
  "second_factor S tenantID user code =
     (if \<not> u_TOTPEnrolled user then ret False
      else if code = [] then fail ErrSecondFactor
      else andThen time_Now (\<lambda>now.
        if \<not> VerifyTOTP (as_Lib S) (u_TOTPSecret user) code now then strike tenantID (u_ID user) ''wrong TOTP code''
        else ret True))"

definition open_session :: "auth_service \<Rightarrow> uuid \<Rightarrow> login_request \<Rightarrow> user_row \<Rightarrow> bool \<Rightarrow> ('h, session) dbprog" where
  "open_session S tenantID req user mfaVerified =
     andThen (createSession S user mfaVerified (lr_IPAddress req)) (\<lambda>(token, expiresAt).
     andThen (RecordLogin (u_ID user)) (\<lambda>_.
     andThen (LoadSubject tenantID (u_ID user)) (\<lambda>subject.
     andThen (RoleNamesFor (u_ID user)) (\<lambda>roles.
     andThen (auditLogin tenantID (Some (u_ID user)) ''success'' []) (\<lambda>_.
     ret \<lparr>se_Token = token, se_ExpiresAt = expiresAt,
          se_User = user\<lparr>u_PasswordHash := [], u_TOTPSecret := [], u_RecoveryCodes := []\<rparr>,
          se_Roles = roles, se_Permissions = EffectivePermissions (Some subject), se_MFAVerified = mfaVerified\<rparr>)))))"

definition login_user :: "auth_service \<Rightarrow> uuid \<Rightarrow> login_request \<Rightarrow> user_row \<Rightarrow> ('h, session) dbprog" where
  "login_user S tenantID req user =
     (if \<not> u_Active user then refuse_login tenantID (Some (u_ID user)) ''denied'' ''account disabled'' ErrInvalidCredentials
      else andThen (is_locked user) (\<lambda>locked.
      if locked then refuse_login tenantID (Some (u_ID user)) ''denied'' ''account locked'' ErrAccountLocked
      else andThen (attempt (lift (VerifyPassword (as_Lib S) (lr_Password req) (u_PasswordHash user) DefaultParams))) (\<lambda>v.
      case v of
        Inl e \<Rightarrow> strike tenantID (u_ID user) ''wrong password''
      | Inr (ok, needsRehash) \<Rightarrow>
          if \<not> ok then strike tenantID (u_ID user) ''wrong password'' else
          andThen (if needsRehash then rehash S user (lr_Password req) else ret ()) (\<lambda>_.
          andThen (second_factor S tenantID user (lr_TOTPCode req)) (\<lambda>mfaVerified.
          open_session S tenantID req user mfaVerified)))))"

definition Login :: "auth_service \<Rightarrow> uuid \<Rightarrow> login_request \<Rightarrow> ('h, session) dbprog" where
  "Login S tenantID0 req =
     (let tenantID = (if tenantID0 = uuid_Nil then DefaultTenantID else tenantID0) in
     andThen (attempt (GetByUsername tenantID (lr_Username req))) (\<lambda>found.
     case found of
       Inl e \<Rightarrow>
         andThen (lift (DummyVerify (as_Lib S) (lr_Password req))) (\<lambda>_.
         refuse_login tenantID None ''failure'' ''unknown user'' ErrInvalidCredentials)
     | Inr user \<Rightarrow> login_user S tenantID req user))"

section \<open>Requests\<close>

definition token_active :: "token_row \<Rightarrow> ('h, bool) dbprog" where
  "token_active token =
     (if tk_RevokedAt token \<noteq> None \<or> tk_ExpiresAt token = None then ret (tk_RevokedAt token = None)
      else andThen time_Now (\<lambda>now. ret (Token_Active now token)))"

text \<open>The subject a token acts as: its owner, narrowed to what the token carries.\<close>

definition token_subject :: "token_row \<Rightarrow> subject \<Rightarrow> subject" where
  "token_subject token s0 =
     (let s1 = Restrict (s0\<lparr>TokenID := Some (tk_ID token)\<rparr>) (Permissions (tk_Permissions token)) in
      if length (tk_Scopes token) > 0 then s1\<lparr>Scopes := tk_Scopes token\<rparr> else s1)"

definition as_owner :: "token_row \<Rightarrow> uuid \<Rightarrow> ('h, subject) dbprog" where
  "as_owner token uid =
     andThen (attempt (Users_Get (tk_TenantID token) uid)) (\<lambda>u.
     case u of Inl e \<Rightarrow> fail ErrSessionInvalid
     | Inr user \<Rightarrow>
         if \<not> u_Active user then fail ErrSessionInvalid else
         andThen (LoadSubject (tk_TenantID token) uid) (\<lambda>s0.
         andThen (ignoring (TouchUsed (tk_ID token))) (\<lambda>_.
         ret (token_subject token s0))))"

definition authenticateAPIToken :: "auth_service \<Rightarrow> string \<Rightarrow> ('h, subject) dbprog" where
  "authenticateAPIToken S plaintext =
     (if \<not> as_Tokens S then fail ErrSessionInvalid else
      andThen (attempt (Tokens_ByHash (hashToken (as_Lib S) plaintext))) (\<lambda>r.
      case r of
        Inl e \<Rightarrow> if e = ErrNotFound then fail ErrSessionInvalid else fail e
      | Inr token \<Rightarrow>
          andThen (token_active token) (\<lambda>active.
          case tk_UserID token of None \<Rightarrow> fail ErrSessionInvalid
          | Some uid \<Rightarrow> if \<not> active then fail ErrSessionInvalid else as_owner token uid)))"

text \<open>The query joins the session with its user; \<open>now()\<close> is the clock of the database.\<close>

definition live_session :: "string \<Rightarrow> 'h world \<Rightarrow> (session_row \<times> user_row) option" where
  "live_session hash w =
     (case List.find (\<lambda>s. ss_TokenHash s = hash \<and> ss_RevokedAt s = None \<and> w_now w < ss_ExpiresAt s) (w_sessions w) of
        None \<Rightarrow> None
      | Some s \<Rightarrow> map_option (Pair s) (List.find (\<lambda>u. u_ID u = ss_UserID s) (w_users w)))"

definition Authenticate :: "auth_service \<Rightarrow> string \<Rightarrow> ('h, subject) dbprog" where
  "Authenticate S token =
     (if token = [] then fail ErrSessionInvalid
      else if prefix TokenPrefix token then authenticateAPIToken S token
      else andThen (stmt (\<lambda>w. (Inr (live_session (hashToken (as_Lib S) token) w), w))) (\<lambda>r.
        case r of None \<Rightarrow> fail ErrSessionInvalid
        | Some (s, u) \<Rightarrow>
            if \<not> u_Active u then fail ErrSessionInvalid
            else andThen (LoadSubject (u_TenantID u) (ss_UserID s)) (\<lambda>subject.
              ret (case ss_MFAVerifiedAt s of None \<Rightarrow> subject | Some t \<Rightarrow> subject\<lparr>MFAVerifiedAt := Some t\<rparr>))))"

section \<open>Second factors\<close>

definition VerifyStepUp :: "auth_service \<Rightarrow> subject \<Rightarrow> string \<Rightarrow> string \<Rightarrow> ('h, unit) dbprog" where
  "VerifyStepUp S s token code =
     andThen (Users_Get (TenantID s) (UserID s)) (\<lambda>user.
     if \<not> u_TOTPEnrolled user then fail (ErrOther ''service: no second factor is enrolled'') else
     andThen time_Now (\<lambda>now.
     if \<not> VerifyTOTP (as_Lib S) (u_TOTPSecret user) code now
     then andThen (logEvent s ''auth.mfa_verify'' ''failure'' []) (\<lambda>_. fail ErrInvalidCredentials)
     else
       andThen (stmt (modify (\<lambda>w. w\<lparr>w_sessions := upd_where
          (\<lambda>x. ss_TokenHash x = hashToken (as_Lib S) token \<and> ss_RevokedAt x = None)
          (\<lambda>x. x\<lparr>ss_MFAVerifiedAt := Some (w_now w)\<rparr>) (w_sessions w)\<rparr>))) (\<lambda>_.
       logEvent s ''auth.mfa_verify'' ''success'' [])))"

definition Logout :: "auth_service \<Rightarrow> subject option \<Rightarrow> string \<Rightarrow> ('h, unit) dbprog" where
  "Logout S subject token =
     andThen (stmt (modify (\<lambda>w. w\<lparr>w_sessions := upd_where (\<lambda>x. ss_TokenHash x = hashToken (as_Lib S) token)
        (\<lambda>x. x\<lparr>ss_RevokedAt := Some (w_now w)\<rparr>) (w_sessions w)\<rparr>))) (\<lambda>_.
     case subject of None \<Rightarrow> ret () | Some s \<Rightarrow> logEvent s ''auth.logout'' ''success'' [])"

text \<open>The counter moves on by the number of readings the codes take.\<close>

definition draw_codes :: "auth_lib \<Rightarrow> nat \<Rightarrow> ('h, string list) dbprog" where
  "draw_codes A n = (\<lambda>w. (GenerateRecoveryCodes A (w_next w) n, w\<lparr>w_next := w_next w + n\<rparr>))"

definition EnrolTOTP :: "auth_service \<Rightarrow> subject \<Rightarrow> string \<Rightarrow> ('h, string \<times> string \<times> string list) dbprog" where
  "EnrolTOTP S s issuer =
     andThen (Users_Get (TenantID s) (UserID s)) (\<lambda>user.
     andThen draw (\<lambda>i.
     andThen (lift (GenerateTOTPSecret (as_Lib S) i)) (\<lambda>secret.
     andThen (draw_codes (as_Lib S) 10) (\<lambda>codes.
     andThen (SetTOTP (u_ID user) secret False (hashRecoveryCodes (as_Lib S) codes)) (\<lambda>_.
     ret (secret, TOTPURI issuer (u_Username user) secret, codes))))))"

record totp_enrolment =
  te_Secret :: string
  te_URI :: string
  te_QRCode :: string
  te_RecoveryCodes :: "string list"

definition EnrolTOTPWithQR :: "auth_service \<Rightarrow> subject \<Rightarrow> string \<Rightarrow> ('h, totp_enrolment) dbprog" where
  "EnrolTOTPWithQR S s issuer =
     andThen (EnrolTOTP S s issuer) (\<lambda>(secret, uri, codes).
     ret \<lparr>te_Secret = secret, te_URI = uri, te_QRCode = (case as_QR S uri of None \<Rightarrow> [] | Some i \<Rightarrow> i),
          te_RecoveryCodes = codes\<rparr>)"

definition ConfirmTOTP :: "auth_service \<Rightarrow> subject \<Rightarrow> string \<Rightarrow> ('h, unit) dbprog" where
  "ConfirmTOTP S s code =
     andThen (Users_Get (TenantID s) (UserID s)) (\<lambda>user.
     if u_TOTPSecret user = [] then fail (ErrOther ''service: no enrolment is in progress'') else
     andThen time_Now (\<lambda>now.
     if \<not> VerifyTOTP (as_Lib S) (u_TOTPSecret user) code now then fail ErrInvalidCredentials else
     andThen (SetTOTP (u_ID user) (u_TOTPSecret user) True (u_RecoveryCodes user)) (\<lambda>_.
     logEvent s ''auth.mfa_verify'' ''success'' ''totp_enrolled'')))"

definition RegenerateRecoveryCodes :: "auth_service \<Rightarrow> subject \<Rightarrow> string \<Rightarrow> ('h, string list) dbprog" where
  "RegenerateRecoveryCodes S s code =
     andThen (Users_Get (TenantID s) (UserID s)) (\<lambda>user.
     if \<not> u_TOTPEnrolled user then fail (ErrOther ''service: no second factor is enrolled'') else
     andThen time_Now (\<lambda>now.
     if \<not> VerifyTOTP (as_Lib S) (u_TOTPSecret user) code now
     then andThen (logEvent s ''auth.mfa_verify'' ''failure'' ''recovery_codes_regenerate'') (\<lambda>_. fail ErrInvalidCredentials)
     else
       andThen (draw_codes (as_Lib S) 10) (\<lambda>codes.
       andThen (SetTOTP (u_ID user) (u_TOTPSecret user) True (hashRecoveryCodes (as_Lib S) codes)) (\<lambda>_.
       andThen (logEvent s ''auth.mfa_verify'' ''success'' ''recovery_codes_regenerated'') (\<lambda>_.
       ret codes)))))"

definition DisableTOTP :: "auth_service \<Rightarrow> subject \<Rightarrow> string \<Rightarrow> ('h, unit) dbprog" where
  "DisableTOTP S s code =
     andThen (Users_Get (TenantID s) (UserID s)) (\<lambda>user.
     if \<not> u_TOTPEnrolled user then ret () else
     andThen time_Now (\<lambda>now.
     if \<not> VerifyTOTP (as_Lib S) (u_TOTPSecret user) code now
     then andThen (logEvent s ''auth.mfa_verify'' ''failure'' ''totp_disable'') (\<lambda>_. fail ErrInvalidCredentials)
     else
       andThen (SetTOTP (u_ID user) [] False []) (\<lambda>_.
       logEvent s ''auth.mfa_verify'' ''success'' ''totp_disabled'')))"

section \<open>Housekeeping\<close>

definition purgeable :: "gtime \<Rightarrow> session_row \<Rightarrow> bool" where
  "purgeable now x \<longleftrightarrow> ss_ExpiresAt x < now - 168 * Hour
     \<or> (case ss_RevokedAt x of None \<Rightarrow> False | Some t \<Rightarrow> t < now - 168 * Hour)"

definition PurgeExpiredSessions :: "('h, nat) dbprog" where
  "PurgeExpiredSessions = stmt (\<lambda>w. (Inr (length (filter (purgeable (w_now w)) (w_sessions w))),
     w\<lparr>w_sessions := filter (\<lambda>x. \<not> purgeable (w_now w) x) (w_sessions w)\<rparr>))"

definition bootstrap_user :: "uuid \<Rightarrow> string \<Rightarrow> string \<Rightarrow> user_row" where
  "bootstrap_user tenantID username hash = \<lparr>u_ID = uuid_Nil, u_TenantID = tenantID, u_Username = username, u_Email = [],
     u_DisplayName = username, u_PasswordHash = hash, u_TOTPSecret = [], u_TOTPEnrolled = False, u_RecoveryCodes = [],
     u_Active = True, u_MustChangePW = True, u_FailedLogins = 0, u_LockedUntil = None, u_LastLoginAt = None\<rparr>"

definition Bootstrap :: "auth_service \<Rightarrow> uuid \<Rightarrow> string \<Rightarrow> string \<Rightarrow> ('h, user_row option) dbprog" where
  "Bootstrap S tenantID0 username password =
     (if username = [] \<or> password = [] then ret None else
      let tenantID = (if tenantID0 = uuid_Nil then DefaultTenantID else tenantID0) in
      andThen (Users_List tenantID) (\<lambda>existing.
      if length existing > 0 then ret None else
      andThen (EnsureSystemRoles tenantID) (\<lambda>_.
      andThen draw (\<lambda>i.
      andThen (lift (HashPassword (as_Lib S) i password DefaultParams)) (\<lambda>hash.
      andThen (Users_Create (bootstrap_user tenantID username hash)) (\<lambda>user.
      andThen (GetRoleByName tenantID ''admin'') (\<lambda>adminRole.
      andThen (GrantRole (u_ID user) (ro_ID adminRole)) (\<lambda>_.
      andThen (audit_Log \<lparr>ae_TenantID = tenantID, ae_ActorID = None, ae_Action = ''user.create'',
          ae_ResourceID = Some (u_ID user), ae_Outcome = ''success'', ae_Phase = ''bootstrap''\<rparr>) (\<lambda>_.
      ret (Some user))))))))))"

section \<open>Lemmas\<close>

lemma wlp_draw [wlp_intros]: "Q (w_next w) (w\<lparr>w_next := Suc (w_next w)\<rparr>) \<Longrightarrow> wlp draw Q w"
  by (simp add: wlp_def draw_def)

end
