(* ===== verification/AuthSafety.thy ===== *)
theory AuthSafety
  imports AuthService
begin

text \<open>
  What sign-in and request authentication guarantee, under any faults, and where they fall short of their
  comments.
\<close>

section \<open>A session is only opened for its user\<close>

lemma wlp_update_users [wlp_intros]:
  "(\<And>fs. Q () (w\<lparr>w_faults := fs, w_users := upd_where hit (f (w_now w)) (w_users w)\<rparr>)) \<Longrightarrow> wlp (update_users hit f) Q w"
  unfolding update_users_def by (intro wlp_intros) simp

lemma wlp_refuse [wlp_intros]: "wlp (refuse_login t uid outcome reason e) Q w"
  unfolding refuse_login_def auditLogin_def by (intro wlp_intros)

lemma wlp_strike [wlp_intros]: "wlp (strike t uid reason) Q w"
  unfolding strike_def RecordFailedLogin_def by (intro wlp_intros)

lemma wlp_ignoring:
  assumes "\<And>fs. Q () (w\<lparr>w_faults := fs\<rparr>)" "\<And>fs us. Q () (w\<lparr>w_faults := fs, w_users := us\<rparr>)"
  shows "wlp (ignoring (update_users hit f)) Q w"
  unfolding update_users_def
  by (rule wlp_ignoring_stmt) (use assms in auto)

lemma LoadSubject_wlp:
  assumes "\<And>fs s. UserID s = uid \<Longrightarrow> Q s (w\<lparr>w_faults := fs\<rparr>)"
  shows "wlp (LoadSubject tenantID uid) Q w"
  unfolding LoadSubject_def
  by (intro wlp_intros) (use assms in \<open>simp add: NewSubject_def\<close>)

definition opened :: "auth_service \<Rightarrow> user_row \<Rightarrow> bool \<Rightarrow> string \<Rightarrow> gtime \<Rightarrow> 'h world \<Rightarrow> bool" where
  "opened S u mfa token expiresAt w \<longleftrightarrow> (\<exists>x\<in>set (w_sessions w). ss_UserID x = u_ID u
     \<and> ss_TokenHash x = hashToken (as_Lib S) token \<and> ss_ExpiresAt x = expiresAt \<and> (ss_MFAVerifiedAt x \<noteq> None) = mfa)"

lemma createSession_wlp:
  "wlp (createSession S u mfa ip) (\<lambda>x w'. opened S u mfa (fst x) (snd x) w') w"
  unfolding createSession_def Let_def
  by (intro wlp_intros; (simp add: wlp_def opened_def ret_def)?)

lemma open_session_wlp:
  "wlp (open_session S tenantID req u mfa)
     (\<lambda>se w'. se_MFAVerified se = mfa \<and> opened S u mfa (se_Token se) (se_ExpiresAt se) w') w"
  unfolding open_session_def RecordLogin_def RoleNamesFor_def auditLogin_def
proof (rule wlp_andThen, rule wlp_weaken [OF createSession_wlp], clarify)
  fix token expiresAt and w' :: "'a world"
  assume "opened S u mfa (fst (token, expiresAt)) (snd (token, expiresAt)) w'"
  then show "wlp (andThen (update_users (\<lambda>a. u_ID a = u_ID u)
        (\<lambda>now u. u\<lparr>u_LastLoginAt := Some now, u_FailedLogins := 0, u_LockedUntil := None\<rparr>)) (\<lambda>_.
     andThen (LoadSubject tenantID (u_ID u)) (\<lambda>subject.
     andThen (stmt (get (\<lambda>w. sort (map ro_Name (roles_of w (u_ID u)))))) (\<lambda>roles.
     andThen (record_audit \<lparr>ae_TenantID = tenantID, ae_ActorID = Some (u_ID u),
        ae_Action = (if ''success'' \<noteq> ''success'' then ''auth.login_failed'' else ''auth.login''), ae_ResourceID = Some (u_ID u),
        ae_Outcome = ''success'', ae_Phase = []\<rparr>) (\<lambda>_.
     ret \<lparr>se_Token = token, se_ExpiresAt = expiresAt,
          se_User = u\<lparr>u_PasswordHash := [], u_TOTPSecret := [], u_RecoveryCodes := []\<rparr>,
          se_Roles = roles, se_Permissions = EffectivePermissions (Some subject), se_MFAVerified = mfa\<rparr>)))))
     (\<lambda>se w'. se_MFAVerified se = mfa \<and> opened S u mfa (se_Token se) (se_ExpiresAt se) w') w'"
    by (intro wlp_intros LoadSubject_wlp) (simp add: opened_def)
qed

lemma second_factor_wlp:
  "wlp (second_factor S tenantID u code) (\<lambda>mfa _. mfa = u_TOTPEnrolled u
     \<and> (u_TOTPEnrolled u \<longrightarrow> VerifyTOTP (as_Lib S) (u_TOTPSecret u) code (clock_read w))) w"
  unfolding second_factor_def
  by (intro wlp_if wlp_ret wlp_fail wlp_andThen wlp_time_read wlp_strike) auto

text \<open>The clock is read for the lock only if there is one; the second factor then sees the next reading.\<close>

definition after_lock_check :: "user_row \<Rightarrow> 'h world \<Rightarrow> 'h world" where
  "after_lock_check u w = (if u_LockedUntil u = None then w else clock_moved w)"

lemma is_locked_wlp:
  "wlp (is_locked u) (\<lambda>b w'. (b \<or> (case u_LockedUntil u of None \<Rightarrow> True | Some t \<Rightarrow> t \<le> clock_read w)) \<and> w' = after_lock_check u w) w"
  unfolding is_locked_def after_lock_check_def
  by (intro wlp_case_option wlp_ret wlp_andThen wlp_time_read) (auto simp: Locked_def)

text \<open>What opens a session for \<open>u\<close> from the world \<open>w\<close>.\<close>

definition authenticated :: "auth_lib \<Rightarrow> 'h world \<Rightarrow> login_request \<Rightarrow> user_row \<Rightarrow> bool" where
  "authenticated A w req u \<longleftrightarrow> u_Username u = lr_Username req \<and> u_Active u
     \<and> (case u_LockedUntil u of None \<Rightarrow> True | Some t \<Rightarrow> t \<le> clock_read w)
     \<and> (\<exists>weak. VerifyPassword A (lr_Password req) (u_PasswordHash u) DefaultParams = Inr (True, weak))
     \<and> (if u_TOTPEnrolled u then VerifyTOTP A (u_TOTPSecret u) (lr_TOTPCode req) (clock_read (after_lock_check u w)) else True)"

lemma rehash_clock: "wlp (rehash S u pw) (\<lambda>_ w'. clock_read w' = clock_read w) w"
proof -
  have hash: "wlp (case v of Inl e \<Rightarrow> ret () | Inr fresh \<Rightarrow> ignoring (Users_SetPassword (u_ID u) fresh))
      (\<lambda>_ w'. clock_read w' = clock_read w) (w\<lparr>w_next := Suc (w_next w)\<rparr>)" for v
    unfolding Users_SetPassword_def
    by (intro wlp_case_result wlp_ret wlp_ignoring) (simp_all add: clock_read_def split: list.split)
  show ?thesis
    unfolding rehash_def by (intro wlp_andThen wlp_draw hash)
qed

lemma login_user_wlp:
  fixes w :: "'h world"
  assumes "u_Username u = lr_Username req"
  shows "wlp (login_user S tenantID req u)
     (\<lambda>se w'. authenticated (as_Lib S) w req u \<and> se_MFAVerified se = u_TOTPEnrolled u
        \<and> opened S u (u_TOTPEnrolled u) (se_Token se) (se_ExpiresAt se) w') w"
proof (cases "u_Active u")
  case active: True
  let ?Q = "\<lambda>se (w' :: 'h world). authenticated (as_Lib S) w req u \<and> se_MFAVerified se = u_TOTPEnrolled u
        \<and> opened S u (u_TOTPEnrolled u) (se_Token se) (se_ExpiresAt se) w'"
  let ?free = "case u_LockedUntil u of None \<Rightarrow> True | Some t \<Rightarrow> t \<le> clock_read w"
  let ?second = "andThen (second_factor S tenantID u (lr_TOTPCode req)) (open_session S tenantID req u)"
  have finish: "wlp ?second ?Q v"
    if "?free" "clock_read v = clock_read (after_lock_check u w)"
      and "VerifyPassword (as_Lib S) (lr_Password req) (u_PasswordHash u) DefaultParams = Inr (True, weak)" for weak v
  proof (rule wlp_andThen, rule wlp_weaken [OF second_factor_wlp])
    fix mfa and w' :: "'h world"
    assume "mfa = u_TOTPEnrolled u \<and> (u_TOTPEnrolled u \<longrightarrow> VerifyTOTP (as_Lib S) (u_TOTPSecret u) (lr_TOTPCode req) (clock_read v))"
    then show "wlp (open_session S tenantID req u mfa) ?Q w'"
      by (intro wlp_weaken [OF open_session_wlp]) (use that active assms in \<open>auto simp: authenticated_def\<close>)
  qed
  have pass: "wlp (andThen (attempt (lift (VerifyPassword (as_Lib S) (lr_Password req) (u_PasswordHash u) DefaultParams))) (\<lambda>v.
      case v of
        Inl e \<Rightarrow> strike tenantID (u_ID u) ''wrong password''
      | Inr (ok, needsRehash) \<Rightarrow>
          if \<not> ok then strike tenantID (u_ID u) ''wrong password'' else
          andThen (if needsRehash then rehash S u (lr_Password req) else ret ()) (\<lambda>_. ?second))) ?Q (after_lock_check u w)"
    if free: "?free"
  proof (intro wlp_andThen wlp_attempt wlp_lift)
    fix x assume v: "VerifyPassword (as_Lib S) (lr_Password req) (u_PasswordHash u) DefaultParams = Inr x"
    obtain ok weak where x: "x = (ok, weak)" by (cases x)
    show "wlp (case Inr x of Inl e \<Rightarrow> strike tenantID (u_ID u) ''wrong password''
      | Inr (ok, needsRehash) \<Rightarrow>
          if \<not> ok then strike tenantID (u_ID u) ''wrong password'' else
          andThen (if needsRehash then rehash S u (lr_Password req) else ret ()) (\<lambda>_. ?second)) ?Q (after_lock_check u w)"
    proof (cases ok)
      case True
      have next_factor: "wlp (if weak then rehash S u (lr_Password req) else ret ()) (\<lambda>_. wlp ?second ?Q) (after_lock_check u w)"
        by (intro wlp_if wlp_ret wlp_weaken [OF rehash_clock] finish [OF free, of _ weak]) (use v in \<open>simp_all add: x True\<close>)
      show ?thesis
        unfolding x sum.case prod.case by (intro wlp_if wlp_strike wlp_andThen next_factor)
    qed (simp add: x wlp_strike)
  qed (simp add: wlp_strike)
  show ?thesis
    unfolding login_user_def using active
    apply (simp only: not_True_eq_False if_False)
    apply (rule wlp_andThen, rule wlp_weaken [OF is_locked_wlp])
    apply (elim conjE, hypsubst)
    apply (intro wlp_if wlp_refuse pass)
    apply blast
    done
qed (simp add: login_user_def wlp_refuse)

lemma clock_read_faults [simp]: "clock_read (w\<lparr>w_faults := fs\<rparr>) = clock_read w"
  and clock_moved_faults [simp]: "clock_read (clock_moved (w\<lparr>w_faults := fs\<rparr>)) = clock_read (clock_moved w)"
  by (cases "w_clock w"; simp add: clock_read_def clock_moved_def cong: list.case_cong)+

lemma authenticated_faults [simp]: "authenticated A (w\<lparr>w_faults := fs\<rparr>) req u = authenticated A w req u"
  by (cases "u_LockedUntil u") (simp_all add: authenticated_def after_lock_check_def)

text \<open>C5. A session is only ever opened for the account that authenticated: whatever faults strike, if
  \<open>Login\<close> returns a session, the named account of the tenant existed and was active, any lock of it had run out by
  the clock reading the lock check made, its stored hash verified the password, its second factor (if it has one) verified the
  submitted code at the next reading of the clock, and the session on record belongs to it, under the hash of the
  returned token, with the second factor noted exactly if there was one.\<close>

theorem login_is_authenticated:
  "wlp (Login S tenantID req)
     (\<lambda>se w'. \<exists>u\<in>set (w_users w). u_TenantID u = (if tenantID = uuid_Nil then DefaultTenantID else tenantID)
        \<and> authenticated (as_Lib S) w req u \<and> se_MFAVerified se = u_TOTPEnrolled u
        \<and> opened S u (u_TOTPEnrolled u) (se_Token se) (se_ExpiresAt se) w') w"
  unfolding Login_def GetByUsername_def Let_def
  by (intro wlp_intros; (simp only: sum.case)?; (intro wlp_intros)?; (rule wlp_weaken [OF login_user_wlp])?) auto

section \<open>Guessing is bounded\<close>

text \<open>No faults, and every clock reading of the run falls into the lockout period that starts at \<open>T\<close>.\<close>

definition in_window :: "gtime \<Rightarrow> 'h world \<Rightarrow> bool" where
  "in_window T w \<longleftrightarrow> w_faults w = [] \<and> T \<le> w_now w \<and> w_now w < T + LockoutDuration
     \<and> (\<forall>r\<in>set (w_clock w). T \<le> r \<and> r < T + LockoutDuration)"

definition named :: "uuid \<Rightarrow> string \<Rightarrow> user_row \<Rightarrow> bool" where
  "named t name u \<longleftrightarrow> u_TenantID u = t \<and> u_Username u = name"

text \<open>The account has at least \<open>k\<close> failed sign-ins, and is locked past the period once there are five.\<close>

definition struck :: "gtime \<Rightarrow> nat \<Rightarrow> uuid \<Rightarrow> string \<Rightarrow> uuid \<Rightarrow> 'h world \<Rightarrow> bool" where
  "struck T k t name uid w \<longleftrightarrow> in_window T w \<and> (\<exists>u. List.find (named t name) (w_users w) = Some u
     \<and> u_ID u = uid \<and> u_Active u \<and> int k \<le> u_FailedLogins u
     \<and> (5 \<le> k \<longrightarrow> (\<exists>x. u_LockedUntil u = Some x \<and> T + LockoutDuration \<le> x)))"

lemma find_upd_where:
  "(\<And>u. P (f u) = P u) \<Longrightarrow> List.find P (upd_where hit f xs) = map_option (\<lambda>u. if hit u then f u else u) (List.find P xs)"
  by (induction xs) (auto simp: upd_where_def)

lemma find_ID_SomeD: "List.find P xs = Some u \<Longrightarrow> P u"
  by (auto simp: find_Some_iff)

lemma strike_struck:
  fixes w :: "'h world" and m :: "('h, 'a) dbprog"
  assumes "struck T k t name uid w" and m: "m = strike t' uid reason"
  shows "fst (m w) = Inl ErrInvalidCredentials \<and> struck T (Suc k) t name uid (snd (m w))"
proof -
  from assms(1) obtain u where u: "in_window T w" "List.find (named t name) (w_users w) = Some u" "u_ID u = uid" "u_Active u"
    "int k \<le> u_FailedLogins u" by (auto simp: struck_def)
  let ?f = "\<lambda>u. u\<lparr>u_FailedLogins := u_FailedLogins u + 1,
        u_LockedUntil := (if u_FailedLogins u + 1 \<ge> MaxFailedLogins then Some (w_now w + LockoutDuration) else u_LockedUntil u)\<rparr>"
  let ?us = "upd_where (\<lambda>x. u_ID x = uid) ?f (w_users w)"
  have find: "List.find (named t name) ?us = Some (?f u)"
    using u(2,3) by (subst find_upd_where) (simp_all add: named_def)
  have f: "w_faults w = []" using u(1) by (simp add: in_window_def)
  obtain l where run: "m w = (Inl ErrInvalidCredentials, w\<lparr>w_users := ?us, w_audit := l\<rparr>)"
    using f by (simp add: m strike_def RecordFailedLogin_def update_users_def refuse_login_def auditLogin_def record_audit_def
        audit_Log_def ignoring_def prog_simps)
  have "T + LockoutDuration \<le> w_now w + LockoutDuration" using u(1) by (simp add: in_window_def)
  with u find show ?thesis
    unfolding run by (auto simp: struck_def in_window_def MaxFailedLogins_def)
qed

text \<open>A program that keeps the count and never claims that the credentials were wrong.\<close>

definition neutral :: "gtime \<Rightarrow> nat \<Rightarrow> uuid \<Rightarrow> string \<Rightarrow> uuid \<Rightarrow> ('h, 'a) dbprog \<Rightarrow> bool" where
  "neutral T k t name uid m \<longleftrightarrow>
     upholds (struck T k t name uid) m (\<lambda>r w. struck T k t name uid w \<and> r \<noteq> Inl ErrInvalidCredentials)"

text \<open>A refusal for wrong credentials has added a strike, and the other refusals have lost none.\<close>

definition counted :: "gtime \<Rightarrow> nat \<Rightarrow> uuid \<Rightarrow> string \<Rightarrow> uuid \<Rightarrow> ('h, 'a) dbprog \<Rightarrow> bool" where
  "counted T k t name uid m \<longleftrightarrow>
     upholds (struck T k t name uid) m (\<lambda>r w. (r = Inl ErrInvalidCredentials \<longrightarrow> struck T (Suc k) t name uid w)
       \<and> (r \<in> {Inl ErrSecondFactor, Inl ErrAccountLocked} \<longrightarrow> struck T k t name uid w))"

lemma counted_andThen:
  assumes "neutral T k t name uid m" and "\<And>x. counted T k t name uid (f x)"
  shows "counted T k t name uid (andThen m f)"
  unfolding counted_def
proof (rule upholds_andThen)
  show "upholds (struck T k t name uid) m (\<lambda>r w. struck T k t name uid w \<and> r \<noteq> Inl ErrInvalidCredentials)"
    using assms(1) by (simp add: neutral_def)
qed (use assms(2) in \<open>auto simp: counted_def upholds_def\<close>)

lemma counted_if: "counted T k t name uid m \<Longrightarrow> counted T k t name uid n \<Longrightarrow> counted T k t name uid (if b then m else n)"
  by simp

lemma counted_fail: "e \<noteq> ErrInvalidCredentials \<Longrightarrow> counted T k t name uid (fail e)"
  by (simp add: counted_def upholds_def fail_def)

lemma counted_strike: "counted T k t name uid (strike t' uid reason)"
  using strike_struck [OF _ refl] by (fastforce simp: counted_def upholds_def)

definition refusals :: "gerror set" where
  "refusals = {ErrInvalidCredentials, ErrSecondFactor, ErrAccountLocked}"

definition never_refuses :: "('h, 'a) dbprog \<Rightarrow> bool" where
  "never_refuses m \<longleftrightarrow> (\<forall>w. fst (m w) \<notin> Inl ` refusals)"

lemma never_refuses_andThen: "never_refuses m \<Longrightarrow> (\<And>x. never_refuses (f x)) \<Longrightarrow> never_refuses (andThen m f)"
  unfolding never_refuses_def andThen_def by (auto split: prod.splits sum.splits) (metis fst_conv imageI)

lemma never_refuses_intros:
  "never_refuses (ret x)" "e \<notin> refusals \<Longrightarrow> never_refuses (fail e)"
  "never_refuses m \<Longrightarrow> never_refuses n \<Longrightarrow> never_refuses (if b then m else n)"
  "(\<And>w. fst (q w) \<notin> Inl ` refusals) \<Longrightarrow> never_refuses (stmt q)"
  "never_refuses time_Now" "never_refuses uuid_New" "never_refuses draw" "never_refuses (record_audit ev)"
  by (auto simp: never_refuses_def refusals_def andThen_def ret_def fail_def stmt_def time_Now_def uuid_New_def draw_def record_audit_def
      ignoring_def attempt_def uncaught_def Let_def split: prod.splits sum.splits list.splits fault.splits)

lemma never_refuses_counted: "never_refuses m \<Longrightarrow> counted T k t name uid m"
  by (auto simp: never_refuses_def refusals_def counted_def upholds_def)

lemma never_refuses_open_session: "never_refuses (open_session S tenantID req u mfa)"
proof -
  have s: "never_refuses (select_one tab P)" for tab :: "'h world \<Rightarrow> 'r list" and P
    unfolding select_one_def by (intro never_refuses_intros never_refuses_andThen) (auto simp: refusals_def split: option.split)
  have "never_refuses (LoadSubject tenantID (u_ID u) :: ('h, subject) dbprog)"
    unfolding LoadSubject_def by (intro never_refuses_intros never_refuses_andThen s) (auto simp: refusals_def get_def)
  moreover have "never_refuses (createSession S u mfa ip :: ('h, string \<times> gtime) dbprog)" for ip
    unfolding createSession_def Let_def
    by (intro never_refuses_intros never_refuses_andThen) (auto intro!: never_refuses_intros never_refuses_andThen simp: refusals_def split: option.split if_splits)
  ultimately show ?thesis
    unfolding open_session_def RecordLogin_def update_users_def RoleNamesFor_def auditLogin_def
    by (auto intro!: never_refuses_intros never_refuses_andThen simp: refusals_def modify_def get_def split: prod.split)
qed

lemma neutral_steps:
  "neutral T k t name uid (ret x)" "neutral T k t name uid time_Now" "neutral T k t name uid draw"
  "e \<noteq> ErrInvalidCredentials \<Longrightarrow> neutral T k t name uid (fail e)"
  by (auto simp: neutral_def upholds_def ret_def fail_def time_Now_def draw_def struck_def in_window_def split: list.splits)

lemma neutral_attempt_lift: "neutral T k t name uid (attempt (lift v))"
  by (auto simp: neutral_def upholds_def attempt_def lift_def uncaught_def split: sum.split)

lemma neutral_andThen: "neutral T k t name uid m \<Longrightarrow> (\<And>x. neutral T k t name uid (f x)) \<Longrightarrow> neutral T k t name uid (andThen m f)"
  unfolding neutral_def
  by (rule upholds_andThen [where R = "\<lambda>r w. struck T k t name uid w \<and> r \<noteq> Inl ErrInvalidCredentials"]) (auto simp: upholds_def)

lemma andThen_strike: "andThen (strike t uid reason) g = strike t uid reason"
  by (simp add: strike_def refuse_login_def andThen_assoc andThen_fail)

lemma neutral_is_locked: "neutral T k t name uid (is_locked u)"
  unfolding is_locked_def by (cases "u_LockedUntil u") (auto intro!: neutral_andThen neutral_steps)

lemma neutral_rehash: "neutral T k t name uid (rehash S u pw)"
proof -
  have "neutral T k t name uid (ignoring (Users_SetPassword i h) :: ('h, unit) dbprog)" for i h
    unfolding neutral_def
  proof (rule upholdsI)
    fix w :: "'h world"
    assume w: "struck T k t name uid w"
    let ?f = "\<lambda>u. u\<lparr>u_PasswordHash := h, u_MustChangePW := False\<rparr>"
    have "w_faults w = []" using w by (simp add: struck_def in_window_def)
    then have run: "ignoring (Users_SetPassword i h) w = (Inr (), w\<lparr>w_users := upd_where (\<lambda>x. u_ID x = i) ?f (w_users w)\<rparr>)"
      by (simp add: Users_SetPassword_def update_users_def ignoring_def prog_simps)
    have "List.find (named t name) (upd_where (\<lambda>x. u_ID x = i) ?f (w_users w))
        = map_option (\<lambda>u. if u_ID u = i then ?f u else u) (List.find (named t name) (w_users w))"
      by (rule find_upd_where) (simp add: named_def)
    moreover obtain u where "List.find (named t name) (w_users w) = Some u" "u_ID u = uid" "u_Active u" "int k \<le> u_FailedLogins u"
      "5 \<le> k \<longrightarrow> (\<exists>x. u_LockedUntil u = Some x \<and> T + LockoutDuration \<le> x)"
      using w by (auto simp: struck_def)
    ultimately have "\<exists>v. List.find (named t name) (upd_where (\<lambda>x. u_ID x = i) ?f (w_users w)) = Some v \<and> u_ID v = uid
        \<and> u_Active v \<and> int k \<le> u_FailedLogins v
        \<and> (5 \<le> k \<longrightarrow> (\<exists>x. u_LockedUntil v = Some x \<and> T + LockoutDuration \<le> x))"
      by (cases "u_ID u = i") simp_all
    with w show "struck T k t name uid (snd (ignoring (Users_SetPassword i h) w)) \<and> fst (ignoring (Users_SetPassword i h) w) \<noteq> Inl ErrInvalidCredentials"
      unfolding run by (simp add: struck_def in_window_def)
  qed
  then show ?thesis
    unfolding rehash_def
    by (intro neutral_andThen neutral_steps) (auto intro: neutral_steps split: sum.split)
qed

lemma counted_login_user:
  assumes "u_Active u"
  shows "counted T k t name (u_ID u) (login_user S t' req u)"
proof -
  have "neutral T k t name (u_ID u) (record_audit ev :: ('h, unit) dbprog)" for ev
    by (auto simp: neutral_def upholds_def record_audit_def audit_Log_def ignoring_def struck_def in_window_def prog_simps)
  then have locked: "counted T k t name (u_ID u) (refuse_login t' i out r ErrAccountLocked :: ('h, session) dbprog)" for i out r
    unfolding refuse_login_def auditLogin_def
    by (intro counted_andThen) (auto simp: counted_def upholds_def fail_def)
  have pass: "counted T k t name (u_ID u) (andThen (second_factor S t' u (lr_TOTPCode req)) (open_session S t' req u) :: ('h, session) dbprog)"
    unfolding second_factor_def
    by (simp add: andThen_assoc andThen_ret andThen_fail andThen_strike if_distrib [of "\<lambda>m. andThen m _"] cong: if_cong)
      (intro conjI impI counted_andThen neutral_steps counted_if counted_strike never_refuses_counted [OF never_refuses_open_session]
         counted_fail; simp)
  show ?thesis
    unfolding login_user_def using assms
    by (auto intro!: counted_andThen neutral_is_locked neutral_attempt_lift neutral_steps neutral_rehash counted_strike
        locked pass split: sum.split)
qed

text \<open>A sequence of sign-ins, in the order they reach the server.\<close>

fun attempts :: "auth_service \<Rightarrow> uuid \<Rightarrow> login_request list \<Rightarrow> 'h world \<Rightarrow> session result list" where
  "attempts S t [] w = []"
| "attempts S t (req # reqs) w = (case Login S t req w of (r, w') \<Rightarrow> r # attempts S t reqs w')"

lemma Login_counted:
  assumes "t \<noteq> uuid_Nil" "lr_Username req = name" "struck T k t name uid w"
  shows "Login S t req w = (Inl ErrInvalidCredentials, w') \<Longrightarrow> struck T (Suc k) t name uid w'"
    and "Login S t req w = (Inl e, w') \<Longrightarrow> e \<in> {ErrSecondFactor, ErrAccountLocked} \<Longrightarrow> struck T k t name uid w'"
    and "5 \<le> k \<Longrightarrow> fst (Login S t req w) = Inl ErrAccountLocked"
proof -
  obtain u where u: "List.find (named t name) (w_users w) = Some u" "u_ID u = uid" "u_Active u" and f: "w_faults w = []"
    and k: "5 \<le> k \<longrightarrow> (\<exists>x. u_LockedUntil u = Some x \<and> T + LockoutDuration \<le> x)"
    and c: "w_now w < T + LockoutDuration" "\<forall>r\<in>set (w_clock w). r < T + LockoutDuration"
    using assms(3) by (auto simp: struck_def in_window_def)
  have run: "Login S t req w = login_user S t req u w"
    using u(1) f assms(1,2)
    by (simp add: Login_def GetByUsername_def select_one_def prog_simps named_def [abs_def])
  have cnt: "counted T k t name uid (login_user S t req u)"
    using counted_login_user [OF u(3), of T k t name S t req] u(2) by simp
  show "struck T (Suc k) t name uid w'" if "Login S t req w = (Inl ErrInvalidCredentials, w')"
    using that cnt assms(3) unfolding run by (auto simp: counted_def upholds_def)
  show "struck T k t name uid w'" if "Login S t req w = (Inl e, w')" "e \<in> {ErrSecondFactor, ErrAccountLocked}"
    using that cnt assms(3) unfolding run counted_def upholds_def by (metis fst_conv image_eqI insertE insert_iff singletonD snd_conv)
  show "fst (Login S t req w) = Inl ErrAccountLocked" if five: "5 \<le> k"
  proof -
    obtain x where x: "u_LockedUntil u = Some x" "T + LockoutDuration \<le> x" using k five by auto
    obtain r w'' where now: "time_Now w = (Inr r, w'')" "r < T + LockoutDuration" "w_faults w'' = []"
      using c f by (cases "w_clock w") (auto simp: time_Now_def)
    have "Locked r u" using x now(2) by (simp add: Locked_def)
    then show ?thesis
      unfolding run login_user_def using u(3) x(1) now
      by (simp add: is_locked_def refuse_login_def auditLogin_def record_audit_def audit_Log_def ignoring_def prog_simps)
  qed
qed

lemma attempts_bounded:
  assumes "t \<noteq> uuid_Nil" "\<forall>req\<in>set reqs. lr_Username req = name" "struck T k t name uid w" "k \<le> 5"
    and "set (attempts S t reqs w) \<subseteq> Inl ` refusals"
  shows "count_list (attempts S t reqs w) (Inl ErrInvalidCredentials) \<le> 5 - k"
  using assms
proof (induction reqs arbitrary: w k)
  case (Cons req reqs)
  obtain r w' where run: "Login S t req w = (r, w')" by (cases "Login S t req w")
  have name: "lr_Username req = name" and rest: "set (attempts S t reqs w') \<subseteq> Inl ` refusals" and "r \<in> Inl ` refusals"
    using Cons.prems(2,5) run by auto
  then consider "r = Inl ErrInvalidCredentials" | e where "r = Inl e" "e \<in> {ErrSecondFactor, ErrAccountLocked}"
    by (auto simp: refusals_def)
  then show ?case
  proof cases
    case 1
    have "\<not> 5 \<le> k" using Login_counted(3) [OF Cons.prems(1) name Cons.prems(3), of S] run 1 by auto
    moreover have "struck T (Suc k) t name uid w'"
      using Login_counted(1) [OF Cons.prems(1) name Cons.prems(3)] run 1 by blast
    ultimately show ?thesis
      using Cons.IH [where w = w' and k = "Suc k"] Cons.prems(1,2) rest run 1 by simp
  next
    case 2
    have "struck T k t name uid w'"
      using Login_counted(2) [OF Cons.prems(1) name Cons.prems(3)] run 2 by blast
    then show ?thesis
      using Cons.IH [where w = w' and k = k] Cons.prems(1,2,4) rest run 2 by auto
  qed
qed simp

text \<open>C14. Guessing is bounded: with no faults, in the fifteen minutes from \<open>T\<close> on, however many sign-ins name an
  active account of the tenant and are refused, at most five are refused for wrong credentials; every other
  one is told that the account is locked, or that a code is missing.\<close>

theorem guessing_is_bounded:
  assumes "in_window T w" and "List.find (named t name) (w_users w) = Some u" and "u_Active u" and "0 \<le> u_FailedLogins u"
    and "t \<noteq> uuid_Nil" and "\<forall>req\<in>set reqs. lr_Username req = name"
    and "set (attempts S t reqs w) \<subseteq> Inl ` refusals"
  shows "count_list (attempts S t reqs w) (Inl ErrInvalidCredentials) \<le> 5"
proof -
  have "struck T 0 t name (u_ID u) w" using assms by (simp add: struck_def)
  from attempts_bounded [OF assms(5,6) this _ assms(7)] show ?thesis by simp
qed

section \<open>Requests act with the rights on record\<close>

text \<open>What the roles and overrides of an account add up to.\<close>

definition rights :: "'h world \<Rightarrow> uuid \<Rightarrow> permission set" where
  "rights w uid = {p. (p \<in> set (concat (map ro_Permissions (roles_of w uid))) \<or> (uid, p, Allow) \<in> set (w_overrides w))
     \<and> (uid, p, Deny) \<notin> set (w_overrides w)}"

definition holder :: "'h world \<Rightarrow> subject \<Rightarrow> bool" where
  "holder w s \<longleftrightarrow> (\<exists>u\<in>set (w_users w). u_ID u = UserID s \<and> u_Active u)"

lemma LoadSubject_rights:
  assumes "\<And>fs s. UserID s = uid \<Longrightarrow> TokenID s = None \<Longrightarrow> MFAVerifiedAt s = None \<Longrightarrow> granted s - denied s = rights w uid \<Longrightarrow>
    Q s (w\<lparr>w_faults := fs\<rparr>)"
  shows "wlp (LoadSubject tenantID uid) Q w"
  unfolding LoadSubject_def
  apply (intro wlp_intros)
  apply (simp only: world.simps world.surjective [symmetric] cong del: if_cong)
  apply simp
  apply (rule assms)
     apply (simp_all add: NewSubject_def)
  by (auto simp: rights_def intro: rev_image_eqI)

lemma rights_cong:
  "w_overrides w' = w_overrides w \<Longrightarrow> w_roles w' = w_roles w \<Longrightarrow> w_userRoles w' = w_userRoles w \<Longrightarrow> rights w' uid = rights w uid"
  by (simp add: rights_def roles_of_def)

lemma wlp_touch: "(\<And>w'. Q () w') \<Longrightarrow> wlp (ignoring m) Q w"
  by (auto simp: wlp_def split: prod.split sum.split)

definition session_grant :: "auth_service \<Rightarrow> string \<Rightarrow> 'h world \<Rightarrow> subject \<Rightarrow> bool" where
  "session_grant S token w s \<longleftrightarrow> TokenID s = None \<and> granted s - denied s = rights w (UserID s)
     \<and> (\<exists>x\<in>set (w_sessions w). ss_TokenHash x = hashToken (as_Lib S) token \<and> ss_RevokedAt x = None
          \<and> w_now w < ss_ExpiresAt x \<and> ss_UserID x = UserID s \<and> ss_MFAVerifiedAt x = MFAVerifiedAt s)"

definition token_grant :: "auth_service \<Rightarrow> string \<Rightarrow> 'h world \<Rightarrow> subject \<Rightarrow> bool" where
  "token_grant S token w s \<longleftrightarrow> as_Tokens S \<and> MFAVerifiedAt s = None
     \<and> (\<exists>t\<in>set (w_tokens w). tk_Hash t = hashToken (as_Lib S) token \<and> tk_RevokedAt t = None
          \<and> (case tk_ExpiresAt t of None \<Rightarrow> True | Some e \<Rightarrow> clock_read w < e)
          \<and> tk_UserID t = Some (UserID s) \<and> TokenID s = Some (tk_ID t)
          \<and> (tk_Scopes t = [] \<or> Scopes s = tk_Scopes t)
          \<and> granted s - denied s = (if Permissions (tk_Permissions t) = [] then rights w (UserID s)
               else rights w (UserID s) \<inter> set (Permissions (tk_Permissions t))))"

text \<open>The four tables the rights are read from.\<close>

definition same_rights :: "'h world \<Rightarrow> 'h world \<Rightarrow> bool" where
  "same_rights w w' \<longleftrightarrow> w_users w' = w_users w \<and> w_roles w' = w_roles w \<and> w_userRoles w' = w_userRoles w
     \<and> w_overrides w' = w_overrides w"

lemma same_rights_users: "same_rights w w' \<Longrightarrow> w_users w' = w_users w"
  by (simp add: same_rights_def)

lemma same_rights_rights: "same_rights w w' \<Longrightarrow> rights w' uid = rights w uid"
  by (rule rights_cong) (simp_all add: same_rights_def)

lemma token_grantI:
  assumes "t \<in> set (w_tokens w)" "tk_Hash t = hashToken (as_Lib S) token" "Token_Active (clock_read w) t" "tk_UserID t = Some uid" "as_Tokens S"
    and "UserID s = uid" "MFAVerifiedAt s = None" "granted s - denied s = rights w uid"
  shows "token_grant S token w (token_subject t s)"
  unfolding token_grant_def using assms
  by (intro conjI bexI [where x = t])
    (auto simp: Token_Active_def token_subject_def Let_def Restrict_def fold_insert_if)

lemma token_subject_UserID [simp]: "UserID (token_subject t s) = UserID s"
  by (simp add: token_subject_def Let_def Restrict_def)

lemma as_owner_wlp:
  fixes w :: "'h world"
  assumes t: "t \<in> set (w_tokens w)" "tk_Hash t = hashToken (as_Lib S) token" "Token_Active (clock_read w) t" "tk_UserID t = Some uid" "as_Tokens S"
    and same: "same_rights w w'"
  shows "wlp (as_owner t uid) (\<lambda>s _. token_grant S token w s \<and> holder w s) w'"
proof -
  have found: "wlp (Users_Get (tk_TenantID t) uid) (\<lambda>u w''. u \<in> set (w_users w) \<and> u_ID u = uid \<and> same_rights w w'') w'"
    using same unfolding Users_Get_def by (intro wlp_intros) (auto simp: same_rights_def)
  have load: "wlp (andThen (LoadSubject (tk_TenantID t) uid) (\<lambda>s0.
         andThen (ignoring (TouchUsed (tk_ID t))) (\<lambda>_. ret (token_subject t s0))))
      (\<lambda>s _. token_grant S token w s \<and> holder w s) w''"
    if "u \<in> set (w_users w)" "u_ID u = uid" "u_Active u" "same_rights w w''" for u and w'' :: "'h world"
    using that same_rights_rights [OF that(4), of uid]
    by (intro wlp_andThen LoadSubject_rights wlp_touch wlp_ret conjI token_grantI [OF t])
      (auto simp: holder_def)
  show ?thesis
    unfolding as_owner_def
    by (intro wlp_andThen wlp_attempt wlp_weaken [OF found]; simp only: sum.case)
      (intro wlp_if wlp_fail load; auto)+
qed

lemma authenticateAPIToken_wlp:
  fixes w :: "'h world"
  shows "wlp (authenticateAPIToken S token) (\<lambda>s _. token_grant S token w s \<and> holder w s) w"
proof (cases "as_Tokens S")
  case True
  have active: "wlp (token_active t) (\<lambda>b w'. b = Token_Active (clock_read w) t \<and> same_rights w w') w'"
    if "same_rights w w'" "clock_read w' = clock_read w" for t and w' :: "'h world"
    unfolding token_active_def
    by (intro wlp_if wlp_ret wlp_andThen wlp_time_read)
      (use that in \<open>auto simp: Token_Active_def same_rights_def clock_moved_def split: list.split option.split\<close>)
  have found: "wlp (Tokens_ByHash h) (\<lambda>t w'. t \<in> set (w_tokens w) \<and> tk_Hash t = h \<and> same_rights w w' \<and> clock_read w' = clock_read w) w" for h
    unfolding Tokens_ByHash_def by (intro wlp_intros) (auto simp: same_rights_def)
  show ?thesis
    unfolding authenticateAPIToken_def if_not_P [OF not_not [THEN iffD2, OF True]]
  proof (intro wlp_andThen wlp_attempt, rule wlp_weaken [OF found], unfold sum.case)
    fix t and w' :: "'h world"
    assume t: "t \<in> set (w_tokens w) \<and> tk_Hash t = hashToken (as_Lib S) token \<and> same_rights w w' \<and> clock_read w' = clock_read w"
    show "wlp (andThen (token_active t) (\<lambda>active. case tk_UserID t of None \<Rightarrow> fail ErrSessionInvalid
        | Some uid \<Rightarrow> if \<not> active then fail ErrSessionInvalid else as_owner t uid))
      (\<lambda>s _. token_grant S token w s \<and> holder w s) w'"
      using t by (intro wlp_andThen wlp_weaken [OF active] wlp_case_option wlp_fail wlp_if) (auto intro: as_owner_wlp [OF _ _ _ _ True])
  qed (intro wlp_if wlp_fail)
qed (simp add: authenticateAPIToken_def wlp_fail)

text \<open>C7. A request is only ever served for an active account with rights that are on record: whatever faults
  strike, a subject that \<open>Authenticate\<close> returns holds exactly the permissions its roles and overrides add up to
  and comes from a session that is unrevoked and unexpired by the clock of the database, with the second factor the session
  noted; or it comes from an API token that is unrevoked and, at the reading of the clock the check made, unexpired;
  then it holds no more than the owner and the token both have, and carries no second factor.\<close>

theorem authenticate_is_sound:
  "wlp (Authenticate S token) (\<lambda>s _. holder w s
     \<and> (if prefix TokenPrefix token then token_grant S token w s else session_grant S token w s)) w"
proof (cases "token = [] \<or> prefix TokenPrefix token")
  case True
  then show ?thesis
    by (auto simp: Authenticate_def wlp_fail intro: wlp_weaken [OF authenticateAPIToken_wlp])
next
  case False
  have granted: "wlp (andThen (LoadSubject (u_TenantID u) (ss_UserID x)) (\<lambda>subject.
      ret (case ss_MFAVerifiedAt x of None \<Rightarrow> subject | Some t \<Rightarrow> subject\<lparr>MFAVerifiedAt := Some t\<rparr>)))
      (\<lambda>s _. holder w s \<and> session_grant S token w s) (w\<lparr>w_faults := fs\<rparr>)"
    if live: "live_session (hashToken (as_Lib S) token) (w\<lparr>w_faults := fs\<rparr>) = Some (x, u)" "u_Active u" for fs x u
  proof -
    have x: "x \<in> set (w_sessions w)" "ss_TokenHash x = hashToken (as_Lib S) token" "ss_RevokedAt x = None" "w_now w < ss_ExpiresAt x"
      and u: "u \<in> set (w_users w)" "u_ID u = ss_UserID x"
      using live by (auto simp: live_session_def find_Some_iff split: option.splits)
    have same: "rights (w\<lparr>w_faults := fs\<rparr>) uid = rights w uid" for uid by (rule rights_cong) simp_all
    show ?thesis
      by (intro wlp_andThen LoadSubject_rights wlp_ret)
        (use x u live(2) same in \<open>auto simp: session_grant_def holder_def split: option.split\<close>)
  qed
  have "wlp (case live_session (hashToken (as_Lib S) token) (w\<lparr>w_faults := fs\<rparr>) of None \<Rightarrow> fail ErrSessionInvalid
      | Some (s, u) \<Rightarrow> if \<not> u_Active u then fail ErrSessionInvalid
          else andThen (LoadSubject (u_TenantID u) (ss_UserID s)) (\<lambda>subject.
            ret (case ss_MFAVerifiedAt s of None \<Rightarrow> subject | Some t \<Rightarrow> subject\<lparr>MFAVerifiedAt := Some t\<rparr>)))
      (\<lambda>s _. holder w s \<and> session_grant S token w s) (w\<lparr>w_faults := fs\<rparr>)" for fs
    using granted by (auto simp: wlp_fail split: option.split)
  with False show ?thesis
    unfolding Authenticate_def by (simp, intro wlp_andThen wlp_stmt) (simp add: wlp_def)
qed

section \<open>Where the second factor falls short\<close>

lemma wlp_draw_codes [wlp_intros]: "(\<And>codes. Q codes (w\<lparr>w_next := w_next w + n\<rparr>)) \<Longrightarrow> wlp (draw_codes A n) Q w"
  by (auto simp: wlp_def draw_codes_def split: sum.split)

lemma space_len_plain: "list_all (\<lambda>u. c \<notin> set u) ps \<Longrightarrow> space_len ps (c # s) = 0"
proof -
  assume "list_all (\<lambda>u. c \<notin> set u) ps"
  then have "List.find (\<lambda>u. u \<noteq> [] \<and> prefix u (c # s)) ps = None"
    by (auto simp: find_None_iff list_all_iff prefix_Cons)
  then show ?thesis by (simp add: space_len_def)
qed

lemma trim_space_plain:
  assumes "\<And>c. c \<in> set s \<Longrightarrow> list_all (\<lambda>u. c \<notin> set u) white_space"
  shows "trim_space s = s"
proof -
  have *: "strip ps s' = s'" if "set s' \<subseteq> set s" "ps \<in> {white_space, map rev white_space}" for s' ps
  proof (cases s')
    case (Cons c r)
    then have "list_all (\<lambda>u. c \<notin> set u) ps" using assms [of c] that by (auto simp: list_all_iff)
    then show ?thesis by (simp add: Cons strip_id space_len_plain)
  qed (simp add: strip_id)
  show ?thesis using * [of s white_space] * [of "rev s" "map rev white_space"] by (simp add: trim_space_def)
qed

lemma recovery_code_trim:
  assumes "length raw = 10"
  shows "length (trim_space (recovery_code raw)) = 11"
proof -
  have "list_all (\<lambda>c. list_all (\<lambda>u. c \<notin> set u) white_space) (CHR ''-'' # recovery_alphabet)"
    by code_simp
  moreover have "set (recovery_code raw) \<subseteq> set (CHR ''-'' # recovery_alphabet)"
  proof -
    have "recovery_alphabet ! (n mod length recovery_alphabet) \<in> set recovery_alphabet" for n
      by (rule nth_mem) (simp add: recovery_alphabet_def)
    then show ?thesis by (auto simp: recovery_code_def Let_def dest!: in_set_takeD in_set_dropD)
  qed
  ultimately have "trim_space (recovery_code raw) = recovery_code raw"
    by (intro trim_space_plain) (auto simp: list_all_iff)
  with assms show ?thesis by (simp add: recovery_code_def Let_def)
qed

lemma keeps_users [keeps_intros]:
  "keeps (\<lambda>w. w_users w = us) time_Now" "keeps (\<lambda>w. w_users w = us) (record_audit ev)"
  by (auto simp: upholds_def time_Now_def record_audit_def audit_Log_def ignoring_def prog_simps stmt_def uncaught_def
      split: list.split fault.split)

text \<open>C37. Limits of the second factor.  An enrolled account cannot sign in with a recovery code, whatever the code;
  starting an enrolment needs no proof and turns off the factor that is enrolled; a code that signed in is not
  marked as used, so it signs in again; and guesses at the step-up prompt are not counted.\<close>

theorem second_factor_limits:
  "(if u_TOTPEnrolled u \<and> length raw = 10 then wlp (second_factor S t u (recovery_code raw)) (\<lambda>_ _. False) w else True)
   \<and> wlp (EnrolTOTP S s issuer) (\<lambda>_ w'. filter (\<lambda>x. u_ID x = UserID s \<and> u_TOTPEnrolled x) (w_users w') = []) w
   \<and> wlp (second_factor S t u code) (\<lambda>_ w'. w_users w' = w_users w) w
   \<and> keeps (\<lambda>w. w_users w = us) (VerifyStepUp S s token code)"
proof (intro conjI)
  show "if u_TOTPEnrolled u \<and> length raw = 10 then wlp (second_factor S t u (recovery_code raw)) (\<lambda>_ _. False) w else True"
  proof (cases "u_TOTPEnrolled u \<and> length raw = 10")
    case True
    have "\<not> VerifyTOTP A secret (recovery_code raw) now" for A secret now
      using recovery_code_trim True by (simp add: VerifyTOTP_def totpDigits_def)
    then show ?thesis
      unfolding second_factor_def using True by (auto intro!: wlp_intros)
  qed auto
  show "wlp (EnrolTOTP S s issuer) (\<lambda>_ w'. filter (\<lambda>x. u_ID x = UserID s \<and> u_TOTPEnrolled x) (w_users w') = []) w"
    unfolding EnrolTOTP_def SetTOTP_def Users_Get_def
    by (intro wlp_intros) (auto simp: upd_where_def filter_empty_conv)
  show "wlp (second_factor S t u code) (\<lambda>_ w'. w_users w' = w_users w) w"
    unfolding second_factor_def by (intro wlp_intros) auto
  show "keeps (\<lambda>w. w_users w = us) (VerifyStepUp S s token code)"
    unfolding VerifyStepUp_def Users_Get_def select_one_def logEvent_def
    by (intro keeps_intros keeps_stmt) (auto simp: ignores_faults_def modify_def upholds_def split: option.split)
qed

section \<open>Concrete runs\<close>

definition desk_user :: user_row where
  "desk_user = \<lparr>u_ID = 7, u_TenantID = 1, u_Username = ''ann'', u_Email = [], u_DisplayName = [], u_PasswordHash = ''unset'',
     u_TOTPSecret = [], u_TOTPEnrolled = False, u_RecoveryCodes = [], u_Active = True, u_MustChangePW = False, u_FailedLogins = 0,
     u_LockedUntil = None, u_LastLoginAt = None\<rparr>"

definition desk :: "unit world" where
  "desk = (blank ())\<lparr>w_users := [desk_user]\<rparr>"

definition guess :: login_request where
  "guess = \<lparr>lr_Username = ''ann'', lr_Password = ''x'', lr_TOTPCode = [], lr_IPAddress = []\<rparr>"

definition struck_desk :: "int \<Rightarrow> gtime option \<Rightarrow> audit_entry list \<Rightarrow> unit world" where
  "struck_desk n l a = desk\<lparr>w_users := [desk_user\<lparr>u_FailedLogins := n, u_LockedUntil := l\<rparr>], w_audit := a\<rparr>"

lemma guess_step:
  "\<exists>a'. Login S 1 guess (struck_desk n None a)
     = (Inl ErrInvalidCredentials, struck_desk (n + 1) (if n + 1 \<ge> 5 then Some LockoutDuration else None) a')"
  "\<exists>a'. Login S 1 guess (struck_desk n (Some LockoutDuration) a) = (Inl ErrAccountLocked, struck_desk n (Some LockoutDuration) a')"
proof -
  have bad: "VerifyPassword A pw ''unset'' p = Inl ErrInvalidHash" for A pw p
    by (simp add: VerifyPassword_def decodeHash_def Let_def)
  note run = struck_desk_def Login_def GetByUsername_def select_one_def login_user_def is_locked_def bad strike_def refuse_login_def
    auditLogin_def record_audit_def audit_Log_def ignoring_def RecordFailedLogin_def update_users_def MaxFailedLogins_def
    time_Now_def Locked_def upd_where_def desk_def blank_def desk_user_def guess_def uncaught_def ErrInvalidHash_def prog_simps
  show "\<exists>a'. Login S 1 guess (struck_desk n None a)
     = (Inl ErrInvalidCredentials, struck_desk (n + 1) (if n + 1 \<ge> 5 then Some LockoutDuration else None) a')"
    by (simp add: run)
  show "\<exists>a'. Login S 1 guess (struck_desk n (Some LockoutDuration) a) = (Inl ErrAccountLocked, struck_desk n (Some LockoutDuration) a')"
    by (simp add: run LockoutDuration_def)
qed

lemma guesses:
  "set (attempts S 1 (replicate k guess) (struck_desk n (if n \<ge> 5 then Some LockoutDuration else None) a)) \<subseteq> Inl ` refusals"
proof (induction k arbitrary: n a)
  case (Suc k)
  obtain a1 where 1: "Login S 1 guess (struck_desk n None a)
     = (Inl ErrInvalidCredentials, struck_desk (n + 1) (if n + 1 \<ge> 5 then Some LockoutDuration else None) a1)"
    using guess_step(1) by blast
  obtain a2 where 2: "Login S 1 guess (struck_desk n (Some LockoutDuration) a) = (Inl ErrAccountLocked, struck_desk n (Some LockoutDuration) a2)"
    using guess_step(2) by blast
  show ?case
    using Suc [of "n + 1" a1] Suc [of n a2] by (cases "n \<ge> 5") (auto simp: 1 2 refusals_def simp del: One_nat_def)
qed simp

theorem guessing_is_bounded_witness:
  "count_list (attempts (NewAuthService toy_auth Some 0) 1 (replicate 7 guess) desk) (Inl ErrInvalidCredentials) \<le> 5"
proof (rule guessing_is_bounded [where T = 0 and u = desk_user])
  show "set (attempts (NewAuthService toy_auth Some 0) 1 (replicate 7 guess) desk) \<subseteq> Inl ` refusals"
    using guesses [of _ 7 0 "[]"] by (simp add: struck_desk_def desk_def blank_def desk_user_def del: One_nat_def)
qed (simp_all add: desk_def blank_def desk_user_def in_window_def named_def LockoutDuration_def guess_def)

end
