(* ===== verification/UserService.thy ===== *)
theory UserService
  imports AuthService
begin

text \<open>
  Administration of accounts, role bindings and API tokens (\<open>internal/service/users.go\<close>).  The order in which Go
  walks a map is the parameter \<open>ord\<close>.
\<close>

section \<open>Helpers\<close>

definition MinPasswordLength :: nat where "MinPasswordLength = 12"

text \<open>How many bytes the first rune of a string takes; a malformed one is a byte.\<close>

definition cont_byte :: "nat \<Rightarrow> nat \<Rightarrow> string \<Rightarrow> nat \<Rightarrow> bool" where
  "cont_byte lo hi s i \<longleftrightarrow> i < length s \<and> lo \<le> byte (s ! i) \<and> byte (s ! i) \<le> hi"

definition rune_width :: "string \<Rightarrow> nat" where
  "rune_width s = (let b = byte (hd s); tail = cont_byte 0x80 0xBF s in
     if 0xC2 \<le> b \<and> b \<le> 0xDF \<and> tail 1 then 2
     else if 0xE0 \<le> b \<and> b \<le> 0xEF \<and> cont_byte (if b = 0xE0 then 0xA0 else 0x80) (if b = 0xED then 0x9F else 0xBF) s 1
       \<and> tail 2 then 3
     else if 0xF0 \<le> b \<and> b \<le> 0xF4 \<and> cont_byte (if b = 0xF0 then 0x90 else 0x80) (if b = 0xF4 then 0x8F else 0xBF) s 1
       \<and> tail 2 \<and> tail 3 then 4
     else 1)"

lemma rune_width_pos [simp]: "0 < rune_width s"
  by (simp add: rune_width_def Let_def)

function rune_count :: "string \<Rightarrow> nat" where
  "rune_count s = (if s = [] then 0 else Suc (rune_count (drop (rune_width s) s)))"
  by pat_completeness auto
termination by (relation "measure length") auto

declare rune_count.simps [simp del]

definition checkPassword :: "string \<Rightarrow> unit result" where
  "checkPassword password = (if rune_count password < MinPasswordLength then Inl ErrBadUser else Inr ())"

definition redact :: "user_row \<Rightarrow> user_row" where
  "redact u = u\<lparr>u_PasswordHash := [], u_TOTPSecret := [], u_RecoveryCodes := []\<rparr>"

definition newAPIToken :: "auth_lib \<Rightarrow> nat \<Rightarrow> (string \<times> string \<times> string) result" where
  "newAPIToken A i = (case ac_rand A i 32 of None \<Rightarrow> Inl (ErrOther ''service: generating token'')
     | Some raw \<Rightarrow> (let body = raw_url_encode raw; plaintext = TokenPrefix @ body in
         Inr (plaintext, TokenPrefix @ take 8 body, hex_encode (ac_sha256 A plaintext))))"

definition user_log :: "subject \<Rightarrow> string \<Rightarrow> uuid \<Rightarrow> string \<Rightarrow> ('h, unit) dbprog" where
  "user_log s action rid event = record_audit \<lparr>ae_TenantID = TenantID s, ae_ActorID = Some (UserID s), ae_Action = action,
     ae_ResourceID = Some rid, ae_Outcome = ''success'', ae_Phase = event\<rparr>"

definition role_ids :: "role_row list \<Rightarrow> string \<Rightarrow> uuid option" where
  "role_ids existing = map_of (rev (map (\<lambda>r. (ro_Name r, ro_ID r)) existing))"

text \<open>The names asked for, trimmed, without the empty ones; an unknown one is an error.\<close>

fun known_names :: "(string \<Rightarrow> uuid option) \<Rightarrow> string list \<Rightarrow> string list result" where
  "known_names byName [] = Inr []"
| "known_names byName (n # ns) = (let name = trim_space n in
     if name = [] then known_names byName ns
     else case byName name of None \<Rightarrow> Inl ErrBadUser
          | Some _ \<Rightarrow> bindR (known_names byName ns) (\<lambda>rest. Inr (name # rest)))"

text \<open>Indexing a map with an absent name gives the zero identifier.\<close>

definition id_of :: "(string \<Rightarrow> uuid option) \<Rightarrow> string \<Rightarrow> uuid" where
  "id_of byName name = (case byName name of None \<Rightarrow> uuid_Nil | Some i \<Rightarrow> i)"

definition resolveRoles :: "uuid \<Rightarrow> string list \<Rightarrow> ('h, uuid list) dbprog" where
  "resolveRoles tenantID names =
     (if length names = 0 then ret [] else
      andThen (ListRoles tenantID) (\<lambda>existing.
      andThen (lift (known_names (role_ids existing) names)) (\<lambda>known.
      ret (map (id_of (role_ids existing)) known))))"

definition setRoles :: "(string list \<Rightarrow> string list) \<Rightarrow> uuid \<Rightarrow> uuid \<Rightarrow> string list \<Rightarrow> ('h, unit) dbprog" where
  "setRoles ord tenantID userID names =
     andThen (ListRoles tenantID) (\<lambda>existing.
     andThen (lift (known_names (role_ids existing) names)) (\<lambda>wanted.
     andThen (RoleNamesFor userID) (\<lambda>current.
     andThen (forEach (ord (remdups wanted)) (\<lambda>name.
        if name \<notin> set current then GrantRole userID (id_of (role_ids existing) name) else ret ())) (\<lambda>_.
     forEach (ord (remdups current)) (\<lambda>name.
        if name \<notin> set wanted then RevokeRole userID (id_of (role_ids existing) name) else ret ())))))"

text \<open>The number of other active administrators; the inner loop stops at the first match.\<close>

definition count_admin :: "uuid \<Rightarrow> user_row \<Rightarrow> nat \<Rightarrow> ('h, nat) dbprog" where
  "count_admin uid u others =
     (if u_ID u = uid \<or> \<not> u_Active u then ret others else
      andThen (RoleNamesFor (u_ID u)) (\<lambda>roles. ret (if ''admin'' \<in> set roles then others + 1 else others)))"

definition assertNotLastAdmin :: "uuid \<Rightarrow> uuid \<Rightarrow> ('h, unit) dbprog" where
  "assertNotLastAdmin tenantID uid =
     andThen (Users_List tenantID) (\<lambda>users.
     andThen (foldEach users 0 (count_admin uid)) (\<lambda>others.
     if others = 0 then fail ErrBadUser else ret ()))"

definition assertRoleChangeIsSafe :: "subject \<Rightarrow> uuid \<Rightarrow> string list \<Rightarrow> ('h, unit) dbprog" where
  "assertRoleChangeIsSafe s uid roles =
     (if list_ex (\<lambda>r. r = ''admin'') roles then ret ()
      else if uid = UserID s then fail ErrBadUser
      else assertNotLastAdmin (TenantID s) uid)"

section \<open>Accounts\<close>

record user_detail =
  ud_User :: user_row
  ud_RoleNames :: "string list"

definition UserService_List :: "subject \<Rightarrow> ('h, user_detail list) dbprog" where
  "UserService_List s =
     andThen (lift (Require (Some s) PermUserRead)) (\<lambda>_.
     andThen (Users_List (TenantID s)) (\<lambda>users.
     foldEach users [] (\<lambda>u out.
       andThen (RoleNamesFor (u_ID u)) (\<lambda>roles. ret (out @ [\<lparr>ud_User = redact u, ud_RoleNames = roles\<rparr>])))))"

definition UserService_Get :: "subject \<Rightarrow> uuid \<Rightarrow> ('h, user_detail) dbprog" where
  "UserService_Get s uid =
     andThen (lift (Require (Some s) PermUserRead)) (\<lambda>_.
     andThen (Users_Get (TenantID s) uid) (\<lambda>u.
     andThen (RoleNamesFor uid) (\<lambda>roles.
     ret \<lparr>ud_User = redact u, ud_RoleNames = roles\<rparr>)))"

record create_user =
  cu_Username :: string
  cu_Email :: string
  cu_DisplayName :: string
  cu_Password :: string
  cu_Roles :: "string list"
  cu_MustChangePW :: bool
  cu_Active :: "bool option"

definition created_user :: "subject \<Rightarrow> create_user \<Rightarrow> string \<Rightarrow> string \<Rightarrow> user_row" where
  "created_user s req username hash = \<lparr>u_ID = uuid_Nil, u_TenantID = TenantID s, u_Username = username,
     u_Email = trim_space (cu_Email req), u_DisplayName = trim_space (cu_DisplayName req), u_PasswordHash = hash,
     u_TOTPSecret = [], u_TOTPEnrolled = False, u_RecoveryCodes = [],
     u_Active = (case cu_Active req of None \<Rightarrow> True | Some b \<Rightarrow> b), u_MustChangePW = cu_MustChangePW req,
     u_FailedLogins = 0, u_LockedUntil = None, u_LastLoginAt = None\<rparr>"

definition UserService_Create :: "auth_lib \<Rightarrow> subject \<Rightarrow> create_user \<Rightarrow> ('h, user_detail) dbprog" where
  "UserService_Create A s req =
     andThen (lift (Require (Some s) PermUserWrite)) (\<lambda>_.
     let username = trim_space (to_lower (cu_Username req)) in
     if username = [] then fail ErrBadUser else
     andThen (lift (checkPassword (cu_Password req))) (\<lambda>_.
     andThen (resolveRoles (TenantID s) (cu_Roles req)) (\<lambda>roleIDs.
     andThen draw (\<lambda>i.
     andThen (lift (HashPassword A i (cu_Password req) DefaultParams)) (\<lambda>hash.
     andThen (Users_Create (created_user s req username hash)) (\<lambda>user.
     andThen (forEach roleIDs (GrantRole (u_ID user))) (\<lambda>_.
     andThen (user_log s ''user.create'' (u_ID user) []) (\<lambda>_.
     UserService_Get s (u_ID user)))))))))"

record update_user =
  uu_Email :: "string option"
  uu_DisplayName :: "string option"
  uu_Active :: "bool option"
  uu_MustChangePW :: "bool option"
  uu_Roles :: "string list option"
  uu_Unlock :: bool

definition or_else :: "'a option \<Rightarrow> 'a \<Rightarrow> 'a" where
  "or_else v d = (case v of None \<Rightarrow> d | Some x \<Rightarrow> x)"

definition change_roles :: "(string list \<Rightarrow> string list) \<Rightarrow> subject \<Rightarrow> uuid \<Rightarrow> string list option \<Rightarrow> ('h, unit) dbprog" where
  "change_roles ord s uid roles = (case roles of None \<Rightarrow> ret ()
     | Some names \<Rightarrow>
         andThen (assertRoleChangeIsSafe s uid names) (\<lambda>_.
         setRoles ord (TenantID s) uid names))"

definition Update :: "(string list \<Rightarrow> string list) \<Rightarrow> subject \<Rightarrow> uuid \<Rightarrow> update_user \<Rightarrow> ('h, user_detail) dbprog" where
  "Update ord s uid req =
     andThen (lift (Require (Some s) PermUserWrite)) (\<lambda>_.
     andThen (Users_Get (TenantID s) uid) (\<lambda>user.
     if uu_Active req = Some False \<and> uid = UserID s then fail ErrBadUser else
     andThen (if uu_Active req = Some False \<and> u_Active user then assertNotLastAdmin (TenantID s) uid else ret ()) (\<lambda>_.
     andThen (UpdateProfile (TenantID s) uid (or_else (map_option trim_space (uu_Email req)) (u_Email user))
        (or_else (map_option trim_space (uu_DisplayName req)) (u_DisplayName user))
        (or_else (uu_Active req) (u_Active user)) (or_else (uu_MustChangePW req) (u_MustChangePW user)) (uu_Unlock req)) (\<lambda>_.
     andThen (change_roles ord s uid (uu_Roles req)) (\<lambda>_.
     andThen (user_log s ''user.update'' uid []) (\<lambda>_.
     UserService_Get s uid))))))"

text \<open>What follows the read of the account.\<close>

definition replace_password :: "auth_lib \<Rightarrow> subject \<Rightarrow> uuid \<Rightarrow> string \<Rightarrow> string \<Rightarrow> bool \<Rightarrow> user_row \<Rightarrow> ('h, unit) dbprog" where
  "replace_password A s uid oldpw password mustChange0 user =
     andThen (if uid \<noteq> UserID s then ret mustChange0 else
        andThen (attempt (lift (VerifyPassword A oldpw (u_PasswordHash user) DefaultParams))) (\<lambda>v.
        case v of Inl e \<Rightarrow> fail ErrInvalidCredentials
        | Inr (ok, _) \<Rightarrow> if \<not> ok then fail ErrInvalidCredentials else ret False)) (\<lambda>mustChange.
     andThen (lift (checkPassword password)) (\<lambda>_.
     andThen draw (\<lambda>i.
     andThen (lift (HashPassword A i password DefaultParams)) (\<lambda>hash.
     andThen (Users_SetPassword uid hash) (\<lambda>_.
     andThen (UpdateProfile (TenantID s) uid (u_Email user) (u_DisplayName user) (u_Active user) mustChange True) (\<lambda>_.
     user_log s ''user.update'' uid ''password_reset''))))))"

definition SetPassword :: "auth_lib \<Rightarrow> subject \<Rightarrow> uuid \<Rightarrow> string \<Rightarrow> string \<Rightarrow> bool \<Rightarrow> ('h, unit) dbprog" where
  "SetPassword A s uid oldpw password mustChange =
     andThen (if uid = UserID s then ret () else lift (Require (Some s) PermUserWrite)) (\<lambda>_.
     andThen (Users_Get (TenantID s) uid) (\<lambda>user.
     replace_password A s uid oldpw password mustChange user))"

definition ResetTOTP :: "subject \<Rightarrow> uuid \<Rightarrow> ('h, unit) dbprog" where
  "ResetTOTP s uid =
     andThen (lift (Require (Some s) PermUserWrite)) (\<lambda>_.
     if uid = UserID s then fail ErrBadUser else
     andThen (Users_Get (TenantID s) uid) (\<lambda>_.
     andThen (SetTOTP uid [] False []) (\<lambda>_.
     user_log s ''user.update'' uid ''totp_reset'')))"

definition UserService_Delete :: "subject \<Rightarrow> uuid \<Rightarrow> ('h, unit) dbprog" where
  "UserService_Delete s uid =
     andThen (lift (Require (Some s) PermUserWrite)) (\<lambda>_.
     if uid = UserID s then fail ErrBadUser else
     andThen (Users_Get (TenantID s) uid) (\<lambda>_.
     andThen (assertNotLastAdmin (TenantID s) uid) (\<lambda>_.
     andThen (Users_Delete (TenantID s) uid) (\<lambda>_.
     user_log s ''user.update'' uid ''deleted''))))"

definition UserService_ListRoles :: "subject \<Rightarrow> ('h, role_row list) dbprog" where
  "UserService_ListRoles s = andThen (lift (Require (Some s) PermRoleRead)) (\<lambda>_. ListRoles (TenantID s))"

section \<open>API tokens\<close>

record create_token =
  ct_Name :: string
  ct_Permissions :: "string list"
  ct_Scopes :: "string list"
  ct_ExpiresIn :: string
  ct_UserID :: string

definition ListTokens :: "subject \<Rightarrow> ('h, token_row list) dbprog" where
  "ListTokens s = andThen (lift (Require (Some s) PermTokenRead)) (\<lambda>_. Tokens_List (TenantID s) None)"

definition token_owner :: "auth_lib \<Rightarrow> subject \<Rightarrow> string \<Rightarrow> uuid result" where
  "token_owner A s user =
     (if user = [] then Inr (UserID s) else
      case ac_uuid_Parse A user of None \<Rightarrow> Inl ErrBadUser
      | Some parsed \<Rightarrow> if parsed \<noteq> UserID s then bindR (Require (Some s) PermUserWrite) (\<lambda>_. Inr parsed) else Inr parsed)"

definition token_expiry :: "auth_lib \<Rightarrow> string \<Rightarrow> ('h, gtime option) dbprog" where
  "token_expiry A text =
     (if text = [] then ret None else
      case ac_ParseDuration A text of None \<Rightarrow> fail ErrBadUser
      | Some d \<Rightarrow> if d \<le> 0 then fail ErrBadUser else andThen time_Now (\<lambda>now. ret (Some (now + d))))"

definition CreateToken :: "auth_lib \<Rightarrow> subject \<Rightarrow> create_token \<Rightarrow> ('h, token_row \<times> string) dbprog" where
  "CreateToken A s req =
     andThen (lift (Require (Some s) PermTokenWrite)) (\<lambda>_.
     if trim_space (ct_Name req) = [] then fail ErrBadUser else
     andThen (lift (token_owner A s (ct_UserID req))) (\<lambda>owner.
     andThen (LoadSubject (TenantID s) owner) (\<lambda>ownerSubject.
     if \<not> list_all (\<lambda>p. Can (Some ownerSubject) p) (ct_Permissions req) then fail ErrBadUser else
     andThen (token_expiry A (ct_ExpiresIn req)) (\<lambda>expiresAt.
     andThen draw (\<lambda>i.
     andThen (lift (newAPIToken A i)) (\<lambda>(plaintext, pre, hash).
     andThen (Tokens_Create \<lparr>tk_ID = uuid_Nil, tk_TenantID = TenantID s, tk_UserID = Some owner, tk_Name = trim_space (ct_Name req),
        tk_Hash = [], tk_Prefix = pre, tk_Permissions = ct_Permissions req, tk_Scopes = ct_Scopes req, tk_ExpiresAt = expiresAt,
        tk_LastUsedAt = None, tk_RevokedAt = None, tk_CreatedBy = Some (UserID s), tk_CreatedAt = 0\<rparr> hash) (\<lambda>token.
     andThen (user_log s ''api_token.create'' (tk_ID token) []) (\<lambda>_.
     ret (token, plaintext)))))))))"

definition RevokeToken :: "subject \<Rightarrow> uuid \<Rightarrow> ('h, unit) dbprog" where
  "RevokeToken s tid =
     andThen (lift (Require (Some s) PermTokenWrite)) (\<lambda>_.
     andThen (Tokens_Get (TenantID s) tid) (\<lambda>_.
     andThen (Tokens_Revoke (TenantID s) tid) (\<lambda>_.
     user_log s ''api_token.revoke'' tid [])))"

definition DeleteToken :: "subject \<Rightarrow> uuid \<Rightarrow> ('h, unit) dbprog" where
  "DeleteToken s tid =
     andThen (lift (Require (Some s) PermTokenWrite)) (\<lambda>_.
     andThen (Tokens_Get (TenantID s) tid) (\<lambda>_.
     andThen (Tokens_Delete (TenantID s) tid) (\<lambda>_.
     user_log s ''api_token.revoke'' tid ''deleted'')))"

end
