(* ===== verification/UserSafety.thy ===== *)
theory UserSafety
  imports UserService
begin

text \<open>
  The console never locks itself out: every operation on accounts and tokens leaves an active administrator in
  the tenant, whatever faults strike.  The check and the change are separate statements, so two requests at the
  same time may still do it; the last section shows how.
\<close>

section \<open>The invariant\<close>

text \<open>The primary keys of the two tables, and that identifiers are handed out once.\<close>

definition tidy :: "'h world \<Rightarrow> bool" where
  "tidy w \<longleftrightarrow> distinct (map u_ID (w_users w)) \<and> list_all (\<lambda>u. u_ID u < w_next w) (w_users w)
     \<and> distinct (map ro_ID (w_roles w)) \<and> list_all (\<lambda>r. ro_ID r \<noteq> uuid_Nil) (w_roles w)"

text \<open>Account \<open>a\<close> is an active administrator of the tenant.\<close>

definition admin_of :: "uuid \<Rightarrow> 'h world \<Rightarrow> uuid \<Rightarrow> bool" where
  "admin_of t w a \<longleftrightarrow> list_ex (\<lambda>u. u_ID u = a \<and> u_TenantID u = t \<and> u_Active u) (w_users w)
     \<and> list_ex (\<lambda>r. ro_Name r = ''admin'' \<and> (a, ro_ID r) \<in> set (w_userRoles w)) (w_roles w)"

definition seat :: "uuid \<Rightarrow> uuid \<Rightarrow> 'h world \<Rightarrow> bool" where
  "seat t a w \<longleftrightarrow> tidy w \<and> admin_of t w a"

definition administered :: "uuid \<Rightarrow> 'h world \<Rightarrow> bool" where
  "administered t w \<longleftrightarrow> (\<exists>a. seat t a w)"

lemma seat_ignores_faults [simp]: "ignores_faults (seat t a)"
  by (simp add: ignores_faults_def seat_def tidy_def admin_of_def)

lemma admin_of_roles: "admin_of t w a \<longleftrightarrow>
    list_ex (\<lambda>u. u_ID u = a \<and> u_TenantID u = t \<and> u_Active u) (w_users w) \<and> ''admin'' \<in> set (map ro_Name (roles_of w a))"
  by (force simp: admin_of_def roles_of_def list_ex_iff)

lemma keeps_administered: "(\<And>a. keeps (seat t a) m) \<Longrightarrow> keeps (administered t) m"
  by (auto simp: upholds_def administered_def)

named_theorems seat_intros "operations that leave an administrator in place"

lemma seat_time [seat_intros]: "keeps (seat t a) time_Now"
  and seat_uuid [seat_intros]: "keeps (seat t a) uuid_New"
  and seat_draw [seat_intros]: "keeps (seat t a) draw"
  by (auto simp: upholds_def time_Now_def uuid_New_def draw_def seat_def tidy_def admin_of_def list_all_iff less_SucI
      split: list.split)

lemma seat_get [seat_intros]: "keeps (seat t a) (stmt (get f))"
  by (intro keeps_stmt keeps_get) simp

lemma seat_select [seat_intros]: "keeps (seat t a) (select_one tab P)"
  by (intro keeps_select_one) simp

lemma seat_log [seat_intros]: "keeps (seat t a) (user_log s action rid event)"
  unfolding user_log_def record_audit_def audit_Log_def
  by (intro keeps_ignoring keeps_stmt keeps_modify) (simp_all add: seat_def tidy_def admin_of_def)

lemma seat_reads [seat_intros]:
  "keeps (seat t a) (Users_List tn)" "keeps (seat t a) (RoleNamesFor uid)" "keeps (seat t a) (ListRoles tn)"
  "keeps (seat t a) (Users_Get tn uid)" "keeps (seat t a) (LoadSubject tn uid)" "keeps (seat t a) (Tokens_Get tn uid)"
  unfolding Users_List_def RoleNamesFor_def ListRoles_def Users_Get_def LoadSubject_def Tokens_Get_def
  by (intro seat_intros keeps_intros)+

lemma seat_counts [seat_intros]: "keeps (seat t a) (assertNotLastAdmin tn uid)"
  unfolding assertNotLastAdmin_def count_admin_def by (intro seat_intros keeps_intros)

text \<open>An update of accounts that deactivates no administrator.\<close>

lemma seat_upd_where:
  assumes "seat t a w" "\<And>u. u_ID (f u) = u_ID u \<and> u_TenantID (f u) = u_TenantID u"
    and "\<And>u. hit u \<Longrightarrow> u_ID u = a \<Longrightarrow> u_Active u \<Longrightarrow> u_Active (f u)"
  shows "seat t a (w\<lparr>w_users := upd_where hit f (w_users w)\<rparr>)"
proof -
  have "map u_ID (upd_where hit f us) = map u_ID us" for us
    using assms(2) by (simp add: upd_where_def)
  moreover have "list_all (\<lambda>u. u_ID u < w_next w) (upd_where hit f us) = list_all (\<lambda>u. u_ID u < w_next w) us" for us
    using assms(2) by (induction us) (auto simp: upd_where_def)
  moreover have "list_ex (\<lambda>u. u_ID u = a \<and> u_TenantID u = t \<and> u_Active u) us \<Longrightarrow>
      list_ex (\<lambda>u. u_ID u = a \<and> u_TenantID u = t \<and> u_Active u) (upd_where hit f us)" for us
    using assms(2,3) by (induction us) (auto simp: upd_where_def)
  ultimately show ?thesis using assms(1) by (simp add: seat_def tidy_def admin_of_def)
qed

lemma seat_SetPassword [seat_intros]: "keeps (seat t a) (Users_SetPassword uid hash)"
  and seat_SetTOTP [seat_intros]: "keeps (seat t a) (SetTOTP uid secret enrolled codes)"
  unfolding Users_SetPassword_def SetTOTP_def update_users_def
  by (intro keeps_stmt keeps_modify seat_upd_where; simp)+

lemma seat_UpdateProfile:
  assumes "act \<or> uid \<noteq> a"
  shows "keeps (seat t a) (UpdateProfile tn uid email name act pw unlock)"
  unfolding UpdateProfile_def Let_def
  by (intro keeps_exec_affecting seat_upd_where) (use assms in auto)

lemma seat_Users_Delete:
  assumes "uid \<noteq> a"
  shows "keeps (seat t a) (Users_Delete tn uid)"
  unfolding Users_Delete_def Let_def
proof (intro keeps_exec_affecting)
  fix w :: "'a world" assume "seat t a w"
  with assms show "seat t a (cascade_user uid w\<lparr>w_users := filter (\<lambda>u. \<not> (u_TenantID u = tn \<and> u_ID u = uid)) (w_users w)\<rparr>)"
    by (auto simp: seat_def tidy_def admin_of_def cascade_user_def list_ex_iff list_all_iff distinct_map
        inj_on_def intro!: distinct_filter)
qed simp

lemma seat_GrantRole [seat_intros]: "keeps (seat t a) (GrantRole uid rid)"
  unfolding GrantRole_def
  by (intro keeps_stmt) (auto simp: upholds_def seat_def tidy_def admin_of_def list_ex_iff)

text \<open>Taking a role away: of another account, or a role that is not the administrator's.\<close>

lemma seat_RevokeRole:
  assumes "uid \<noteq> a"
  shows "keeps (seat t a) (RevokeRole uid rid)"
  unfolding RevokeRole_def
  by (intro keeps_stmt keeps_modify) (use assms in \<open>auto simp: seat_def tidy_def admin_of_def list_ex_iff\<close>)

lemma seat_Users_Create [seat_intros]:
  assumes "u_ID u = uuid_Nil"
  shows "keeps (seat t a) (Users_Create u)"
  unfolding Users_Create_def assms Let_def if_P [OF refl]
proof (rule upholds_andThen)
  let ?J = "\<lambda>i w. seat t a w \<and> i < w_next w \<and> list_all (\<lambda>u. u_ID u \<noteq> i) (w_users w)"
  show "upholds (seat t a) uuid_New (\<lambda>r w. case r of Inl e \<Rightarrow> seat t a w | Inr i \<Rightarrow> ?J i w)"
    by (auto simp: upholds_def uuid_New_def seat_def tidy_def admin_of_def list_all_iff less_SucI)
  fix i
  have [simp]: "ignores_faults (?J i)" by (simp add: ignores_faults_def seat_def tidy_def admin_of_def)
  show "upholds (\<lambda>w. case Inr i of Inl e \<Rightarrow> seat t a w | Inr i \<Rightarrow> ?J i w) (stmt (\<lambda>w.
      if list_ex (\<lambda>x. u_TenantID x = u_TenantID (u\<lparr>u_ID := i, u_TenantID := if u_TenantID u = uuid_Nil then DefaultTenantID else u_TenantID u,
            u_FailedLogins := 0, u_LockedUntil := None, u_LastLoginAt := None\<rparr>)
          \<and> u_Username x = u_Username (u\<lparr>u_ID := i, u_TenantID := if u_TenantID u = uuid_Nil then DefaultTenantID else u_TenantID u,
            u_FailedLogins := 0, u_LockedUntil := None, u_LastLoginAt := None\<rparr>)) (w_users w)
      then (Inl ErrConflict, w)
      else (Inr (u\<lparr>u_ID := i, u_TenantID := if u_TenantID u = uuid_Nil then DefaultTenantID else u_TenantID u,
            u_FailedLogins := 0, u_LockedUntil := None, u_LastLoginAt := None\<rparr>),
          w\<lparr>w_users := w_users w @ [u\<lparr>u_ID := i, u_TenantID := if u_TenantID u = uuid_Nil then DefaultTenantID else u_TenantID u,
            u_FailedLogins := 0, u_LockedUntil := None, u_LastLoginAt := None\<rparr>]\<rparr>))) (\<lambda>_. seat t a)"
    by (rule upholds_stmt) (auto simp: seat_def tidy_def admin_of_def list_all_iff ignores_faults_def)
qed simp

lemma seat_tokens [seat_intros]:
  "keeps (seat t a) (Tokens_Create row hash)" "keeps (seat t a) (Tokens_Revoke tn tid)" "keeps (seat t a) (Tokens_Delete tn tid)"
  unfolding Tokens_Create_def Tokens_Revoke_def Tokens_Delete_def Let_def
  by (intro seat_intros keeps_intros keeps_exec_affecting keeps_stmt; auto simp: seat_def tidy_def admin_of_def upholds_def)+

section \<open>Checking before changing\<close>

text \<open>After the check there is an administrator other than the account in question.\<close>

definition other_admin :: "uuid \<Rightarrow> uuid \<Rightarrow> 'h world \<Rightarrow> bool" where
  "other_admin t uid w \<longleftrightarrow> (\<exists>a. a \<noteq> uid \<and> seat t a w)"

lemma count_admin_wlp:
  fixes w :: "'h world"
  assumes "R n" and "u_ID u \<noteq> uid \<Longrightarrow> u_Active u \<Longrightarrow> ''admin'' \<in> set (map ro_Name (roles_of w (u_ID u))) \<Longrightarrow> R (n + 1)"
    and "\<exists>fs. w' = w\<lparr>w_faults := fs\<rparr>"
  shows "wlp (count_admin uid u n) (\<lambda>m w''. R m \<and> (\<exists>fs. w'' = w\<lparr>w_faults := fs\<rparr>)) w'"
  unfolding count_admin_def RoleNamesFor_def using assms
  by (auto intro!: wlp_intros simp: roles_of_def)

lemma assert_wlp:
  fixes w :: "'h world"
  assumes "tidy w"
  shows "wlp (assertNotLastAdmin t uid) (\<lambda>_ w'. other_admin t uid w') w"
proof -
  let ?us = "sort_key u_Username (filter (\<lambda>u. u_TenantID u = t) (w_users w))"
  let ?R = "\<lambda>m :: nat. if m = 0 then True else \<exists>u\<in>set ?us. u_ID u \<noteq> uid \<and> u_Active u \<and> ''admin'' \<in> set (map ro_Name (roles_of w (u_ID u)))"
  have loop: "wlp (foldEach ?us 0 (count_admin uid)) (\<lambda>m w'. ?R m \<and> (\<exists>fs. w' = w\<lparr>w_faults := fs\<rparr>)) w'"
    if "\<exists>fs. w' = w\<lparr>w_faults := fs\<rparr>" for w'
  proof (rule wlp_foldEach [where R = ?R])
    fix u m and w' :: "'h world"
    assume m: "?R m" and w': "\<exists>fs. w' = w\<lparr>w_faults := fs\<rparr>" and u: "u \<in> set ?us"
    show "wlp (count_admin uid u m) (\<lambda>m w'. ?R m \<and> (\<exists>fs. w' = w\<lparr>w_faults := fs\<rparr>)) w'"
      by (rule count_admin_wlp [where R = ?R, OF m _ w']) (use u in auto)
  qed (use that in auto)
  have other: "other_admin t uid (w\<lparr>w_faults := fs\<rparr>)" if R: "?R m" and m: "m \<noteq> 0" for m fs
  proof -
    obtain u where "u \<in> set ?us" "u_ID u \<noteq> uid" "u_Active u" "''admin'' \<in> set (map ro_Name (roles_of w (u_ID u)))"
      using R m by auto
    then have "u_ID u \<noteq> uid \<and> seat t (u_ID u) (w\<lparr>w_faults := fs\<rparr>)"
      using assms unfolding seat_def admin_of_roles by (auto simp: tidy_def list_ex_iff)
    then show ?thesis unfolding other_admin_def by blast
  qed
  show ?thesis
    unfolding assertNotLastAdmin_def Users_List_def
    apply (intro wlp_andThen wlp_stmt wlp_get)
    apply (rule wlp_weaken [where P = "\<lambda>m w'. ?R m \<and> (\<exists>fs. w' = w\<lparr>w_faults := fs\<rparr>)"])
     apply (simp del: set_sort)
     apply (rule loop [simplified], blast)
    using other by (auto intro!: wlp_if wlp_fail wlp_ret)
qed

lemma assert_then:
  fixes m :: "('h, 'b) dbprog"
  assumes "\<And>a. a \<noteq> uid \<Longrightarrow> keeps (seat t a) m"
  shows "keeps (administered t) (andThen (assertNotLastAdmin t uid) (\<lambda>_. m))"
proof -
  define R :: "unit result \<Rightarrow> 'h world \<Rightarrow> bool"
    where "R r w = (case r of Inl e \<Rightarrow> administered t w | Inr _ \<Rightarrow> other_admin t uid w)" for r w
  have "R (fst (assertNotLastAdmin t uid w)) (snd (assertNotLastAdmin t uid w))" if adm: "administered t w" for w
  proof -
    have "keeps (administered t) (assertNotLastAdmin t uid)" by (intro keeps_administered seat_intros)
    moreover have "wlp (assertNotLastAdmin t uid) (\<lambda>_ w'. other_admin t uid w') w"
      using adm by (intro assert_wlp) (auto simp: administered_def seat_def)
    ultimately show ?thesis
      using adm by (auto simp: R_def upholds_def wlp_def split: sum.split prod.splits)
  qed
  then have "upholds (administered t) (assertNotLastAdmin t uid) R" by (simp add: upholds_def)
  moreover have "upholds (R (Inr x)) m (\<lambda>_. administered t)" for x
    using assms by (auto simp: R_def upholds_def other_admin_def administered_def)
  ultimately show ?thesis by (rule upholds_andThen) (simp add: R_def)
qed

section \<open>Role changes\<close>

lemma seat_setRoles_other:
  assumes "uid \<noteq> a"
  shows "keeps (seat t a) (setRoles ord tn uid names)"
  unfolding setRoles_def by (intro seat_intros keeps_intros seat_RevokeRole assms)

text \<open>The roles table does not change while bindings do.\<close>

definition seat_with :: "uuid \<Rightarrow> uuid \<Rightarrow> role_row list \<Rightarrow> 'h world \<Rightarrow> bool" where
  "seat_with t a rs w \<longleftrightarrow> seat t a w \<and> w_roles w = rs"

lemma seat_with_faults [simp]: "ignores_faults (seat_with t a rs)"
  by (simp add: ignores_faults_def seat_with_def seat_def tidy_def admin_of_def)

lemma known_names_mem: "known_names byName ns = Inr ks \<Longrightarrow> n \<in> set ns \<Longrightarrow> trim_space n = n \<Longrightarrow> n \<noteq> [] \<Longrightarrow> n \<in> set ks"
  by (induction byName ns arbitrary: ks rule: known_names.induct) (auto simp: Let_def split: if_splits option.splits)

lemma id_of_other_role:
  assumes "distinct (map ro_ID rs)" "list_all (\<lambda>r. ro_ID r \<noteq> uuid_Nil) rs" "r \<in> set rs" "ro_Name r \<noteq> name" "set existing \<subseteq> set rs"
  shows "id_of (role_ids existing) name \<noteq> ro_ID r"
proof (cases "role_ids existing name")
  case None
  with assms(2,3) show ?thesis by (auto simp: id_of_def list_all_iff)
next
  case (Some i)
  then obtain r' where "r' \<in> set existing" "ro_Name r' = name" "ro_ID r' = i"
    by (auto simp: role_ids_def dest!: map_of_SomeD)
  with assms Some show ?thesis by (auto simp: id_of_def distinct_map inj_on_def)
qed

lemma seat_with_revoke:
  fixes rs :: "role_row list"
  assumes "name \<noteq> ''admin''" "set existing \<subseteq> set rs"
  shows "keeps (seat_with t a rs) (RevokeRole uid (id_of (role_ids existing) name) :: ('h, unit) dbprog)"
  unfolding RevokeRole_def
proof (intro keeps_stmt keeps_modify)
  fix w :: "'h world"
  assume w: "seat_with t a rs w"
  then have rs: "distinct (map ro_ID rs)" "list_all (\<lambda>r. ro_ID r \<noteq> uuid_Nil) rs"
    and "list_ex (\<lambda>r. ro_Name r = ''admin'' \<and> (a, ro_ID r) \<in> set (w_userRoles w)) rs"
    unfolding seat_with_def seat_def tidy_def admin_of_def by blast+
  then obtain r where r: "r \<in> set rs" "ro_Name r = ''admin''" "(a, ro_ID r) \<in> set (w_userRoles w)"
    unfolding list_ex_iff by blast
  have "id_of (role_ids existing) name \<noteq> ro_ID r"
    by (rule id_of_other_role [OF rs r(1) _ assms(2)]) (use r(2) assms(1) in simp)
  then have "(a, ro_ID r) \<in> set (filter (\<lambda>x. x \<noteq> (uid, id_of (role_ids existing) name)) (w_userRoles w))"
    using r(3) by auto
  then have "list_ex (\<lambda>r. ro_Name r = ''admin'' \<and> (a, ro_ID r)
      \<in> set (filter (\<lambda>x. x \<noteq> (uid, id_of (role_ids existing) name)) (w_userRoles w))) rs"
    unfolding list_ex_iff using r(1,2) by blast
  with w show "seat_with t a rs (w\<lparr>w_userRoles := filter (\<lambda>x. x \<noteq> (uid, id_of (role_ids existing) name)) (w_userRoles w)\<rparr>)"
    by (clarsimp simp: seat_with_def seat_def tidy_def admin_of_def)
qed simp

lemma seat_with_reads:
  "keeps (seat_with t a rs) (RoleNamesFor uid)" "keeps (seat_with t a rs) (ListRoles tn)" "keeps (seat_with t a rs) (GrantRole uid rid)"
  unfolding RoleNamesFor_def ListRoles_def GrantRole_def
  by (intro keeps_stmt keeps_get; auto simp: upholds_def seat_with_def seat_def tidy_def admin_of_def list_ex_iff)+

lemma seat_setRoles_admin:
  assumes "''admin'' \<in> set names"
  shows "keeps (seat t a) (setRoles ord tn uid names :: ('h, unit) dbprog)"
proof -
  have plain: "trim_space ''admin'' = ''admin''" by code_simp
  have "keeps (seat_with t a rs) (setRoles ord tn uid names :: ('h, unit) dbprog)" for rs
    unfolding setRoles_def
  proof (rule keeps_andThen_result [where R = "\<lambda>existing. set existing \<subseteq> set rs"])
    show "wlp (ListRoles tn) (\<lambda>existing _. set existing \<subseteq> set rs) w" if "seat_with t a rs w" for w :: "'h world"
      using that unfolding ListRoles_def by (intro wlp_intros) (auto simp: seat_with_def)
    fix existing
    assume sub: "set existing \<subseteq> set rs"
    have tail: "keeps (seat_with t a rs) (andThen (RoleNamesFor uid) (\<lambda>current.
        andThen (forEach (ord (remdups wanted)) (\<lambda>name.
          if name \<notin> set current then GrantRole uid (id_of (role_ids existing) name) else ret ())) (\<lambda>_.
        forEach (ord (remdups current)) (\<lambda>name.
          if name \<notin> set wanted then RevokeRole uid (id_of (role_ids existing) name) else ret ()))) :: ('h, unit) dbprog)"
      if "known_names (role_ids existing) names = Inr wanted" for wanted
    proof -
      have "''admin'' \<in> set wanted" by (rule known_names_mem [OF that assms plain]) simp
      then have revoke: "keeps (seat_with t a rs) (if name \<notin> set wanted then RevokeRole uid (id_of (role_ids existing) name) else ret () :: ('h, unit) dbprog)" for name
        using sub by (auto intro!: seat_with_revoke keeps_ret)
      have grant: "keeps (seat_with t a rs) (if name \<notin> set current then GrantRole uid rid else ret () :: ('h, unit) dbprog)" for name :: string and current rid
        by (intro keeps_if keeps_ret seat_with_reads)
      show ?thesis by (intro keeps_andThen keeps_forEach seat_with_reads revoke) (rule grant)
    qed
    show "keeps (seat_with t a rs) (andThen (lift (known_names (role_ids existing) names)) (\<lambda>wanted.
       andThen (RoleNamesFor uid) (\<lambda>current.
        andThen (forEach (ord (remdups wanted)) (\<lambda>name.
          if name \<notin> set current then GrantRole uid (id_of (role_ids existing) name) else ret ())) (\<lambda>_.
        forEach (ord (remdups current)) (\<lambda>name.
          if name \<notin> set wanted then RevokeRole uid (id_of (role_ids existing) name) else ret ())))) :: ('h, unit) dbprog)"
      by (rule keeps_andThen_result [where R = "\<lambda>x. known_names (role_ids existing) names = Inr x", OF keeps_lift _ tail])
        (auto intro: wlp_lift)
  qed (rule seat_with_reads)
  then show ?thesis by (auto simp: upholds_def seat_with_def)
qed

lemma change_roles_keeps: "keeps (administered (TenantID s)) (change_roles ord s uid roles)"
proof (cases roles)
  case (Some names)
  show ?thesis
  proof (cases "''admin'' \<in> set names")
    case True
    then have "list_ex (\<lambda>r. r = ''admin'') names" by (simp add: list_ex_iff)
    then show ?thesis
      unfolding change_roles_def assertRoleChangeIsSafe_def Some
      by (auto simp: andThen_ret intro!: keeps_administered seat_setRoles_admin True)
  next
    case False
    then have "\<not> list_ex (\<lambda>r. r = ''admin'') names" by (simp add: list_ex_iff)
    then show ?thesis
      unfolding change_roles_def assertRoleChangeIsSafe_def Some
      by (auto simp: andThen_fail intro!: assert_then keeps_fail seat_setRoles_other)
  qed
qed (simp add: change_roles_def keeps_ret)

section \<open>Profile changes\<close>

lemma administered_read [seat_intros]: "keeps (administered t) (Users_Get tn uid)"
  by (intro keeps_administered seat_intros)

text \<open>Writing back the state that was read: with unique identifiers the row read is the only one written.\<close>

definition row_read :: "uuid \<Rightarrow> uuid \<Rightarrow> bool \<Rightarrow> 'h world \<Rightarrow> bool" where
  "row_read t uid active w \<longleftrightarrow> administered t w \<and> list_ex (\<lambda>u. u_ID u = uid \<and> u_Active u = active) (w_users w)"

lemma write_back:
  assumes "act \<or> \<not> active"
  shows "upholds (row_read t uid active) (UpdateProfile tn uid email name act pw unlock :: ('h, unit) dbprog) (\<lambda>_. administered t)"
proof (rule upholdsI)
  fix w :: "'h world"
  assume "row_read t uid active w"
  then obtain a user where a: "seat t a w" and user: "user \<in> set (w_users w)" "u_ID user = uid" "u_Active user = active"
    by (auto simp: row_read_def administered_def list_ex_iff)
  have "act \<or> uid \<noteq> a"
  proof (rule disjCI)
    assume "\<not> uid \<noteq> a"
    then obtain u where "u \<in> set (w_users w)" "u_ID u = uid" "u_Active u"
      using a by (auto simp: seat_def admin_of_def list_ex_iff)
    moreover have "distinct (map u_ID (w_users w))" using a by (simp add: seat_def tidy_def)
    ultimately have "u = user" using user by (auto simp: distinct_map inj_on_def)
    with \<open>u_Active u\<close> user(3) assms show act by simp
  qed
  from upholdsD [OF seat_UpdateProfile [OF this] a, of tn email name pw unlock]
  show "administered t (snd (UpdateProfile tn uid email name act pw unlock w))"
    by (auto simp: administered_def)
qed

lemma read_row: "upholds (administered t) (Users_Get t uid :: ('h, user_row) dbprog) (\<lambda>r w. case r of Inl e \<Rightarrow> administered t w | Inr user \<Rightarrow> row_read t uid (u_Active user) w)"
proof (rule upholdsI)
  fix w :: "'h world"
  assume adm: "administered t w"
  then have "administered t (snd (Users_Get t uid w))" using upholdsD [OF administered_read] by blast
  moreover have "wlp (Users_Get t uid) (\<lambda>u w'. u \<in> set (w_users w') \<and> u_ID u = uid) w"
    unfolding Users_Get_def by (intro wlp_intros) auto
  ultimately show "case fst (Users_Get t uid w) of Inl e \<Rightarrow> administered t (snd (Users_Get t uid w))
      | Inr user \<Rightarrow> row_read t uid (u_Active user) (snd (Users_Get t uid w))"
    by (auto simp: row_read_def wlp_def list_ex_iff split: sum.split prod.splits)
qed

lemma row_read_keeps:
  assumes "keeps (administered t) m" "keeps (\<lambda>w. list_ex (\<lambda>u. u_ID u = uid \<and> u_Active u = active) (w_users w)) m"
  shows "keeps (row_read t uid active) m"
  using assms by (simp add: upholds_def row_read_def)

lemma list_ex_upd_where: "(\<And>u. P (f u) = P u) \<Longrightarrow> list_ex P (upd_where hit f us) = list_ex P us"
  by (induction us) (auto simp: upd_where_def)

section \<open>Every operation of the console\<close>

lemma administered_step: "(\<And>a. keeps (seat t a) m) \<Longrightarrow> keeps (administered t) m"
  by (rule keeps_administered)

lemma Get_keeps: "keeps (seat t a) (UserService_Get s uid)"
  unfolding UserService_Get_def by (intro seat_intros keeps_intros)

lemma Create_keeps: "keeps (seat t a) (UserService_Create A s req)"
  unfolding UserService_Create_def resolveRoles_def Let_def
  by (intro seat_intros keeps_intros Get_keeps) (simp add: created_user_def)

lemma row_read_administered: "row_read t uid active w \<Longrightarrow> administered t w"
  by (simp add: row_read_def)

lemma Update_keeps:
  fixes ord :: "string list \<Rightarrow> string list"
  shows "keeps (administered (TenantID s)) (Update ord s uid req :: ('h, user_detail) dbprog)"
proof -
  let ?t = "TenantID s"
  have tail: "keeps (administered ?t) (andThen (change_roles ord s uid (uu_Roles req)) (\<lambda>_.
      andThen (user_log s ''user.update'' uid []) (\<lambda>_. UserService_Get s uid)) :: ('h, user_detail) dbprog)"
    by (intro keeps_andThen change_roles_keeps keeps_administered seat_intros Get_keeps)
  have body: "upholds (row_read ?t uid (u_Active user))
      (andThen (if uu_Active req = Some False \<and> u_Active user then assertNotLastAdmin ?t uid else ret ()) (\<lambda>_.
         UpdateProfile ?t uid email name (or_else (uu_Active req) (u_Active user)) pw unlock) :: ('h, unit) dbprog) (\<lambda>_. administered ?t)"
    for user email name pw unlock
  proof (cases "uu_Active req = Some False \<and> u_Active user")
    case True
    have "keeps (administered ?t) (andThen (assertNotLastAdmin ?t uid) (\<lambda>_.
        UpdateProfile ?t uid email name (or_else (uu_Active req) (u_Active user)) pw unlock) :: ('h, unit) dbprog)"
      by (intro assert_then seat_UpdateProfile) simp
    then have "upholds (row_read ?t uid (u_Active user)) (andThen (assertNotLastAdmin ?t uid) (\<lambda>_.
        UpdateProfile ?t uid email name (or_else (uu_Active req) (u_Active user)) pw unlock) :: ('h, unit) dbprog) (\<lambda>_. administered ?t)"
      by (rule upholds_weaken) (rule row_read_administered)
    with True show ?thesis by simp
  next
    case False
    then have "or_else (uu_Active req) (u_Active user) \<or> \<not> u_Active user"
      by (auto simp: or_else_def split: option.split)
    with False show ?thesis by (simp only: if_False andThen_ret write_back)
  qed
  have rest: "upholds (row_read ?t uid (u_Active user)) (if uu_Active req = Some False \<and> uid = UserID s then fail ErrBadUser else
     andThen (if uu_Active req = Some False \<and> u_Active user then assertNotLastAdmin ?t uid else ret ()) (\<lambda>_.
     andThen (UpdateProfile ?t uid (or_else (map_option trim_space (uu_Email req)) (u_Email user))
        (or_else (map_option trim_space (uu_DisplayName req)) (u_DisplayName user))
        (or_else (uu_Active req) (u_Active user)) (or_else (uu_MustChangePW req) (u_MustChangePW user)) (uu_Unlock req)) (\<lambda>_.
     andThen (change_roles ord s uid (uu_Roles req)) (\<lambda>_.
     andThen (user_log s ''user.update'' uid []) (\<lambda>_.
     UserService_Get s uid)))) :: ('h, user_detail) dbprog) (\<lambda>_. administered ?t)" for user
    by (intro upholds_if upholds_andThen [OF body tail, unfolded andThen_assoc])
      (auto simp: upholds_def fail_def row_read_def)
  show ?thesis
    unfolding Update_def
    by (intro keeps_andThen keeps_lift upholds_andThen [OF read_row]) (auto simp: rest)
qed

lemma SetPassword_keeps: "keeps (administered (TenantID s)) (SetPassword A s uid oldpw password mustChange :: ('h, unit) dbprog)"
proof -
  let ?t = "TenantID s"
  have body: "upholds (row_read ?t uid (u_Active user)) (replace_password A s uid oldpw password mustChange user :: ('h, unit) dbprog) (\<lambda>_. administered ?t)" for user
  proof -
    let ?J = "row_read ?t uid (u_Active user)"
    have set_pw: "keeps ?J (Users_SetPassword uid hash :: ('h, unit) dbprog)" for hash
    proof (rule row_read_keeps)
      show "keeps (\<lambda>w. list_ex (\<lambda>u. u_ID u = uid \<and> u_Active u = u_Active user) (w_users w)) (Users_SetPassword uid hash :: ('h, unit) dbprog)"
        unfolding Users_SetPassword_def update_users_def
        by (intro keeps_stmt keeps_modify) (simp_all add: ignores_faults_def list_ex_upd_where)
    qed (intro keeps_administered seat_intros)
    have drawn: "keeps ?J (draw :: ('h, nat) dbprog)"
      by (rule row_read_keeps, intro keeps_administered seat_intros) (simp add: upholds_def draw_def)
    have wb: "upholds ?J (UpdateProfile ?t uid email name (u_Active user) pw unlock :: ('h, unit) dbprog) (\<lambda>_. administered ?t)"
      for email name pw unlock by (rule write_back) simp
    have last: "upholds ?J (andThen (UpdateProfile ?t uid email name (u_Active user) pw unlock) (\<lambda>_. user_log s action uid ev) :: ('h, unit) dbprog)
        (\<lambda>_. administered ?t)" for email name pw unlock action ev
      by (intro upholds_andThen [OF wb] keeps_administered seat_intros) simp
    have chain: "upholds ?J (andThen m f) (\<lambda>_. administered ?t)" if "keeps ?J m" "\<And>x. upholds ?J (f x) (\<lambda>_. administered ?t)"
      for m :: "('h, 'x) dbprog" and f :: "'x \<Rightarrow> ('h, unit) dbprog"
      by (rule upholds_andThen [OF that]) (simp add: row_read_def)
    show ?thesis
      unfolding replace_password_def
      by (intro chain last set_pw drawn keeps_intros)
  qed
  show ?thesis
    unfolding SetPassword_def
    by (intro keeps_andThen keeps_if keeps_ret keeps_lift upholds_andThen [OF read_row]) (auto simp: body)
qed

lemma tokens_keep:
  "keeps (seat t a) (CreateToken A s treq)" "keeps (seat t a) (RevokeToken s tid)" "keeps (seat t a) (DeleteToken s tid)"
  unfolding CreateToken_def RevokeToken_def DeleteToken_def token_expiry_def
  by (intro seat_intros keeps_intros)+

lemma removals_keep:
  "keeps (administered (TenantID s)) (UserService_Delete s uid)" "keeps (seat t a) (ResetTOTP s uid)"
  unfolding UserService_Delete_def ResetTOTP_def
proof -
  show "keeps (seat t a) (andThen (lift (Require (Some s) PermUserWrite)) (\<lambda>_.
     if uid = UserID s then fail ErrBadUser else
     andThen (Users_Get (TenantID s) uid) (\<lambda>_.
     andThen (SetTOTP uid [] False []) (\<lambda>_.
     user_log s ''user.update'' uid ''totp_reset''))))"
    by (intro seat_intros keeps_intros)
  have remove: "keeps (administered (TenantID s)) (andThen (assertNotLastAdmin (TenantID s) uid) (\<lambda>_.
     andThen (Users_Delete (TenantID s) uid) (\<lambda>_. user_log s ''user.update'' uid ''deleted'')))"
    by (intro assert_then keeps_andThen seat_Users_Delete seat_intros) simp
  show "keeps (administered (TenantID s)) (andThen (lift (Require (Some s) PermUserWrite)) (\<lambda>_.
     if uid = UserID s then fail ErrBadUser else
     andThen (Users_Get (TenantID s) uid) (\<lambda>_.
     andThen (assertNotLastAdmin (TenantID s) uid) (\<lambda>_.
     andThen (Users_Delete (TenantID s) uid) (\<lambda>_.
     user_log s ''user.update'' uid ''deleted'')))))"
    by (rule keeps_andThen [OF keeps_lift], rule keeps_if [OF keeps_fail], rule keeps_andThen [OF administered_read], rule remove)
qed

text \<open>C6. The console cannot lock itself out: as long as every identifier is used once, each operation on
  accounts, role bindings, passwords and tokens leaves an active administrator in the caller's tenant if there was
  one, on every branch and under any faults, whatever is asked and in whatever order the maps are walked.\<close>

theorem console_keeps_an_admin:
  "keeps (administered (TenantID s)) (UserService_Create A s creq)
   \<and> keeps (administered (TenantID s)) (Update ord s uid ureq)
   \<and> keeps (administered (TenantID s)) (SetPassword A s uid oldpw password mustChange)
   \<and> keeps (administered (TenantID s)) (ResetTOTP s uid)
   \<and> keeps (administered (TenantID s)) (UserService_Delete s uid)
   \<and> keeps (administered (TenantID s)) (CreateToken A s treq)
   \<and> keeps (administered (TenantID s)) (RevokeToken s tid)
   \<and> keeps (administered (TenantID s)) (DeleteToken s tid)"
  by (intro conjI Update_keeps SetPassword_keeps removals_keep keeps_administered [OF removals_keep(2)]
      keeps_administered [OF Create_keeps] keeps_administered [OF tokens_keep(1)] keeps_administered [OF tokens_keep(2)]
      keeps_administered [OF tokens_keep(3)])

section \<open>What a token may mint\<close>





section \<open>A small office\<close>









end
