(* ===== verification/Worker.thy ===== *)
theory Worker
  imports Reconcile Rotation AuthService Cronx
begin

text \<open>
  Unattended work (\<open>internal/service/worker.go\<close>): the job handlers besides the rotation step, the periodic tasks, and
  who they act as.  Backups and webhooks are left out.
\<close>

record worker =
  wk_JobRetention :: duration
  wk_ExpiryWarning :: duration
  wk_ReconcileEvery :: duration

definition NewWorker :: "duration \<Rightarrow> duration \<Rightarrow> duration \<Rightarrow> worker" where
  "NewWorker retention warning every = \<lparr>
     wk_JobRetention = (if retention \<le> 0 then 14 * 24 * Hour else retention),
     wk_ExpiryWarning = (if warning \<le> 0 then 14 * 24 * Hour else warning),
     wk_ReconcileEvery = (if every \<le> 0 then Hour else every)\<rparr>"

section \<open>Who unattended work acts as\<close>

fun first_admin :: "user_row list \<Rightarrow> ('h, uuid) dbprog" where
  "first_admin [] = fail (ErrOther ''service: no active account holds the permissions unattended work needs'')"
| "first_admin (u # us) =
     (if \<not> u_Active u then first_admin us else
      andThen (attempt (LoadSubject DefaultTenantID (u_ID u))) (\<lambda>r.
      case r of
        Inl e \<Rightarrow> first_admin us
      | Inr s \<Rightarrow> if Can (Some s) PermRotationExecute \<and> Can (Some s) PermDeployExecute then ret (u_ID u)
               else first_admin us))"

definition anyAdmin :: "('h, uuid) dbprog" where
  "anyAdmin = andThen (Users_List DefaultTenantID) first_admin"

definition worker_subject :: "uuid \<Rightarrow> ('h, subject) dbprog" where
  "worker_subject userID =
     andThen (if userID = uuid_Nil then anyAdmin else ret userID) (\<lambda>uid.
     andThen (LoadSubject DefaultTenantID uid) (\<lambda>s.
     andThen time_Now (\<lambda>now.
     ret (s\<lparr>MFAVerifiedAt := Some now\<rparr>))))"

definition policySubject :: "policy \<Rightarrow> ('h, subject) dbprog" where
  "policySubject p =
     (case pol_CreatedBy p of
        None \<Rightarrow> worker_subject uuid_Nil
      | Some uid \<Rightarrow>
          andThen (attempt (LoadSubject (pol_TenantID p) uid)) (\<lambda>r.
          case r of
            Inr s \<Rightarrow>
              if Can (Some s) PermRotationExecute then andThen time_Now (\<lambda>now. ret (s\<lparr>MFAVerifiedAt := Some now\<rparr>))
              else andThen (logf ''falling back to an administrator'') (\<lambda>_. worker_subject uuid_Nil)
          | Inl e \<Rightarrow> andThen (logf ''falling back to an administrator'') (\<lambda>_. worker_subject uuid_Nil)))"

section \<open>Job handlers\<close>

fun deploy_payload :: "job_payload \<Rightarrow> (uuid \<times> uuid \<times> uuid \<times> bool \<times> bool) option" where
  "deploy_payload (DeployPayload tid pid userID prune verify) = Some (tid, pid, userID, prune, verify)"
| "deploy_payload (RotationStepPayload rid userID) = Some (uuid_Nil, uuid_Nil, userID, False, False)"
| "deploy_payload (ReconcilePayload tid userID) =
     Some (case tid of None \<Rightarrow> uuid_Nil | Some t \<Rightarrow> t, uuid_Nil, userID, False, False)"
| "deploy_payload (ConsumerPayload cid userID) = Some (uuid_Nil, uuid_Nil, userID, False, False)"
| "deploy_payload (OpaquePayload _) = None"

fun reconcile_payload :: "job_payload \<Rightarrow> (uuid option \<times> uuid) option" where
  "reconcile_payload (ReconcilePayload tid userID) = Some (tid, userID)"
| "reconcile_payload (DeployPayload tid pid userID prune verify) = Some (Some tid, userID)"
| "reconcile_payload (RotationStepPayload rid userID) = Some (None, userID)"
| "reconcile_payload (ConsumerPayload cid userID) = Some (None, userID)"
| "reconcile_payload (OpaquePayload _) = None"

fun consumer_payload :: "job_payload \<Rightarrow> (uuid \<times> uuid) option" where
  "consumer_payload (ConsumerPayload cid userID) = Some (cid, userID)"
| "consumer_payload (DeployPayload tid pid userID prune verify) = Some (uuid_Nil, userID)"
| "consumer_payload (RotationStepPayload rid userID) = Some (uuid_Nil, userID)"
| "consumer_payload (ReconcilePayload tid userID) = Some (uuid_Nil, userID)"
| "consumer_payload (OpaquePayload _) = None"

text \<open>A handler that acts for a user; an account that cannot be loaded ends the job for good.\<close>

definition acting :: "uuid \<Rightarrow> (subject \<Rightarrow> ('h, outcome) dbprog) \<Rightarrow> ('h, outcome) dbprog" where
  "acting userID body =
     andThen (attempt (worker_subject userID)) (\<lambda>r.
     case r of Inl e \<Rightarrow> ret (Permanent e) | Inr s \<Rightarrow> body s)"

definition handleDeploy :: "('h, 'p) env \<Rightarrow> 'h handler" where
  "handleDeploy E j = (case deploy_payload (j_Payload j) of
       None \<Rightarrow> ret (Permanent (ErrOther ''service: malformed deploy payload''))
     | Some (tid, pid, userID, prune, verify) \<Rightarrow> acting userID (\<lambda>s.
         andThen (logf ''converging the target'') (\<lambda>_.
         andThen (Deploy E s tid pid \<lparr>do_DryRun = False, do_Prune = prune, do_VerifyAuth = verify, do_ChangesetID = None\<rparr>) (\<lambda>_.
         andThen (logf ''converged'') (\<lambda>_. ret Done)))))"

definition handleReconcile :: "('h, 'p) env \<Rightarrow> (string list \<Rightarrow> string list) \<Rightarrow> 'h handler" where
  "handleReconcile E ord j = (case reconcile_payload (j_Payload j) of
       None \<Rightarrow> ret (Permanent (ErrOther ''service: malformed reconcile payload''))
     | Some (tid, userID) \<Rightarrow> acting userID (\<lambda>s.
         case tid of
           Some t \<Rightarrow> andThen (Reconcile E ord s t) (\<lambda>_. ret Done)
         | None \<Rightarrow> andThen (ReconcileAll E ord s) (\<lambda>_. andThen (logf ''reconciled'') (\<lambda>_. ret Done))))"

definition handleConsumerDelivery :: "('h, 'p) env \<Rightarrow> 'h handler" where
  "handleConsumerDelivery E j = (case consumer_payload (j_Payload j) of
       None \<Rightarrow> ret (Permanent (ErrOther ''service: malformed consumer payload''))
     | Some (cid, userID) \<Rightarrow> acting userID (\<lambda>s.
         andThen (Redeliver E s cid) (\<lambda>_.
         andThen (logf ''delivered the private key to the consumer'') (\<lambda>_. ret Done))))"

text \<open>\<open>RegisterHandlers\<close>, less the backup job.\<close>

definition handler_table :: "('h, 'p) env \<Rightarrow> (string list \<Rightarrow> string list) \<Rightarrow> string \<Rightarrow> 'h handler option" where
  "handler_table E ord ty =
     (if ty = ''rotation.step'' then Some (handleRotationStep E)
      else if ty = ''deploy'' then Some (handleDeploy E)
      else if ty = ''reconcile'' then Some (handleReconcile E ord)
      else if ty = ''consumer.deliver'' then Some (handleConsumerDelivery E)
      else None)"

section \<open>Rotation policies\<close>

definition containsID :: "uuid list \<Rightarrow> uuid \<Rightarrow> bool" where
  "containsID ids i \<longleftrightarrow> list_ex (\<lambda>v. v = i) ids"

definition nextRun :: "(string \<Rightarrow> duration option) \<Rightarrow> string \<Rightarrow> gtime \<Rightarrow> gtime option" where
  "nextRun parseDuration expr from =
     (if expr = [] then Some (from + Hour)
      else case NextAfter parseDuration expr from of Inl e \<Rightarrow> None | Inr n \<Rightarrow> Some n)"

definition select_key :: "policy \<Rightarrow> key \<Rightarrow> key list \<Rightarrow> ('h, key list) dbprog" where
  "select_key p k out =
     (if k_KeyClass k = KeyClassBreakGlass then ret out
      else if \<not> k_HasPrivateKey k then ret out
      else if (case sel_KeyClass (pol_Selector p) of None \<Rightarrow> False | Some c \<Rightarrow> k_KeyClass k \<noteq> c) then ret out
      else if length (sel_KeyIDs (pol_Selector p)) > 0 \<and> \<not> containsID (sel_KeyIDs (pol_Selector p)) (k_ID k) then ret out
      else if MaxAge p > 0 then
        andThen time_Now (\<lambda>now. if now - k_CreatedAt k < MaxAge p then ret out else ret (out @ [k]))
      else ret (out @ [k]))"

definition selectKeys :: "uuid \<Rightarrow> policy \<Rightarrow> ('h, key list) dbprog" where
  "selectKeys tenantID p =
     andThen (Keys_List \<lparr>kf_TenantID = tenantID, kf_Statuses = [KeyActive], kf_Tags = sel_KeyTags (pol_Selector p),
        kf_Limit = 500, kf_Offset = 0\<rparr>) (\<lambda>all.
     foldEach all [] (select_key p))"

definition policy_request :: "policy \<Rightarrow> key \<Rightarrow> plan_request" where
  "policy_request p k = \<lparr>pq_KeyID = k_ID k, pq_PolicyID = Some (pol_ID p), pq_Trigger = Some TriggerSchedule,
     pq_Algorithm = pol_Algorithm p, pq_SoakPeriod = Some (SoakPeriod p), pq_CanaryPercent = pol_CanaryPercent p,
     pq_FailureThreshold = pol_FailureThreshold p, pq_ApprovalRequired = pol_ApprovalRequired p, pq_DryRun = False\<rparr>"

definition rotate_selected :: "subject \<Rightarrow> policy \<Rightarrow> key \<Rightarrow> ('h, unit) dbprog" where
  "rotate_selected s p k =
     andThen (attempt (Plan s (policy_request p k))) (\<lambda>r.
     case r of
       Inl e \<Rightarrow> logf ''planning a scheduled rotation''
     | Inr plan \<Rightarrow>
         if pol_ApprovalRequired p then logf ''rotation is waiting for approval''
         else warn (Start s (r_ID (pl_Rotation plan))))"

definition runPolicy :: "policy \<Rightarrow> ('h, unit) dbprog" where
  "runPolicy p =
     andThen (policySubject p) (\<lambda>s.
     andThen (selectKeys (TenantID s) p) (\<lambda>candidates.
     if candidates = [] then logf ''policy matched no keys due for rotation'' else
     andThen (logf ''rotation policy firing'') (\<lambda>_.
     forEach candidates (rotate_selected s p))))"

definition tickPolicies :: "(string \<Rightarrow> duration option) \<Rightarrow> ('h, unit) dbprog" where
  "tickPolicies parseDuration =
     andThen time_Now (\<lambda>now.
     andThen (DuePolicies now) (\<lambda>due.
     forEach due (\<lambda>p.
       andThen time_Now (\<lambda>now.
       andThen (warn (MarkPolicyRun (pol_ID p) (nextRun parseDuration (pol_CronExpr p) now))) (\<lambda>_.
       warn (runPolicy p))))))"

section \<open>The other periodic tasks\<close>

definition announce_expiry :: "gtime \<Rightarrow> key \<Rightarrow> ('h, unit) dbprog" where
  "announce_expiry cutoff k = (case k_ExpiresAt k of
       None \<Rightarrow> ret ()
     | Some t \<Rightarrow> if cutoff < t then ret ()
               else andThen time_Now (\<lambda>_. emit ''key.expiring'' (Some (k_ID k))))"

definition tickExpiry :: "worker \<Rightarrow> ('h, unit) dbprog" where
  "tickExpiry W =
     andThen (Keys_List \<lparr>kf_TenantID = DefaultTenantID, kf_Statuses = [KeyActive, KeyStaged], kf_Tags = [],
        kf_Limit = 1000, kf_Offset = 0\<rparr>) (\<lambda>all.
     andThen time_Now (\<lambda>now.
     forEach all (announce_expiry (now + wk_ExpiryWarning W))))"

definition work_job :: "uuid \<Rightarrow> string \<Rightarrow> job_payload \<Rightarrow> int \<Rightarrow> int \<Rightarrow> string \<Rightarrow> uuid option \<Rightarrow> gtime \<Rightarrow> job" where
  "work_job tenantID ty payload priority attempts idem createdBy now = \<lparr>j_ID = uuid_Nil, j_TenantID = tenantID, j_Type = ty,
     j_Payload = payload, j_State = JobQueued, j_Priority = priority, j_Attempts = 0, j_MaxAttempts = attempts,
     j_RunAfter = now, j_IdempotencyKey = Some (TextKey idem), j_RotationID = None, j_LockedBy = [], j_LockedAt = None,
     j_StartedAt = None, j_FinishedAt = None, j_LastError = [], j_CreatedBy = createdBy, j_CreatedAt = 0\<rparr>"

definition tickReconcile :: "('h, unit) dbprog" where
  "tickReconcile =
     andThen anyAdmin (\<lambda>admin.
     andThen time_Now (\<lambda>now.
     andThen (Enqueue (work_job DefaultTenantID ''reconcile'' (ReconcilePayload None admin) 200 2 ''reconcile:sweep'' None now)) (\<lambda>_.
     ret ())))"

definition tickPurgeJobs :: "worker \<Rightarrow> ('h, unit) dbprog" where
  "tickPurgeJobs W = andThen (PurgeFinished (wk_JobRetention W)) (\<lambda>_. ret ())"

definition tickPurgeSessions :: "('h, unit) dbprog" where
  "tickPurgeSessions = andThen PurgeExpiredSessions (\<lambda>n. if n > 0 then logf ''purged expired sessions'' else ret ())"

definition EnqueueDeploy :: "subject \<Rightarrow> uuid \<Rightarrow> uuid \<Rightarrow> bool \<Rightarrow> bool \<Rightarrow> ('h, job) dbprog" where
  "EnqueueDeploy s tid pid prune verify =
     andThen time_Now (\<lambda>now.
     Enqueue (work_job (TenantID s) ''deploy'' (DeployPayload tid pid (UserID s) prune verify) 100 5
       (''deploy:'' @ uuid_String tid @ '':'' @ uuid_String pid) (Some (UserID s)) now))"

definition EnqueueReconcile :: "subject \<Rightarrow> uuid option \<Rightarrow> ('h, job) dbprog" where
  "EnqueueReconcile s tid =
     andThen time_Now (\<lambda>now.
     Enqueue (work_job (TenantID s) ''reconcile'' (ReconcilePayload tid (UserID s)) 100 5
       (''reconcile:'' @ (case tid of None \<Rightarrow> ''fleet'' | Some t \<Rightarrow> uuid_String t)) (Some (UserID s)) now))"

end
