(* ===== verification/Lifecycle.thy ===== *)
theory Lifecycle
  imports Rotation
begin

text \<open>
  The life of a rotation: its states and the order it passes them in, the fields that each state needs,
  and a bound on the steps that are left.  Everything holds for every environment and fault schedule.
\<close>

section \<open>What the argument looks at\<close>

text \<open>A rotation row by its identifier, state, successor key, end of the soak window and wave.\<close>

type_synonym rot_core = "uuid \<times> rotation_state \<times> uuid option \<times> gtime option \<times> int"

definition rot_core :: "rotation \<Rightarrow> rot_core" where
  "rot_core r = (r_ID r, r_State r, r_NewKeyID r, r_SoakUntil r, r_Wave r)"

type_synonym life_view = "rot_core list \<times> (uuid \<times> int) list"

definition life_view :: "'h world \<Rightarrow> life_view" where
  "life_view w = (map rot_core (w_rotations w), map (\<lambda>rt. (rt_RotationID rt, rt_Wave rt)) (w_rotTargets w))"

text \<open>A fact about these columns and a bound of the identifiers given out so far.\<close>

definition sees :: "(nat \<Rightarrow> life_view \<Rightarrow> bool) \<Rightarrow> 'h world \<Rightarrow> bool" where
  "sees P w \<longleftrightarrow> (\<exists>n\<le>w_next w. P n (life_view w))"

section \<open>Programs that leave it alone\<close>

lemma sees_ignores_faults [simp]: "ignores_faults (sees P)"
  by (simp add: ignores_faults_def sees_def life_view_def)

named_theorems life_intros "programs that leave the life of every rotation alone"

lemma sees_eq: "life_view w' = life_view w \<Longrightarrow> w_next w \<le> w_next w' \<Longrightarrow> sees P w \<Longrightarrow> sees P w'"
  by (auto simp: sees_def intro: order_trans)

lemma keeps_sees_stmt: "keeps (sees P) q \<Longrightarrow> keeps (sees P) (stmt q)"
  by (rule keeps_stmt) simp

lemma keeps_sees_modify: "(\<And>w. life_view (f w) = life_view w \<and> w_next (f w) = w_next w) \<Longrightarrow> keeps (sees P) (stmt (modify f))"
  by (intro keeps_stmt keeps_modify sees_ignores_faults) (metis sees_eq order_refl)

lemma life_time [life_intros]: "keeps (sees P) time_Now"
  and life_uuid [life_intros]: "keeps (sees P) uuid_New"
  and life_draw [life_intros]: "keeps (sees P) draw"
  by (auto simp: upholds_def time_Now_def uuid_New_def draw_def sees_def life_view_def split: list.splits) (meson le_SucI)+

lemma life_get [life_intros]: "keeps (sees P) (stmt (get f))"
  and life_select [life_intros]: "keeps (sees P) (select_one tab Q)"
  by (intro keeps_stmt keeps_get keeps_select_one sees_ignores_faults)+

lemma life_call [life_intros]: "keeps (sees P) (call f)"
  unfolding call_def
  by (intro keeps_remote sees_ignores_faults) (auto simp: upholds_def sees_def life_view_def split: prod.split)

lemma life_side_channels [life_intros]:
  "keeps (sees P) (record_audit ev)" "keeps (sees P) (audit_Log ev)" "keeps (sees P) (emit ty rid)" "keeps (sees P) (logf msg)"
  unfolding record_audit_def audit_Log_def emit_def logf_def
  by (intro keeps_ignoring keeps_sees_modify; simp add: life_view_def)+

lemma life_warn [life_intros]: "keeps (sees P) m \<Longrightarrow> keeps (sees P) (warn m)"
  unfolding warn_def by (rule keeps_ignoring)

lemma life_updates [life_intros]:
  "keeps (sees P) (RecordDeployment aid st msg)" "keeps (sees P) (RecordAuthVerified aid)"
  "keeps (sees P) (SetDrift tenant tid d)" "keeps (sees P) (Keys_SetStatus tenant kid ks)"
  "keeps (sees P) (AppendInverse cid x)" "keeps (sees P) (Changesets_SetState cid cst)"
  "keeps (sees P) (Assignments_Delete tenant aid)" "keeps (sees P) (StoreMaterial kid m)"
  "keeps (sees P) (RecordDelivery cid cause)" "keeps (sees P) (Consumers_Rebind tenant cid kid)"
  "keeps (sees P) (remember rid p)" "keeps (sees P) (recall rid)"
  unfolding RecordDeployment_def RecordAuthVerified_def SetDrift_def update_target_def Keys_SetStatus_def StoreMaterial_def
    AppendInverse_def Changesets_SetState_def Assignments_Delete_def RecordDelivery_def Consumers_Rebind_def remember_def recall_def Let_def
  by (intro keeps_intros keeps_stmt keeps_modify keeps_update_returning keeps_exec_affecting sees_ignores_faults;
      simp add: sees_def life_view_def)+

text \<open>A transaction on a row of a rotation's targets refreshes the counters of the rotation only.\<close>

lemma map_upd_where: "(\<And>r. g (f r) = g r) \<Longrightarrow> map g (upd_where hit f rows) = map g rows"
  by (auto simp: upd_where_def)

lemma life_set_rt [life_intros]: "keeps (sees P) (SetRotationTargetState rid tid pid st msg)"
  unfolding SetRotationTargetState_def Let_def
  by (intro keeps_sees_modify)
    (simp add: life_view_def map_upd_where rot_core_def refresh_counters_def set_rt_row_def Let_def split: rt_state.split)

lemma life_inserts [life_intros]:
  "keeps (sees P) (Snapshots_Create tenant tid popt cs kind content chk n ex)" "keeps (sees P) (Changesets_Create tenant)"
  "keeps (sees P) (Assignments_Upsert tenant kid tid pid os ast)" "keeps (sees P) (Keys_Create k m)"
  "keeps (sees P) (Enqueue j)"
  unfolding Snapshots_Create_def Changesets_Create_def Assignments_Upsert_def Keys_Create_def Enqueue_def insert_job_def
    byIdempotencyKey_def
  by (intro keeps_intros life_intros keeps_sees_stmt;
      auto simp: upholds_def sees_def life_view_def Let_def split: list.split)+

text \<open>The services a step calls.\<close>

lemma life_reads [life_intros]:
  "keeps (sees P) (PrivateKeyFor E tenant kid)" "keeps (sees P) (load_credential E tenant t)" "keeps (sees P) (LoadSubject tenant uid)"
  "keeps (sees P) (Keys_Get tenant kid)" "keeps (sees P) (TargetCapabilities E tenant tid)"
  "keeps (sees P) (WaveTargets rid wv sts)" "keeps (sees P) (MaxWave rid)" "keeps (sees P) (ListRotationTargets rid)"
  "keeps (sees P) (GetRotation tenant rid)" "keeps (sees P) (Assignments_List f)" "keeps (sees P) (Consumers_List tenant okid)"
  "keeps (sees P) (policyThreshold tenant r)" "keeps (sees P) (soakPeriod tenant r)" "keeps (sees P) (optionsFor tenant kid pid)"
  unfolding PrivateKeyFor_def LoadMaterial_def load_credential_def Credentials_Get_def LoadSecret_def LoadSubject_def Keys_Get_def
    TargetCapabilities_def Targets_Get_def WaveTargets_def MaxWave_def ListRotationTargets_def GetRotation_def Assignments_List_def
    Consumers_List_def policyThreshold_def soakPeriod_def optionsFor_def GetPolicy_def Let_def
  by (intro keeps_intros life_intros)+

lemma life_resolve [life_intros]: "keeps (sees P) (resolve E s tid pid)"
  and life_guard [life_intros]: "keeps (sees P) (guard_audited s act res)"
  and life_systemSubject [life_intros]: "keeps (sees P) (systemSubject uid)"
  unfolding resolve_def Targets_Get_def GetPrincipal_def guard_audited_def audit_denied_def systemSubject_def
  by (intro keeps_intros life_intros)+

lemma life_managed [life_intros]: "keeps (sees P) (managedFingerprints tenant)"
proof -
  have "keeps (sees P) (managed_pages fuel tenant n out)" for fuel n out
  proof (induction fuel arbitrary: n out)
    case (Suc fuel)
    then show ?case
      unfolding managed_pages.simps Keys_List_def Let_def by (intro keeps_intros life_intros)
  qed (simp add: keeps_intros)
  then show ?thesis unfolding managedFingerprints_def by (intro keeps_intros)
qed

lemma life_verify_assignments [life_intros]: "keeps (sees P) (verifyAssignments E s rq conn rows result)"
  unfolding verifyAssignments_def verify_one_assignment_def Let_def
  by (intro keeps_intros life_intros)

lemma life_Deploy [life_intros]: "keeps (sees P) (Deploy E s tid pid opts)"
  unfolding Deploy_def deploy_to_def desiredKeys_def ForPrincipal_def take_snapshot_def call_result_def converge_def recordFailure_def
    auditDeploy_def deploy_succeeded_def Let_def
  by (intro keeps_intros life_intros)

lemma life_Generate [life_intros]: "keeps (sees P) (KeyService_Generate E s req)"
  unfolding KeyService_Generate_def store_pair_def Let_def
  by (intro keeps_intros life_intros)

lemma life_Rebind [life_intros]: "keeps (sees P) (Rebind E s cid kid)"
  unfolding Rebind_def Consumers_Get_def deliver_def remoteFor_def Targets_Get_def Credentials_Get_def LoadSecret_def Let_def
  by (intro keeps_intros life_intros)

lemma life_rows [life_intros]:
  "keeps (sees P) (stage_row E s r rt)" "keeps (sees P) (verify_row E s r pk rt)" "keeps (sees P) (retire_row E s r rt n)"
  "keeps (sees P) (deliver_to E s nk c)"
  unfolding stage_row_def stageOne_def replaceOne_def restorePrevious_def verify_row_def verifyOne_def retire_row_def retireOne_def
    deliver_to_def set_rt_def call_result_def Let_def
  by (intro keeps_intros life_intros)+

section \<open>States, fields and steps left\<close>

text \<open>The states one step may take a rotation to.\<close>

fun step_successors :: "rotation_state \<Rightarrow> rotation_state list" where
  "step_successors RotationPlanned = [RotationStaging, RotationCompleted]"
| "step_successors RotationStaging = [RotationVerifying, RotationAborted]"
| "step_successors RotationVerifying = [RotationStaging, RotationVerified, RotationAborted]"
| "step_successors RotationStaged = [RotationPromoting, RotationFailed]"
| "step_successors RotationVerified = [RotationPromoting, RotationFailed]"
| "step_successors RotationPromoting = [RotationSoaking]"
| "step_successors RotationSoaking = [RotationRetiring]"
| "step_successors RotationRetiring = [RotationCompleted]"
| "step_successors _ = []"

text \<open>Past planning a rotation has its successor key, and while it soaks it has the end of the window.\<close>

fun fields_ok :: "rotation_state \<Rightarrow> uuid option \<Rightarrow> gtime option \<Rightarrow> bool" where
  "fields_ok RotationPlanned nk su = True"
| "fields_ok RotationAwaiting nk su = True"
| "fields_ok RotationSoaking nk su = (nk \<noteq> None \<and> su \<noteq> None)"
| "fields_ok RotationAborted nk su = True"
| "fields_ok RotationRolledBack nk su = True"
| "fields_ok RotationFailed nk su = True"
| "fields_ok _ nk su = (nk \<noteq> None)"

text \<open>How many steps a rotation has left, \<open>M\<close> being its last wave.\<close>

fun steps_left :: "int \<Rightarrow> rotation_state \<Rightarrow> int \<Rightarrow> nat" where
  "steps_left M RotationPlanned wv = 2 * nat (M - wv) + 7"
| "steps_left M RotationStaging wv = 2 * nat (M - wv) + 6"
| "steps_left M RotationVerifying wv = 2 * nat (M - wv) + 5"
| "steps_left M RotationStaged wv = 4"
| "steps_left M RotationVerified wv = 4"
| "steps_left M RotationPromoting wv = 3"
| "steps_left M RotationSoaking wv = 2"
| "steps_left M RotationRetiring wv = 1"
| "steps_left M _ wv = 0"

definition last_wave :: "uuid \<Rightarrow> (uuid \<times> int) list \<Rightarrow> int" where
  "last_wave rid rts = (case map snd (filter (\<lambda>x. fst x = rid) rts) of [] \<Rightarrow> 0 | x # xs \<Rightarrow> fold max xs x)"

text \<open>The rotation table in order: identifiers given out before and once each, and the fields of every state.\<close>

definition rotations_ok :: "'h world \<Rightarrow> bool" where
  "rotations_ok w \<longleftrightarrow> distinct (map r_ID (w_rotations w))
     \<and> list_all (\<lambda>r. r_ID r < w_next w \<and> fields_ok (r_State r) (r_NewKeyID r) (r_SoakUntil r)) (w_rotations w)"

section \<open>Following one rotation\<close>

text \<open>The rows of \<open>rid\<close> satisfy \<open>K\<close> (state, successor key, end of soak, wave) and its targets are \<open>W\<close>.\<close>

definition track ::
  "uuid \<Rightarrow> (uuid \<times> int) list \<Rightarrow> (rotation_state \<Rightarrow> uuid option \<Rightarrow> gtime option \<Rightarrow> int \<Rightarrow> bool) \<Rightarrow> nat \<Rightarrow> life_view \<Rightarrow> bool" where
  "track rid W K n v \<longleftrightarrow> snd v = W \<and> distinct (map fst (fst v))
     \<and> (\<forall>(i, st, nk, su, wv)\<in>set (fst v). i < n \<and> fields_ok st nk su \<and> (i = rid \<longrightarrow> K st nk su wv))"

abbreviation follows ::
  "uuid \<Rightarrow> (uuid \<times> int) list \<Rightarrow> (rotation_state \<Rightarrow> uuid option \<Rightarrow> gtime option \<Rightarrow> int \<Rightarrow> bool) \<Rightarrow> 'h world \<Rightarrow> bool" where
  "follows rid W K \<equiv> sees (track rid W K)"

lemma follows_iff:
  "follows rid W K w \<longleftrightarrow> rotations_ok w \<and> map (\<lambda>rt. (rt_RotationID rt, rt_Wave rt)) (w_rotTargets w) = W
     \<and> (\<forall>r\<in>set (w_rotations w). r_ID r = rid \<longrightarrow> K (r_State r) (r_NewKeyID r) (r_SoakUntil r) (r_Wave r))"
proof -
  have ids: "map fst (map rot_core (w_rotations w)) = map r_ID (w_rotations w)" by (simp add: rot_core_def)
  have row: "track rid W K n (life_view w) \<longleftrightarrow> map (\<lambda>rt. (rt_RotationID rt, rt_Wave rt)) (w_rotTargets w) = W
     \<and> distinct (map r_ID (w_rotations w)) \<and> (\<forall>r\<in>set (w_rotations w). r_ID r < n \<and> fields_ok (r_State r) (r_NewKeyID r) (r_SoakUntil r)
        \<and> (r_ID r = rid \<longrightarrow> K (r_State r) (r_NewKeyID r) (r_SoakUntil r) (r_Wave r)))" for n
    unfolding track_def life_view_def fst_conv snd_conv ids by (simp add: rot_core_def)
  show ?thesis
    unfolding sees_def row rotations_ok_def list_all_iff by (meson less_le_trans order_refl)
qed

lemma follows_mono: "follows rid W K w \<Longrightarrow> (\<And>st nk su wv. fields_ok st nk su \<Longrightarrow> K st nk su wv \<Longrightarrow> K' st nk su wv) \<Longrightarrow> follows rid W K' w"
  by (auto simp: follows_iff rotations_ok_def list_all_iff)

lemma follows_faults [simp]: "follows rid W K (w\<lparr>w_faults := fs\<rparr>) = follows rid W K w"
  by (simp add: follows_iff rotations_ok_def)

text \<open>An update of the rows of \<open>rid\<close>, with what they were and what they are afterwards.\<close>

lemma follows_update:
  assumes "follows rid W K w" and "\<And>r. r_ID (f r) = r_ID r"
    and "\<And>r. K (r_State r) (r_NewKeyID r) (r_SoakUntil r) (r_Wave r) \<Longrightarrow> fields_ok (r_State r) (r_NewKeyID r) (r_SoakUntil r) \<Longrightarrow> hit r \<Longrightarrow> r_ID r = rid \<Longrightarrow>
      fields_ok (r_State (f r)) (r_NewKeyID (f r)) (r_SoakUntil (f r)) \<and> K' (r_State (f r)) (r_NewKeyID (f r)) (r_SoakUntil (f r)) (r_Wave (f r))"
    and "\<And>r. K (r_State r) (r_NewKeyID r) (r_SoakUntil r) (r_Wave r) \<Longrightarrow> fields_ok (r_State r) (r_NewKeyID r) (r_SoakUntil r) \<Longrightarrow>
      r_ID r = rid \<Longrightarrow> hit r"
    and "\<And>r. hit r \<Longrightarrow> r_ID r = rid"
  shows "follows rid W K' (w\<lparr>w_rotations := upd_where hit f (w_rotations w)\<rparr>)"
proof -
  let ?w = "w\<lparr>w_rotations := upd_where hit f (w_rotations w)\<rparr>"
  have ids: "map r_ID (w_rotations ?w) = map r_ID (w_rotations w)"
    by (simp add: map_upd_where [of r_ID, OF assms(2)])
  have rows: "r_ID r < w_next w \<and> fields_ok (r_State r) (r_NewKeyID r) (r_SoakUntil r)
      \<and> (r_ID r = rid \<longrightarrow> K' (r_State r) (r_NewKeyID r) (r_SoakUntil r) (r_Wave r))"
    if r: "r \<in> set (w_rotations ?w)" for r
  proof -
    from r obtain r0 where r0: "r0 \<in> set (w_rotations w)" "r = (if hit r0 then f r0 else r0)"
      by (auto simp: upd_where_def)
    with assms(1) have "r_ID r0 < w_next w" "fields_ok (r_State r0) (r_NewKeyID r0) (r_SoakUntil r0)"
      "r_ID r0 = rid \<longrightarrow> K (r_State r0) (r_NewKeyID r0) (r_SoakUntil r0) (r_Wave r0)"
      by (auto simp: follows_iff rotations_ok_def list_all_iff)
    note was = this
    show ?thesis
    proof (cases "hit r0")
      case True
      with assms(5) have "r_ID r0 = rid" by blast
      with was(3) assms(3) [OF _ was(2) True] True r0(2) assms(2) [of r0] was(1) show ?thesis by simp
    next
      case False
      with assms(4) was r0(2) show ?thesis by metis
    qed
  qed
  with assms(1) show ?thesis
    unfolding follows_iff rotations_ok_def ids list_all_iff by simp
qed

section \<open>The statements that move a rotation\<close>

lemma follows_SetRotationState:
  assumes "\<And>st nk su wv. K st nk su wv \<Longrightarrow> fields_ok st nk su \<Longrightarrow>
      (frm = [] \<or> st \<in> set frm) \<and> fields_ok to nk su \<and> K' to nk su wv \<and> L st nk su wv"
    and "\<And>st nk su wv. K' st nk su wv \<Longrightarrow> L st nk su wv"
  shows "upholds (follows rid W K) (SetRotationState rid frm to msg)
     (\<lambda>res. follows rid W (case res of Inl _ \<Rightarrow> L | Inr _ \<Rightarrow> K'))"
proof -
  let ?hit = "\<lambda>r. r_ID r = rid \<and> (frm = [] \<or> r_State r \<in> set frm)"
  let ?upd = "\<lambda>now r. r\<lparr>r_State := to, r_Error := trunc_text msg 4000,
          r_CompletedAt := (if RotationFinished to then Some now else r_CompletedAt r)\<rparr>"
  have moved: "follows rid W K' (w\<lparr>w_rotations := upd_where ?hit (?upd now) (w_rotations w)\<rparr>)" if "follows rid W K w" for w now
    by (rule follows_update [OF that]) (use assms(1) in auto)
  have same: "follows rid W L w" if "follows rid W K w" for w
    by (rule follows_mono [OF that]) (use assms(1) in blast)
  have L: "follows rid W L w" if "follows rid W K' w" for w
    by (rule follows_mono [OF that]) (rule assms(2))
  show ?thesis
    unfolding SetRotationState_def update_returning_def
    by (rule upholds_stmt_result) (auto simp: same intro: L moved split: option.split)
qed

text \<open>The other columns.\<close>

lemma follows_update_rotation:
  assumes "\<And>r. r_ID (f r) = r_ID r"
    and "\<And>r. K (r_State r) (r_NewKeyID r) (r_SoakUntil r) (r_Wave r) \<Longrightarrow> fields_ok (r_State r) (r_NewKeyID r) (r_SoakUntil r) \<Longrightarrow>
      fields_ok (r_State (f r)) (r_NewKeyID (f r)) (r_SoakUntil (f r)) \<and> K' (r_State (f r)) (r_NewKeyID (f r)) (r_SoakUntil (f r)) (r_Wave (f r))"
    and "\<And>st nk su wv. K st nk su wv \<Longrightarrow> L st nk su wv" "\<And>st nk su wv. K' st nk su wv \<Longrightarrow> L st nk su wv"
  shows "upholds (follows rid W K) (update_rotation rid f) (\<lambda>res. follows rid W (case res of Inl _ \<Rightarrow> L | Inr _ \<Rightarrow> K'))"
proof -
  have moved: "follows rid W K' (w\<lparr>w_rotations := upd_where (\<lambda>r. r_ID r = rid) f (w_rotations w)\<rparr>)" if "follows rid W K w" for w
    by (rule follows_update [OF that assms(1)]) (use assms(2) in auto)
  have same: "follows rid W L w" if "follows rid W K w" for w
    by (rule follows_mono [OF that]) (rule assms(3))
  have L: "follows rid W L w" if "follows rid W K' w" for w
    by (rule follows_mono [OF that]) (rule assms(4))
  show ?thesis
    unfolding update_rotation_def modify_def
    by (rule upholds_stmt_result) (auto simp: same intro: L moved)
qed

text \<open>Continuing after a statement that moved the rows from \<open>K\<close> to \<open>K'\<close>.\<close>

lemma follows_then:
  assumes "upholds (follows rid W K) m (\<lambda>res. follows rid W (case res of Inl _ \<Rightarrow> L | Inr _ \<Rightarrow> K'))"
    and "\<And>x. upholds (follows rid W K') (f x) Q" and "\<And>e w. follows rid W L w \<Longrightarrow> Q (Inl e) w"
  shows "upholds (follows rid W K) (andThen m f) Q"
  by (rule upholds_andThen [OF assms(1)]) (use assms(2,3) in simp_all)

lemma wlp_MaxWave: "follows rid W K w \<Longrightarrow> wlp (MaxWave rid) (\<lambda>m _. m = last_wave rid W) w"
proof -
  assume "follows rid W K w"
  then have "map rt_Wave (filter (\<lambda>rt. rt_RotationID rt = rid) (w_rotTargets w)) = map snd (filter (\<lambda>x. fst x = rid) W)"
    by (auto simp: follows_iff filter_map comp_def)
  then show ?thesis
    unfolding MaxWave_def last_wave_def by (intro wlp_intros) simp
qed

text \<open>What is read is what the rows are.\<close>

lemma follows_GetRotation:
  "upholds (follows rid W K) (GetRotation tenant rid) (\<lambda>res w. case res of Inl _ \<Rightarrow> follows rid W K w
     | Inr r \<Rightarrow> r_ID r = rid \<and> K (r_State r) (r_NewKeyID r) (r_SoakUntil r) (r_Wave r)
         \<and> follows rid W (\<lambda>st nk su wv. st = r_State r \<and> nk = r_NewKeyID r \<and> su = r_SoakUntil r \<and> wv = r_Wave r) w)"
proof -
  have one: "r' = r" if "follows rid W K w" "r \<in> set (w_rotations w)" "r' \<in> set (w_rotations w)" "r_ID r = rid" "r_ID r' = rid" for w r r'
    using that by (auto simp: follows_iff rotations_ok_def inj_on_def distinct_map)
  show ?thesis
    unfolding GetRotation_def select_one_def
  proof (rule upholds_stmt_result)
    fix w :: "'a world"
    assume w: "follows rid W K w"
    let ?find = "List.find (\<lambda>r. r_TenantID r = tenant \<and> r_ID r = rid) (w_rotations w)"
    let ?q = "case ?find of None \<Rightarrow> (Inl ErrNotFound, w) | Some r \<Rightarrow> (Inr r, w)"
    show "case fst ?q of Inl _ \<Rightarrow> follows rid W K (snd ?q)
      | Inr r \<Rightarrow> r_ID r = rid \<and> K (r_State r) (r_NewKeyID r) (r_SoakUntil r) (r_Wave r)
         \<and> follows rid W (\<lambda>st nk su wv. st = r_State r \<and> nk = r_NewKeyID r \<and> su = r_SoakUntil r \<and> wv = r_Wave r) (snd ?q)"
    proof (cases ?find)
      case None
      with w show ?thesis by simp
    next
      case (Some r)
      then have r: "r \<in> set (w_rotations w)" "r_ID r = rid"
        by (auto simp: find_Some_iff)
      have only: "\<forall>r'\<in>set (w_rotations w). r_ID r' = rid \<longrightarrow> r' = r"
        using one [OF w r(1) _ r(2)] by blast
      have K: "K (r_State r) (r_NewKeyID r) (r_SoakUntil r) (r_Wave r)"
        using w r by (auto simp: follows_iff)
      have "follows rid W (\<lambda>st nk su wv. st = r_State r \<and> nk = r_NewKeyID r \<and> su = r_SoakUntil r \<and> wv = r_Wave r) w"
        using w only unfolding follows_iff by auto
      with K r(2) Some show ?thesis by simp
    qed
  qed (auto split: option.split)
qed

section \<open>The steps\<close>

text \<open>
  What a step that started in \<open>st0\<close>, wave \<open>wv0\<close>, leaves: a state it may take, and when it returns, either less
  to do, or a soaking rotation, or a rotation that has ended or waits for approval.
\<close>

definition progress ::
  "int \<Rightarrow> rotation_state \<Rightarrow> int \<Rightarrow> next_step result \<Rightarrow> rotation_state \<Rightarrow> uuid option \<Rightarrow> gtime option \<Rightarrow> int \<Rightarrow> bool" where
  "progress M st0 wv0 res st nk su wv \<longleftrightarrow> st \<in> set (st0 # step_successors st0)
     \<and> (case res of Inl _ \<Rightarrow> True
        | Inr (again, _) \<Rightarrow> (if again then steps_left M st wv < steps_left M st0 wv0 \<or> st = RotationSoaking
                          else RotationFinished st \<or> st = RotationAwaiting))"

definition stays :: "rotation \<Rightarrow> rotation_state \<Rightarrow> uuid option \<Rightarrow> gtime option \<Rightarrow> int \<Rightarrow> bool" where
  "stays r st nk su wv \<longleftrightarrow> st = r_State r \<and> nk = r_NewKeyID r \<and> su = r_SoakUntil r \<and> wv = r_Wave r"

definition moved :: "rotation \<Rightarrow> rotation_state \<Rightarrow> rotation_state \<Rightarrow> uuid option \<Rightarrow> gtime option \<Rightarrow> int \<Rightarrow> bool" where
  "moved r to st nk su wv \<longleftrightarrow> st = to \<and> nk = r_NewKeyID r \<and> su = r_SoakUntil r \<and> wv = r_Wave r"

definition either :: "rotation \<Rightarrow> rotation_state \<Rightarrow> uuid option \<Rightarrow> gtime option \<Rightarrow> int \<Rightarrow> bool" where
  "either r st nk su wv \<longleftrightarrow> st \<in> set (r_State r # step_successors (r_State r))"

abbreviation steps :: "uuid \<Rightarrow> (uuid \<times> int) list \<Rightarrow> rotation \<Rightarrow> ('h, next_step) dbprog \<Rightarrow> bool" where
  "steps rid W r m \<equiv> upholds (follows rid W (stays r)) m (\<lambda>res. follows rid W (progress (last_wave rid W) (r_State r) (r_Wave r) res))"

text \<open>\<open>lax\<close>: an error leaves the rotation where it was or where the step may take it.\<close>

definition lax :: "uuid \<Rightarrow> (uuid \<times> int) list \<Rightarrow> rotation \<Rightarrow> ('a result \<Rightarrow> 'h world \<Rightarrow> bool) \<Rightarrow> bool" where
  "lax rid W r Q \<longleftrightarrow> (\<forall>e w. follows rid W (either r) w \<longrightarrow> Q (Inl e) w)"

lemma either_stays: "follows rid W (stays r) w \<Longrightarrow> follows rid W (either r) w"
  and either_moved: "to \<in> set (step_successors (r_State r)) \<Longrightarrow> follows rid W (moved r to) w \<Longrightarrow> follows rid W (either r) w"
  by (erule follows_mono; simp add: either_def stays_def moved_def)+

lemma progress_either: "follows rid W (either r) w \<Longrightarrow> follows rid W (progress M (r_State r) (r_Wave r) (Inl e)) w"
  by (erule follows_mono) (simp add: either_def progress_def)

lemma lax_progress [intro]: "lax rid W r (\<lambda>res. follows rid W (progress M (r_State r) (r_Wave r) res))"
  by (simp add: lax_def progress_either)

text \<open>Calls that leave the rows alone.\<close>

lemma stays_then: "lax rid W r Q \<Longrightarrow> keeps (follows rid W (stays r)) m \<Longrightarrow> (\<And>x. upholds (follows rid W (stays r)) (f x) Q) \<Longrightarrow>
    upholds (follows rid W (stays r)) (andThen m f) Q"
  by (rule upholds_andThen_keeps) (auto simp: lax_def intro: either_stays)

lemma moved_then: "lax rid W r Q \<Longrightarrow> to \<in> set (step_successors (r_State r)) \<Longrightarrow> keeps (follows rid W (moved r to)) m \<Longrightarrow>
    (\<And>x. upholds (follows rid W (moved r to)) (f x) Q) \<Longrightarrow> upholds (follows rid W (moved r to)) (andThen m f) Q"
  by (rule upholds_andThen_keeps) (auto simp: lax_def intro: either_moved)

lemma stays_fail: "lax rid W r Q \<Longrightarrow> upholds (follows rid W (stays r)) (fail e) Q"
  by (rule upholds_fail) (auto simp: lax_def intro: either_stays)

lemma stays_deref: "lax rid W r Q \<Longrightarrow> (\<And>x. p = Some x \<Longrightarrow> upholds (follows rid W (stays r)) (f x) Q) \<Longrightarrow>
    upholds (follows rid W (stays r)) (andThen (deref p) f) Q"
  by (cases p) (simp_all add: deref_def andThen_ret andThen_fail stays_fail)

text \<open>The move of a step to a state it may take.\<close>

lemma stays_move:
  assumes "lax rid W r Q" and "r_ID r = rid" and "frm = [] \<or> r_State r \<in> set frm" and "to \<in> set (step_successors (r_State r))"
    and "fields_ok (r_State r) (r_NewKeyID r) (r_SoakUntil r) \<Longrightarrow> fields_ok to (r_NewKeyID r) (r_SoakUntil r)"
    and "\<And>x. upholds (follows rid W (moved r to)) (f x) Q"
  shows "upholds (follows rid W (stays r)) (andThen (SetRotationState (r_ID r) frm to msg) f) Q"
  unfolding assms(2)
  by (rule follows_then [OF follows_SetRotationState [where K' = "moved r to" and L = "either r"]])
    (use assms in \<open>auto simp: stays_def moved_def either_def lax_def\<close>)

text \<open>Returning from a step.\<close>

lemma stays_ret:
  assumes "if again then r_State r = RotationSoaking else RotationFinished (r_State r) \<or> r_State r = RotationAwaiting"
  shows "steps rid W r (ret (again, d))"
  by (rule upholds_ret, erule follows_mono) (use assms in \<open>auto simp: progress_def stays_def split: if_splits\<close>)

lemma moved_ret:
  assumes "to \<in> set (step_successors (r_State r))"
    and "if again then steps_left (last_wave rid W) to (r_Wave r) < steps_left (last_wave rid W) (r_State r) (r_Wave r) \<or> to = RotationSoaking
      else RotationFinished to \<or> to = RotationAwaiting"
  shows "upholds (follows rid W (moved r to)) (ret (again, d))
     (\<lambda>res. follows rid W (progress (last_wave rid W) (r_State r) (r_Wave r) res))"
  by (rule upholds_ret, erule follows_mono) (use assms in \<open>auto simp: progress_def moved_def split: if_splits\<close>)

lemmas stays_intros = stays_then stays_fail stays_deref stays_move moved_then stays_ret moved_ret life_intros
  upholds_case_option upholds_if lax_progress

subsection \<open>Each of them\<close>

lemma steps_soakWait:
  assumes "r_ID r = rid" "r_State r = RotationSoaking"
  shows "steps rid W r (stepSoakWait r)"
  unfolding stepSoakWait_def
  by (intro stays_intros) (simp_all add: assms)

text \<open>Stopping on the failure threshold.\<close>

lemma stays_abortOnThreshold:
  assumes "r_ID r = rid" "RotationAborted \<in> set (step_successors (r_State r))"
  shows "upholds (follows rid W (stays r)) (abortOnThreshold s r phase)
    (\<lambda>res. follows rid W (case res of Inl _ \<Rightarrow> either r | Inr aborted \<Rightarrow> if aborted then moved r RotationAborted else stays r))"
proof -
  let ?Q = "\<lambda>res. follows rid W (case res of Inl _ \<Rightarrow> either r | Inr aborted \<Rightarrow> if aborted then moved r RotationAborted else stays r)"
  have lax: "lax rid W r ?Q" by (simp add: lax_def)
  show ?thesis
    unfolding abortOnThreshold_def Let_def
    by (intro stays_intros lax upholds_ret keeps_intros; simp add: assms keeps_intros life_intros)
qed

lemma steps_abort:
  assumes "r_ID r = rid" "RotationAborted \<in> set (step_successors (r_State r))" "steps rid W r m"
  shows "steps rid W r (andThen (abortOnThreshold s r phase) (\<lambda>aborted. if aborted then ret (False, 0) else m))"
proof (rule upholds_andThen [OF stays_abortOnThreshold [OF assms(1,2)]])
  show "upholds (\<lambda>w. follows rid W (case Inr aborted of Inl _ \<Rightarrow> either r | Inr aborted \<Rightarrow> if aborted then moved r RotationAborted else stays r) w)
     (if aborted then ret (False, 0) else m) (\<lambda>res. follows rid W (progress (last_wave rid W) (r_State r) (r_Wave r) res))" for aborted
    using assms by (cases aborted) (auto intro!: moved_ret)
qed (simp add: progress_either)

lemma steps_staging:
  assumes "r_ID r = rid" "r_State r = RotationStaging"
  shows "steps rid W r (stepStaging E s r)"
  unfolding stepStaging_def
  by (intro stays_intros steps_abort keeps_forEach) (simp_all add: assms)

lemma steps_retire:
  assumes "r_ID r = rid" "r_State r = RotationRetiring"
  shows "steps rid W r (stepRetire E s r)"
  unfolding stepRetire_def Let_def
  by (intro stays_intros keeps_foldEach keeps_if keeps_andThen keeps_deref keeps_case_option keeps_ret) (simp_all add: assms)

lemma moved_deref: "lax rid W r Q \<Longrightarrow> to \<in> set (step_successors (r_State r)) \<Longrightarrow>
    (\<And>x. p = Some x \<Longrightarrow> upholds (follows rid W (moved r to)) (f x) Q) \<Longrightarrow>
    upholds (follows rid W (moved r to)) (andThen (deref p) f) Q"
  by (cases p) (auto simp: deref_def andThen_ret andThen_fail lax_def intro!: upholds_fail dest: either_moved)

lemma steps_promote:
  assumes id: "r_ID r = rid" and st: "r_State r = RotationStaged \<or> r_State r = RotationVerified"
  shows "steps rid W r (stepPromote E s r)"
proof -
  have succ: "RotationPromoting \<in> set (step_successors (r_State r))" "RotationFailed \<in> set (step_successors (r_State r))"
    using st by auto
  have failing: "upholds (follows rid W (moved r RotationPromoting))
      (andThen (SetRotationState (r_ID r) [] RotationFailed msg) (\<lambda>_. ret (False, 0)))
      (\<lambda>res. follows rid W (progress (last_wave rid W) (r_State r) (r_Wave r) res))" for msg
    unfolding id
  proof (rule follows_then [OF follows_SetRotationState [where K' = "moved r RotationFailed" and L = "either r"]])
    show "upholds (follows rid W (moved r RotationFailed)) (ret (False, 0))
        (\<lambda>res. follows rid W (progress (last_wave rid W) (r_State r) (r_Wave r) res))"
      by (rule moved_ret) (use succ in simp_all)
    show "follows rid W (progress (last_wave rid W) (r_State r) (r_Wave r) (Inl e)) w" if "follows rid W (either r) w" for e w
      using that by (rule progress_either)
  qed (use succ in \<open>auto simp: moved_def either_def\<close>)
  have less: "steps_left (last_wave rid W) RotationPromoting (r_Wave r) < steps_left (last_wave rid W) (r_State r) (r_Wave r)"
    using st by auto
  show ?thesis
    unfolding stepPromote_def
    by (intro stays_intros moved_deref keeps_foldEach keeps_if keeps_ret failing)
      (use id st succ less in auto)
qed

lemma steps_soak:
  assumes id: "r_ID r = rid" and st: "r_State r = RotationPromoting"
  shows "steps rid W r (stepSoak s r)"
proof -
  have soak: "steps rid W r (andThen (SetSoakUntil (r_ID r) u) (\<lambda>_.
     andThen (SetRotationState (r_ID r) [RotationPromoting] RotationSoaking []) (\<lambda>_.
     andThen (logf ''soaking'') (\<lambda>_.
     andThen (emit ''rotation.soaking'' (Some (r_ID r))) (\<lambda>_.
     ret (True, soak))))))" for u soak
    unfolding id SetSoakUntil_def
  proof (rule follows_then [OF follows_update_rotation
        [where K' = "\<lambda>st' nk su wv. st' = r_State r \<and> nk = r_NewKeyID r \<and> su = Some u \<and> wv = r_Wave r" and L = "either r"]])
    let ?r = "r\<lparr>r_SoakUntil := Some u\<rparr>"
    have "steps rid W ?r (andThen (SetRotationState (r_ID ?r) [RotationPromoting] RotationSoaking []) (\<lambda>_.
      andThen (logf ''soaking'') (\<lambda>_. andThen (emit ''rotation.soaking'' (Some rid)) (\<lambda>_. ret (True, soak)))))"
      by (intro stays_intros) (use id st in simp_all)
    then show "upholds (follows rid W (\<lambda>st' nk su wv. st' = r_State r \<and> nk = r_NewKeyID r \<and> su = Some u \<and> wv = r_Wave r))
     (andThen (SetRotationState rid [RotationPromoting] RotationSoaking []) (\<lambda>_.
      andThen (logf ''soaking'') (\<lambda>_. andThen (emit ''rotation.soaking'' (Some rid)) (\<lambda>_. ret (True, soak)))))
     (\<lambda>res. follows rid W (progress (last_wave rid W) (r_State r) (r_Wave r) res))"
      using id by (simp add: stays_def [abs_def] cong: if_cong)
    show "follows rid W (progress (last_wave rid W) (r_State r) (r_Wave r) (Inl e)) w" if "follows rid W (either r) w" for e w
      using that by (rule progress_either)
  qed (use st in \<open>auto simp: stays_def either_def\<close>)
  show ?thesis
    unfolding stepSoak_def by (intro stays_then lax_progress life_intros soak)
qed

lemma steps_planned:
  assumes id: "r_ID r = rid" and st: "r_State r = RotationPlanned"
  shows "steps rid W r (stepPlanned E s r)"
proof -
  have keyed: "steps rid W r (andThen (SetRotationKeys (r_ID r) (Some k) cs n) (\<lambda>_.
        if r_DryRun r
        then andThen (SetRotationState (r_ID r) [] RotationCompleted ''dry run'') (\<lambda>_. ret (False, 0))
        else andThen (SetRotationState (r_ID r) [RotationPlanned] RotationStaging []) (\<lambda>_. ret (True, 0))))" for k cs n
    unfolding id SetRotationKeys_def
  proof (rule follows_then [OF follows_update_rotation
        [where K' = "\<lambda>st' nk su wv. st' = r_State r \<and> nk = Some k \<and> su = r_SoakUntil r \<and> wv = r_Wave r" and L = "either r"]])
    let ?r = "r\<lparr>r_NewKeyID := Some k\<rparr>"
    have "steps rid W ?r (if r_DryRun ?r
        then andThen (SetRotationState (r_ID ?r) [] RotationCompleted ''dry run'') (\<lambda>_. ret (False, 0))
        else andThen (SetRotationState (r_ID ?r) [RotationPlanned] RotationStaging []) (\<lambda>_. ret (True, 0)))"
      by (intro stays_intros) (use id st in simp_all)
    then show "upholds (follows rid W (\<lambda>st' nk su wv. st' = r_State r \<and> nk = Some k \<and> su = r_SoakUntil r \<and> wv = r_Wave r))
     (if r_DryRun r
        then andThen (SetRotationState rid [] RotationCompleted ''dry run'') (\<lambda>_. ret (False, 0))
        else andThen (SetRotationState rid [RotationPlanned] RotationStaging []) (\<lambda>_. ret (True, 0)))
     (\<lambda>res. follows rid W (progress (last_wave rid W) (r_State r) (r_Wave r) res))"
      using id by (simp add: stays_def [abs_def] cong: if_cong)
    show "follows rid W (progress (last_wave rid W) (r_State r) (r_Wave r) (Inl e)) w" if "follows rid W (either r) w" for e w
      using that by (rule progress_either)
  qed (use st in \<open>auto simp: stays_def either_def\<close>)
  show ?thesis
    unfolding stepPlanned_def
    by (intro stays_intros keyed) (use id st in \<open>auto simp: fields_ok.simps\<close>)
qed

lemma steps_verifying:
  assumes id: "r_ID r = rid" and st: "r_State r = RotationVerifying"
  shows "steps rid W r (stepVerifying E s r)"
proof -
  have wave: "steps rid W r (andThen (SetWave (r_ID r) (r_Wave r + 1)) (\<lambda>_.
       andThen (SetRotationState (r_ID r) [RotationVerifying] RotationStaging []) (\<lambda>_.
       andThen (logf ''canary wave verified'') (\<lambda>_.
       ret (True, 0)))))" if less: "r_Wave r < last_wave rid W"
    unfolding id SetWave_def
  proof (rule follows_then [OF follows_update_rotation
        [where K' = "\<lambda>st' nk su wv. st' = r_State r \<and> nk = r_NewKeyID r \<and> su = r_SoakUntil r \<and> wv = r_Wave r + 1" and L = "either r"]])
    let ?r = "r\<lparr>r_Wave := r_Wave r + 1\<rparr>" and ?M = "last_wave rid W"
    have "upholds (follows rid W (moved ?r RotationStaging)) (ret (True, 0)) (\<lambda>res. follows rid W (progress ?M (r_State r) (r_Wave r) res))"
      by (rule upholds_ret, erule follows_mono) (use st less in \<open>auto simp: progress_def moved_def\<close>)
    then have "upholds (follows rid W (stays ?r)) (andThen (SetRotationState (r_ID ?r) [RotationVerifying] RotationStaging []) (\<lambda>_.
       andThen (logf ''canary wave verified'') (\<lambda>_. ret (True, 0)))) (\<lambda>res. follows rid W (progress ?M (r_State r) (r_Wave r) res))"
      by (intro stays_move moved_then life_intros) (use id st in \<open>auto simp: lax_def either_def progress_def elim!: follows_mono\<close>)
    then show "upholds (follows rid W (\<lambda>st' nk su wv. st' = r_State r \<and> nk = r_NewKeyID r \<and> su = r_SoakUntil r \<and> wv = r_Wave r + 1))
     (andThen (SetRotationState rid [RotationVerifying] RotationStaging []) (\<lambda>_.
       andThen (logf ''canary wave verified'') (\<lambda>_. ret (True, 0)))) (\<lambda>res. follows rid W (progress ?M (r_State r) (r_Wave r) res))"
      using id by (simp add: stays_def [abs_def] cong: if_cong)
    show "follows rid W (progress ?M (r_State r) (r_Wave r) (Inl e)) w" if "follows rid W (either r) w" for e w
      using that by (rule progress_either)
  qed (use st in \<open>auto simp: stays_def either_def\<close>)
  have max: "steps rid W r (andThen (MaxWave (r_ID r)) f)" if "steps rid W r (f (last_wave rid W))" for f
    unfolding id
    by (rule upholds_andThen_result [where R = "\<lambda>m. m = last_wave rid W"])
      (use that in \<open>auto intro: life_intros wlp_MaxWave progress_either either_stays\<close>)
  show ?thesis
    unfolding stepVerifying_def
    apply (rule stays_then [OF lax_progress], rule life_intros)
    apply (rule stays_deref [OF lax_progress])
    apply (rule stays_then [OF lax_progress], rule life_intros)
    apply (rule stays_then [OF lax_progress], intro keeps_forEach life_intros)
    apply (rule steps_abort [OF id], simp add: st)
    apply (rule max, rule upholds_if, erule wave)
    apply (rule stays_move [OF lax_progress id])
       prefer 4
       apply (intro moved_then lax_progress life_intros moved_ret)
    by (use st in auto)
qed

lemma steps_state: "r_ID r = rid \<Longrightarrow> steps rid W r (if RotationFinished (r_State r) then ret (False, 0)
    else andThen (logf ''rotation is in state'') (\<lambda>_. step_in_state E s r))"
proof -
  assume id: "r_ID r = rid"
  show ?thesis
  proof (cases "RotationFinished (r_State r)")
    case True
    then show ?thesis by (simp add: stays_ret)
  next
    case False
    moreover from False id have "steps rid W r (step_in_state E s r)"
      unfolding step_in_state_def
      using steps_planned [of r rid W E s] steps_staging [of r rid W E s] steps_verifying [of r rid W E s] steps_promote [of r rid W E s]
        steps_soak [of r rid W s] steps_soakWait [of r rid W] steps_retire [of r rid W E s] stays_ret [of False r rid W 0]
      by (cases "r_State r") simp_all
    ultimately show ?thesis by (simp add: stays_then life_intros lax_progress)
  qed
qed

text \<open>
  From a row in state \<open>st0\<close> and wave \<open>wv0\<close>, whatever happens.  A rotation that \<open>Step\<close> does not find, or a subject it
  cannot load, leaves everything as it is.
\<close>

lemma Step_progress:
  "upholds (follows rid W (\<lambda>st nk su wv. st = st0 \<and> wv = wv0)) (Step E rid uid)
     (\<lambda>res. follows rid W (progress (last_wave rid W) st0 wv0 res))"
proof -
  let ?K = "\<lambda>st nk su wv. st = st0 \<and> wv = wv0" and ?Q = "\<lambda>res. follows rid W (progress (last_wave rid W) st0 wv0 res)"
  have none: "?Q (Inl e) w" if "follows rid W ?K w" for e and w :: "'a world"
    using that by (rule follows_mono) (simp add: progress_def)
  have body: "upholds (follows rid W ?K) (andThen (GetRotation t rid) (\<lambda>r. if RotationFinished (r_State r) then ret (False, 0)
    else andThen (logf ''rotation is in state'') (\<lambda>_. step_in_state E s r))) ?Q" for t and s :: subject
  proof (rule upholds_andThen [OF follows_GetRotation])
    fix r
    show "upholds (\<lambda>w. case Inr r of Inl _ \<Rightarrow> follows rid W ?K w
       | Inr r \<Rightarrow> r_ID r = rid \<and> ?K (r_State r) (r_NewKeyID r) (r_SoakUntil r) (r_Wave r)
         \<and> follows rid W (\<lambda>st nk su wv. st = r_State r \<and> nk = r_NewKeyID r \<and> su = r_SoakUntil r \<and> wv = r_Wave r) w)
      (if RotationFinished (r_State r) then ret (False, 0)
        else andThen (logf ''rotation is in state'') (\<lambda>_. step_in_state E s r)) ?Q"
    proof (cases "r_ID r = rid \<and> r_State r = st0 \<and> r_Wave r = wv0")
      case True
      with steps_state [of r rid W E s] show ?thesis
        by (auto simp: stays_def [abs_def] elim!: upholds_weaken)
    qed (auto simp: upholds_def)
  qed (simp add: none)
  show ?thesis
    unfolding Step_def by (rule upholds_andThen_keeps [OF life_systemSubject body none])
qed

section \<open>The rotation table stays in order\<close>

lemma rotations_ok_sees: "rotations_ok w \<longleftrightarrow>
    sees (\<lambda>n v. distinct (map fst (fst v)) \<and> (\<forall>(i, st, nk, su, wv)\<in>set (fst v). i < n \<and> fields_ok st nk su)) w"
proof -
  have "rotations_ok w \<longleftrightarrow> follows rid (snd (life_view w)) (\<lambda>_ _ _ _. True) w" for rid
    by (simp add: follows_iff life_view_def)
  then show ?thesis by (auto simp: sees_def track_def)
qed

lemma rotations_ok_life: "(\<And>P. keeps (sees P) m) \<Longrightarrow> keeps rotations_ok m"
  unfolding rotations_ok_sees [abs_def] by blast

lemma rotations_ok_faults [simp]: "ignores_faults rotations_ok"
  by (simp add: ignores_faults_def rotations_ok_def)

named_theorems rotations_intros "programs that keep the rotation table in order"

lemma rotations_update:
  assumes "\<And>r. r_ID (f r) = r_ID r" and "rotations_ok w"
    and "\<And>r. hit r \<Longrightarrow> fields_ok (r_State r) (r_NewKeyID r) (r_SoakUntil r) \<Longrightarrow> fields_ok (r_State (f r)) (r_NewKeyID (f r)) (r_SoakUntil (f r))"
  shows "rotations_ok (w\<lparr>w_rotations := upd_where hit f (w_rotations w)\<rparr>)"
proof -
  have "map r_ID (upd_where hit f (w_rotations w)) = map r_ID (w_rotations w)"
    by (rule map_upd_where) (rule assms(1))
  moreover have "list_all (\<lambda>r. r_ID r < w_next w \<and> fields_ok (r_State r) (r_NewKeyID r) (r_SoakUntil r)) (upd_where hit f (w_rotations w))"
    using assms(2) unfolding rotations_ok_def list_all_iff by (auto simp: upd_where_def assms(1,3))
  ultimately show ?thesis
    using assms(2) by (simp add: rotations_ok_def)
qed

lemma rotations_SetRotationState:
  assumes "\<And>st nk su. fields_ok st nk su \<Longrightarrow> frm = [] \<or> st \<in> set frm \<Longrightarrow> fields_ok to nk su"
  shows "keeps rotations_ok (SetRotationState rid frm to msg)"
  unfolding SetRotationState_def
  by (intro keeps_update_returning rotations_ok_faults rotations_update) (use assms in auto)

lemma rotations_ApproveRotation [rotations_intros]: "keeps rotations_ok (ApproveRotation tenant rid uid)"
  unfolding ApproveRotation_def
  by (intro keeps_update_returning rotations_ok_faults rotations_update) auto

lemma rotations_AddRotationTarget [rotations_intros]: "keeps rotations_ok (AddRotationTarget rt)"
  unfolding AddRotationTarget_def Let_def
  by (intro keeps_stmt keeps_modify rotations_ok_faults) (simp add: rotations_ok_def)

lemma rotations_CreateRotation [rotations_intros]:
  assumes "r_ID r = uuid_Nil" "r_State r = RotationPlanned"
  shows "keeps rotations_ok (CreateRotation r)"
proof -
  let ?fresh = "\<lambda>res w. rotations_ok w \<and> (case res of Inl _ \<Rightarrow> True | Inr i \<Rightarrow> i < w_next w \<and> i \<notin> r_ID ` set (w_rotations w))"
  have new: "upholds rotations_ok uuid_New ?fresh"
    by (auto simp: upholds_def uuid_New_def rotations_ok_def list_all_iff)
  show ?thesis
    unfolding CreateRotation_def assms(1) if_True simp_thms
  proof (rule upholds_andThen [OF new])
    fix rid
    show "upholds (?fresh (Inr rid)) (stmt (\<lambda>w. let r = r\<lparr>r_ID := rid,
          r_TenantID := (if r_TenantID r = uuid_Nil then DefaultTenantID else r_TenantID r),
          r_Wave := 0, r_SoakUntil := None, r_TargetsStaged := 0, r_TargetsVerified := 0,
          r_TargetsRetired := 0, r_TargetsFailed := 0, r_ApprovedBy := None, r_ApprovedAt := None,
          r_Error := [], r_CompletedAt := None\<rparr>
        in (Inr r, w\<lparr>w_rotations := w_rotations w @ [r]\<rparr>))) (\<lambda>_. rotations_ok)"
      by (rule upholds_stmt) (use assms(2) in \<open>auto simp: ignores_faults_def rotations_ok_def Let_def\<close>)
  qed simp
qed

text \<open>The operations of the service, the job handler and the soak tick.\<close>

lemma rotations_lift [rotations_intros]:
  "keeps rotations_ok (Keys_Get t kid)" "keeps rotations_ok (Assignments_List f)" "keeps rotations_ok (ListRotationTargets rid)"
  "keeps rotations_ok (Consumers_List t okid)" "keeps rotations_ok (record_audit ev)" "keeps rotations_ok (emit ty rid')"
  "keeps rotations_ok (logf msg)" "keeps rotations_ok (remember rid p)" "keeps rotations_ok (GetRotation t rid)"
  "keeps rotations_ok (Enqueue j)" "keeps rotations_ok time_Now" "keeps rotations_ok (WaveTargets rid wv sts)"
  "keeps rotations_ok (stmt (get g))" "keeps rotations_ok (select_one tab Q)"
  by (intro rotations_ok_life life_intros)+

lemma rotations_Plan [rotations_intros]: "keeps rotations_ok (Plan s req)"
  unfolding Plan_def canarySet_def flagged_canaries_def Targets_Get_def plan_targets_def collapseWaves_def
  by (intro keeps_intros rotations_intros rotations_SetRotationState) (auto simp: planned_rotation_def)

lemma rotations_queue [rotations_intros]:
  "keeps rotations_ok (enqueueStep r uid d)" "keeps rotations_ok (EnqueueNext t rid uid d)"
  "keeps rotations_ok (Start s rid)" "keeps rotations_ok (Approve s rid)" "keeps rotations_ok tickSoak"
  unfolding EnqueueNext_def Start_def Approve_def tickSoak_def SoakExpired_def enqueueStep_def warn_def
  by (intro keeps_intros rotations_intros keeps_ignoring)+

lemma rotations_endings [rotations_intros]:
  "keeps rotations_ok (Abort s rid reason)" "keeps rotations_ok (failRotation rid e)"
  unfolding Abort_def failRotation_def
  by (intro keeps_intros rotations_intros rotations_SetRotationState; simp)+

lemma rotations_Step [rotations_intros]: "keeps rotations_ok (Step E rid uid)"
proof (rule upholdsI)
  fix w :: "'a world"
  assume w: "rotations_ok w"
  let ?W = "snd (life_view w)"
  obtain st0 wv0 where "follows rid ?W (\<lambda>st nk su wv. st = st0 \<and> wv = wv0) w"
  proof (cases "\<exists>r\<in>set (w_rotations w). r_ID r = rid")
    case True
    then obtain r where r: "r \<in> set (w_rotations w)" "r_ID r = rid" by blast
    with w have "\<forall>r'\<in>set (w_rotations w). r_ID r' = rid \<longrightarrow> r' = r"
      by (auto simp: rotations_ok_def distinct_map inj_on_def)
    with w that show ?thesis by (auto simp: follows_iff life_view_def)
  next
    case False
    with w that show ?thesis by (auto simp: follows_iff life_view_def)
  qed
  from upholdsD [OF Step_progress [of rid ?W st0 wv0 E uid] this] show "rotations_ok (snd (Step E rid uid w))"
    by (simp add: follows_iff)
qed

lemma rotations_handler [rotations_intros]: "keeps rotations_ok (handleRotationStep E j)"
  unfolding handleRotationStep_def
  by (intro keeps_intros rotations_intros)

section \<open>Properties\<close>

text \<open>The rotation \<open>rid\<close> is in one of these states; what it has left to do.\<close>

definition in_state :: "uuid \<Rightarrow> rotation_state list \<Rightarrow> 'h world \<Rightarrow> bool" where
  "in_state rid A w \<longleftrightarrow> list_all (\<lambda>r. r_State r \<in> set A) (filter (\<lambda>r. r_ID r = rid) (w_rotations w))"

definition at_most :: "nat \<Rightarrow> uuid \<Rightarrow> 'h world \<Rightarrow> bool" where
  "at_most n rid w \<longleftrightarrow> list_all (\<lambda>r. steps_left (last_wave rid (snd (life_view w))) (r_State r) (r_Wave r) \<le> n)
     (filter (\<lambda>r. r_ID r = rid) (w_rotations w))"

text \<open>A table in order has at most one row of \<open>rid\<close>; where there is none, anything can be said of it.\<close>

lemma follows_now:
  assumes "rotations_ok w" and "list_all P (filter (\<lambda>r. r_ID r = rid) (w_rotations w))"
    and "\<And>r. P r \<Longrightarrow> Q (r_State r) (r_Wave r)" and "Q st1 wv1"
  obtains st0 wv0 where "Q st0 wv0" "follows rid (snd (life_view w)) (\<lambda>st nk su wv. st = st0 \<and> wv = wv0) w"
proof (cases "\<exists>r\<in>set (w_rotations w). r_ID r = rid")
  case True
  then obtain r where r: "r \<in> set (w_rotations w)" "r_ID r = rid" by blast
  with assms(1) have "\<forall>r'\<in>set (w_rotations w). r_ID r' = rid \<longrightarrow> r' = r"
    by (auto simp: rotations_ok_def distinct_map inj_on_def)
  then have "follows rid (snd (life_view w)) (\<lambda>st nk su wv. st = r_State r \<and> wv = r_Wave r) w"
    using assms(1) by (auto simp: follows_iff life_view_def)
  moreover have "Q (r_State r) (r_Wave r)"
    using r assms(2,3) by (auto simp: list_all_iff)
  ultimately show ?thesis using that by blast
next
  case False
  with assms(1) have "follows rid (snd (life_view w)) (\<lambda>st nk su wv. st = st1 \<and> wv = wv1) w"
    by (auto simp: follows_iff life_view_def)
  with assms(4) that show ?thesis by blast
qed


lemma one_row:
  assumes "rotations_ok w"
  obtains "filter (\<lambda>r. r_ID r = rid) (w_rotations w) = []"
  | r where "r \<in> set (w_rotations w)" "r_ID r = rid" "filter (\<lambda>r. r_ID r = rid) (w_rotations w) = [r]"
proof (cases "\<exists>r\<in>set (w_rotations w). r_ID r = rid")
  case True
  then obtain r where r: "r \<in> set (w_rotations w)" "r_ID r = rid" by blast
  have "distinct (map r_ID (w_rotations w))" using assms by (simp add: rotations_ok_def)
  from filter_unique [OF this r(1)] r(2) have "filter (\<lambda>x. r_ID x = rid) (w_rotations w) = [r]" by simp
  with r that show ?thesis by blast
qed (use that in \<open>auto simp: filter_empty_conv\<close>)

text \<open>C12. A rotation does not run for ever and is not forgotten.  When \<open>Step\<close> returns and asks to be called again, the
  rotation has strictly fewer steps left (\<open>steps_left\<close> counts them, two for each wave and at most seven more) or
  is waiting for its soak window; when it does not ask, the rotation has ended or waits for approval.\<close>

theorem steps_run_out:
  "upholds (\<lambda>w. rotations_ok w \<and> at_most n rid w) (Step E rid uid)
     (\<lambda>res w. case res of Inl _ \<Rightarrow> rotations_ok w
       | Inr (again, _) \<Rightarrow>
           if again then (0 < n \<and> at_most (n - 1) rid w) \<or> in_state rid [RotationSoaking] w
           else in_state rid [RotationCompleted, RotationAborted, RotationRolledBack, RotationFailed, RotationAwaiting] w)"
proof (rule upholdsI)
  fix w :: "'a world"
  assume w: "rotations_ok w \<and> at_most n rid w"
  let ?W = "snd (life_view w)" and ?w' = "snd (Step E rid uid w)"
  from w obtain st0 wv0 where n: "steps_left (last_wave rid ?W) st0 wv0 \<le> n"
      and f: "follows rid ?W (\<lambda>s nk su wv. s = st0 \<and> wv = wv0) w"
    by (auto simp: at_most_def elim!: follows_now [where Q = "\<lambda>s wv. steps_left (last_wave rid ?W) s wv \<le> n" and ?st1.0 = RotationCompleted])
  from upholdsD [OF Step_progress [of rid _ st0 wv0 E uid] f]
  have P: "follows rid ?W (progress (last_wave rid ?W) st0 wv0 (fst (Step E rid uid w))) ?w'" .
  then have W: "snd (life_view ?w') = ?W" by (simp add: follows_iff life_view_def)
  have row: "progress (last_wave rid ?W) st0 wv0 (fst (Step E rid uid w)) (r_State r) (r_NewKeyID r) (r_SoakUntil r) (r_Wave r)"
    if "r \<in> set (w_rotations ?w')" "r_ID r = rid" for r
    using P that by (auto simp: follows_iff)
  have ok: "rotations_ok ?w'" using P by (simp add: follows_iff)
  show "case fst (Step E rid uid w) of Inl _ \<Rightarrow> rotations_ok ?w'
       | Inr (again, _) \<Rightarrow>
           if again then (0 < n \<and> at_most (n - 1) rid ?w') \<or> in_state rid [RotationSoaking] ?w'
           else in_state rid [RotationCompleted, RotationAborted, RotationRolledBack, RotationFailed, RotationAwaiting] ?w'"
  proof (cases "fst (Step E rid uid w)")
    case (Inr x)
    obtain again d where x: "x = (again, d)" by (cases x)
    have ended: "RotationFinished st \<Longrightarrow> st \<in> {RotationCompleted, RotationAborted, RotationRolledBack, RotationFailed}" for st
      by (cases st) auto
    from ok show ?thesis
    proof (rule one_row [of _ rid])
      fix r
      assume r: "r \<in> set (w_rotations ?w')" "r_ID r = rid" "filter (\<lambda>r. r_ID r = rid) (w_rotations ?w') = [r]"
      with row [OF r(1,2)] n ended [of "r_State r"] show ?thesis
        by (auto simp: Inr x progress_def at_most_def in_state_def W)
    qed (simp add: Inr x in_state_def)
  qed (simp add: ok)
qed

end
