(* ===== verification/WorkerSafety.thy ===== *)
theory WorkerSafety
  imports Worker Lifecycle
begin

text \<open>
  What unattended work may do: the rotation table stays in order under every operation, a policy rotates only
  keys that are due, and where the code departs from what its comments promise.
\<close>

section \<open>The rotation table\<close>

lemma life_worker_reads [life_intros]:
  "keeps (sees P) (Users_List tenant)" "keeps (sees P) (DuePolicies now)" "keeps (sees P) (MarkPolicyRun polid nx)"
  "keeps (sees P) (Keys_List f)"
  unfolding Users_List_def DuePolicies_def MarkPolicyRun_def Keys_List_def
  by (intro keeps_intros life_intros keeps_sees_modify; simp add: life_view_def)+

lemma life_anyAdmin [life_intros]: "keeps (sees P) anyAdmin"
proof -
  have "keeps (sees P) (first_admin us)" for us
    by (induction us) (auto intro!: keeps_intros life_intros)
  then show ?thesis unfolding anyAdmin_def by (intro keeps_intros life_intros)
qed

lemma life_subjects [life_intros]:
  "keeps (sees P) (worker_subject uid)" "keeps (sees P) (policySubject p)" "keeps (sees P) (selectKeys t p)"
  unfolding worker_subject_def policySubject_def selectKeys_def select_key_def worker_subject_def
  by (intro keeps_intros life_intros)+

lemma rotations_tickPolicies: "keeps rotations_ok (tickPolicies parse)"
  unfolding tickPolicies_def runPolicy_def rotate_selected_def warn_def
  by (intro keeps_intros rotations_intros keeps_ignoring rotations_ok_life life_intros)

text \<open>C22. The rotation table stays in order: no operation of the rotation service, not the job handler nor the
  periodic ticks, whatever statements fail, leaves a rotation past planning without its successor key, a soaking
  one without the end of its window, or two rotations under one identifier.  The key service is not among them:
  deleting a successor key empties the column of the rotation that made it.\<close>

theorem rotation_rows_are_well_formed:
  "keeps rotations_ok (Plan s req) \<and> keeps rotations_ok (Start s rid) \<and> keeps rotations_ok (Approve s rid)
   \<and> keeps rotations_ok (Abort s rid reason) \<and> keeps rotations_ok (handleRotationStep E j)
   \<and> keeps rotations_ok tickSoak \<and> keeps rotations_ok (tickPolicies parse)"
  by (intro conjI rotations_intros rotations_tickPolicies)

section \<open>What a policy selects\<close>


definition rotatable :: "key \<Rightarrow> bool" where
  "rotatable k \<longleftrightarrow> k_Status k = KeyActive \<and> k_KeyClass k \<noteq> KeyClassBreakGlass \<and> k_HasPrivateKey k"



text \<open>The key table is \<open>ks\<close>, and every rotation that is not among \<open>old\<close> replaces a key that may be rotated unattended.\<close>

definition spares :: "key list \<Rightarrow> uuid list \<Rightarrow> 'h world \<Rightarrow> bool" where
  "spares ks old w \<longleftrightarrow> w_keys w = ks \<and> list_all (\<lambda>r. r_ID r \<in> set old
     \<or> list_ex (\<lambda>k. rotatable k \<and> r_OldKeyID r = Some (k_ID k)) ks) (w_rotations w)"

lemma spares_faults [simp]: "ignores_faults (spares ks old)"
  by (simp add: ignores_faults_def spares_def)

named_theorems spares_intros "programs that add no rotation"

lemma spares_select [spares_intros]: "keeps (spares ks old) (select_one tab P)"
  and spares_get [spares_intros]: "keeps (spares ks old) (stmt (get f))"
  by (intro keeps_select_one keeps_stmt keeps_get spares_faults)+

lemma spares_time [spares_intros]: "keeps (spares ks old) time_Now"
  and spares_uuid [spares_intros]: "keeps (spares ks old) uuid_New"
  by (auto simp: time_Now_def uuid_New_def upholds_def spares_def split: list.splits)

lemma spares_side_channels [spares_intros]:
  "keeps (spares ks old) (record_audit ev)" "keeps (spares ks old) (emit ty i)" "keeps (spares ks old) (logf msg)"
  unfolding record_audit_def audit_Log_def emit_def logf_def
  by (intro keeps_ignoring keeps_stmt keeps_modify spares_faults; simp add: spares_def)+

lemma spares_warn [spares_intros]: "keeps (spares ks old) m \<Longrightarrow> keeps (spares ks old) (warn m)"
  unfolding warn_def by (rule keeps_ignoring)

lemma spares_writes [spares_intros]:
  "keeps (spares ks old) (remember rid prm)" "keeps (spares ks old) (AddRotationTarget rt)"
  "keeps (spares ks old) (MarkPolicyRun polid nx)"
  unfolding remember_def AddRotationTarget_def MarkPolicyRun_def Let_def
  by (intro keeps_stmt keeps_modify spares_faults; simp add: spares_def)+

lemma spares_SetRotationState [spares_intros]: "keeps (spares ks old) (SetRotationState rid frm to msg)"
  unfolding SetRotationState_def
  by (intro keeps_update_returning spares_faults) (auto simp: spares_def upd_where_def list_all_iff)

lemma spares_Enqueue [spares_intros]: "keeps (spares ks old) (Enqueue j)"
  unfolding Enqueue_def insert_job_def byIdempotencyKey_def
  by (intro keeps_intros spares_intros keeps_stmt spares_faults; auto simp: upholds_def spares_def Let_def split: list.split)

lemma spares_reads [spares_intros]:
  "keeps (spares ks old) (Users_List tenant)" "keeps (spares ks old) (DuePolicies now)" "keeps (spares ks old) (Keys_List f)"
  "keeps (spares ks old) (LoadSubject tenant uid)" "keeps (spares ks old) (Keys_Get tenant kid)" "keeps (spares ks old) (Assignments_List af)"
  "keeps (spares ks old) (ListRotationTargets rid)" "keeps (spares ks old) (WaveTargets rid wv sts)"
  "keeps (spares ks old) (Consumers_List tenant okid)" "keeps (spares ks old) (GetRotation tenant rid)" "keeps (spares ks old) (Targets_Get tenant tid)"
  unfolding Users_List_def DuePolicies_def Keys_List_def LoadSubject_def Keys_Get_def Assignments_List_def ListRotationTargets_def
    WaveTargets_def Consumers_List_def GetRotation_def Targets_Get_def
  by (intro keeps_intros spares_intros)+





end
