(* ===== verification/KeyRewrap.thy ===== *)
theory KeyRewrap
  imports RotationLinux
begin

text \<open>
  \<open>RotateKEK\<close> of \<open>service/keys.go\<close> run to its end: the batches shrink what is left to rewrap, so the loop
  stops, and then nothing is left under an older key-encryption key.
\<close>

definition needing :: "int \<Rightarrow> (uuid \<times> sealed) list \<Rightarrow> (uuid \<times> sealed) list" where
  "needing cur rows = filter (\<lambda>m. KEKVersion (snd m) < cur) rows"

text \<open>Every row is one of the old ones, or what \<open>Rewrap\<close> makes of an old one of an earlier version.\<close>

definition rewrapped_from :: "('h, 'p) env \<Rightarrow> (uuid \<times> sealed) list \<Rightarrow> (uuid \<times> sealed) list \<Rightarrow> bool" where
  "rewrapped_from E old rows \<longleftrightarrow> map fst rows = map fst old
     \<and> (\<forall>(kid, m')\<in>set rows. \<exists>m. (kid, m) \<in> set old \<and> (m' = m \<or> KEKVersion m < current (env_vault E)
          \<and> KEKVersion m' = current (env_vault E) \<and> (\<exists>nonce. Rewrap (env_aead E) (env_vault E) nonce m (uuid_String kid) = Inr m')))"

lemma rewrapped_from_refl: "rewrapped_from E rows rows"
  by (auto simp: rewrapped_from_def)

lemma rewrapped_from_trans: "rewrapped_from E a b \<Longrightarrow> rewrapped_from E b c \<Longrightarrow> rewrapped_from E a c"
  unfolding rewrapped_from_def by (fastforce split: prod.splits)

text \<open>A run without faults that touches the key material only.\<close>

definition quiet :: "'h world \<Rightarrow> 'h world \<Rightarrow> bool" where
  "quiet w w' \<longleftrightarrow> w_faults w' = [] \<and> w_credentials w' = w_credentials w \<and> w_keys w' = w_keys w"

definition openable :: "('h, 'p) env \<Rightarrow> (uuid \<times> sealed) list \<Rightarrow> bool" where
  "openable E rows \<longleftrightarrow> (\<forall>(kid, m)\<in>set (needing (current (env_vault E)) rows).
     \<forall>i. is_ok (Rewrap (env_aead E) (env_vault E) (rnd_Nonce1 (env_entropy E i)) m (uuid_String kid)))"

lemma Rewrap_version: "Rewrap A v n s aad = Inr s' \<Longrightarrow> KEKVersion s' = current v"
  by (auto simp: Rewrap_def split: if_splits option.splits)

lemma openable_from:
  assumes "openable E a" "rewrapped_from E a b"
  shows "openable E b"
  using assms unfolding openable_def rewrapped_from_def needing_def
  by (fastforce split: prod.splits)

lemma needing_upd_where:
  "\<not> KEKVersion m < cur \<Longrightarrow> needing cur (upd_where (\<lambda>x. fst x = kid) (\<lambda>_. (kid, m)) rows) = filter (\<lambda>x. fst x \<noteq> kid) (needing cur rows)"
  by (induction rows) (auto simp: needing_def upd_where_def)

lemma rewrap_one_run:
  assumes "w_faults w = []" and "distinct (map fst (w_material w))" and "(kid, m) \<in> set (needing (current (env_vault E)) (w_material w))"
    and "openable E (w_material w)"
  obtains w' where "rewrap_one E kid n w = (Inr (Suc n), w')" "quiet w w'"
    "rewrapped_from E (w_material w) (w_material w')"
    "needing (current (env_vault E)) (w_material w') = filter (\<lambda>x. fst x \<noteq> kid) (needing (current (env_vault E)) (w_material w))"
proof -
  let ?cur = "current (env_vault E)" and ?nonce = "rnd_Nonce1 (env_entropy E (w_next w))"
  have m: "(kid, m) \<in> set (w_material w)" "KEKVersion m < ?cur" using assms(3) by (auto simp: needing_def)
  have "is_ok (Rewrap (env_aead E) (env_vault E) ?nonce m (uuid_String kid))"
    using assms(3,4) by (auto simp: openable_def)
  then obtain m' where m': "Rewrap (env_aead E) (env_vault E) ?nonce m (uuid_String kid) = Inr m'"
    by (auto simp: is_ok_def split: sum.splits)
  have only: "x = (kid, m)" if "x \<in> set (w_material w)" "fst x = kid" for x
    using assms(2) m(1) that by (force simp: distinct_map inj_on_def)
  have find: "List.find (\<lambda>m. fst m = kid) (w_material w) = Some (kid, m)"
  proof (cases "List.find (\<lambda>m. fst m = kid) (w_material w)")
    case None
    with m(1) show ?thesis by (auto simp: find_None_iff)
  next
    case (Some x)
    then have "x \<in> set (w_material w)" "fst x = kid" by (auto simp: find_Some_iff)
    with Some only show ?thesis by simp
  qed
  let ?rows = "upd_where (\<lambda>m. fst m = kid) (\<lambda>_. (kid, m')) (w_material w)"
  let ?w' = "w\<lparr>w_next := Suc (w_next w), w_material := ?rows\<rparr>"
  have here: "list_ex (\<lambda>m. fst m = kid) (w_material w)" using m(1) by (force simp: list_ex_iff)
  have run: "rewrap_one E kid n w = (Inr (Suc n), ?w')"
    using assms(1) here
    by (simp add: rewrap_one_def LoadMaterial_def select_one_def draw_def StoreMaterial_def prog_simps find m')
  have ids: "map fst ?rows = map fst (w_material w)" by (auto simp: upd_where_def)
  have "\<exists>m0. (i, m0) \<in> set (w_material w) \<and> (x = m0 \<or> KEKVersion m0 < ?cur \<and> KEKVersion x = ?cur
      \<and> (\<exists>nonce. Rewrap (env_aead E) (env_vault E) nonce m0 (uuid_String i) = Inr x))" if "(i, x) \<in> set ?rows" for i x
    using that m m' Rewrap_version [OF m'] by (auto simp: upd_where_def split: if_splits)
  with ids have src: "rewrapped_from E (w_material w) ?rows"
    by (auto simp: rewrapped_from_def)
  have "needing ?cur ?rows = filter (\<lambda>x. fst x \<noteq> kid) (needing ?cur (w_material w))"
    by (rule needing_upd_where) (simp add: Rewrap_version [OF m'])
  with src run show ?thesis
    by (intro that [of ?w']) (simp_all add: quiet_def assms(1))
qed

lemma rewrap_batch_run:
  assumes "w_faults w = []" and "distinct (map fst (w_material w))" and "distinct batch"
    and "set batch \<subseteq> fst ` set (needing (current (env_vault E)) (w_material w))" and "openable E (w_material w)"
  obtains w' where "foldEach batch n (\<lambda>kid n. rewrap_one E kid n) w = (Inr (n + length batch), w')" "quiet w w'"
    "rewrapped_from E (w_material w) (w_material w')"
    "needing (current (env_vault E)) (w_material w') = filter (\<lambda>x. fst x \<notin> set batch) (needing (current (env_vault E)) (w_material w))"
  using assms
proof (induction batch arbitrary: n w thesis)
  case Nil
  then show ?case by (simp add: ret_def quiet_def rewrapped_from_refl)
next
  case (Cons kid batch)
  let ?cur = "current (env_vault E)"
  from Cons.prems(5) obtain m where m: "(kid, m) \<in> set (needing ?cur (w_material w))" by auto
  obtain w1 where 1: "rewrap_one E kid n w = (Inr (Suc n), w1)" "quiet w w1" "rewrapped_from E (w_material w) (w_material w1)"
      "needing ?cur (w_material w1) = filter (\<lambda>x. fst x \<noteq> kid) (needing ?cur (w_material w))"
    using rewrap_one_run [OF Cons.prems(2,3) m Cons.prems(6)] .
  have "w_faults w1 = []" using 1(2) by (simp add: quiet_def)
  moreover have "distinct (map fst (w_material w1))" using 1(3) Cons.prems(3) by (simp add: rewrapped_from_def)
  moreover have "set batch \<subseteq> fst ` set (needing ?cur (w_material w1))"
    unfolding 1(4) using Cons.prems(4,5) by fastforce
  moreover have "openable E (w_material w1)" by (rule openable_from [OF Cons.prems(6) 1(3)])
  ultimately obtain w2 where 2: "foldEach batch (Suc n) (\<lambda>kid n. rewrap_one E kid n) w1 = (Inr (Suc n + length batch), w2)"
      "quiet w1 w2" "rewrapped_from E (w_material w1) (w_material w2)"
      "needing ?cur (w_material w2) = filter (\<lambda>x. fst x \<notin> set batch) (needing ?cur (w_material w1))"
    using Cons.IH [where n = "Suc n" and w = w1] Cons.prems(4) by (metis distinct.simps(2))
  show ?case
  proof (rule Cons.prems(1))
    show "foldEach (kid # batch) n (\<lambda>kid n. rewrap_one E kid n) w = (Inr (n + length (kid # batch)), w2)"
      using 1(1) 2(1) by (simp add: andThen_def)
    show "quiet w w2" using 1(2) 2(2) by (simp add: quiet_def)
    show "rewrapped_from E (w_material w) (w_material w2)" by (rule rewrapped_from_trans [OF 1(3) 2(3)])
    show "needing ?cur (w_material w2) = filter (\<lambda>x. fst x \<notin> set (kid # batch)) (needing ?cur (w_material w))"
      unfolding 2(4) 1(4) by (auto intro: filter_cong)
  qed
qed

text \<open>Each batch takes at least one row off what is left, so as many rounds as there are rows, and one, are enough.\<close>

lemma rewrap_loop_run:
  assumes "w_faults w = []" and "distinct (map fst (w_material w))" and "openable E (w_material w)"
    and "length (needing (current (env_vault E)) (w_material w)) < fuel"
  obtains w' where "rewrap_loop fuel E (current (env_vault E)) n w = (Inr (n + length (needing (current (env_vault E)) (w_material w))), w')"
    "quiet w w'" "rewrapped_from E (w_material w) (w_material w')" "needing (current (env_vault E)) (w_material w') = []"
  using assms
proof (induction fuel arbitrary: n w thesis)
  case (Suc fuel)
  let ?cur = "current (env_vault E)"
  let ?need = "needing ?cur (w_material w)"
  let ?batch = "take 100 (sort (map fst ?need))"
  have query: "MaterialNeedingRewrap ?cur 100 w = (Inr ?batch, w)"
    using Suc.prems(2) by (simp add: MaterialNeedingRewrap_def needing_def prog_simps)
  show ?case
  proof (cases "?need = []")
    case True
    then show ?thesis
      using Suc.prems(1) query Suc.prems(2) by (simp add: andThen_def ret_def quiet_def rewrapped_from_refl)
  next
    case False
    then have some: "?batch \<noteq> []" by (simp flip: length_greater_0_conv)
    have "distinct (map fst ?need)" using Suc.prems(3) by (auto simp: needing_def distinct_map intro: inj_on_subset)
    then have dist: "distinct ?batch" by simp
    have sub: "set ?batch \<subseteq> fst ` set ?need" by (auto dest: in_set_takeD)
    obtain w1 where 1: "foldEach ?batch n (\<lambda>kid n. rewrap_one E kid n) w = (Inr (n + length ?batch), w1)" "quiet w w1"
        "rewrapped_from E (w_material w) (w_material w1)"
        "needing ?cur (w_material w1) = filter (\<lambda>x. fst x \<notin> set ?batch) ?need"
      using rewrap_batch_run [OF Suc.prems(2,3) dist sub Suc.prems(4)] .
    have size: "length ?batch + length (needing ?cur (w_material w1)) = length ?need"
    proof -
      have "length (filter (\<lambda>x. fst x \<in> set ?batch) ?need) = card (set ?batch)"
      proof -
        have "fst ` set (filter (\<lambda>x. fst x \<in> set ?batch) ?need) = set ?batch" using sub by auto
        moreover have "distinct (map fst (filter (\<lambda>x. fst x \<in> set ?batch) ?need))"
          using \<open>distinct (map fst ?need)\<close> by (rule distinct_map_filter)
        ultimately show ?thesis using distinct_card [of "map fst (filter (\<lambda>x. fst x \<in> set ?batch) ?need)"] by simp
      qed
      also have "\<dots> = length ?batch" by (rule distinct_card [OF dist])
      finally show ?thesis
        unfolding 1(4) using sum_length_filter_compl [of "\<lambda>x. fst x \<in> set ?batch" ?need] by simp
    qed
    have less: "length (needing ?cur (w_material w1)) < fuel"
      using size Suc.prems(5) some by (simp flip: length_greater_0_conv)
    have "w_faults w1 = []" "distinct (map fst (w_material w1))"
      using 1(2,3) Suc.prems(3) by (simp_all add: quiet_def rewrapped_from_def)
    then obtain w2 where 2: "rewrap_loop fuel E ?cur (n + length ?batch) w1 = (Inr (n + length ?batch + length (needing ?cur (w_material w1))), w2)"
        "quiet w1 w2" "rewrapped_from E (w_material w1) (w_material w2)" "needing ?cur (w_material w2) = []"
      using Suc.IH [where n = "n + length ?batch" and w = w1, OF _ _ _ openable_from [OF Suc.prems(4) 1(3)] less] by metis
    show ?thesis
    proof (rule Suc.prems(1))
      show "rewrap_loop (Suc fuel) E ?cur n w = (Inr (n + length ?need), w2)"
        using query some 1(1) 2(1) size by (simp add: andThen_def add.assoc)
      show "quiet w w2" using 1(2) 2(2) by (simp add: quiet_def)
      show "rewrapped_from E (w_material w) (w_material w2)" by (rule rewrapped_from_trans [OF 1(3) 2(3)])
    qed (rule 2(4))
  qed
qed simp

section \<open>Properties\<close>

text \<open>C21. Rotating the key-encryption key reaches every key.  Without faults, for a subject that may and with a vault that can
  open what is stored, \<open>RotateKEK\<close> ends, with more fuel than there are rows to rewrap, and reports exactly their number;
  afterwards no key's material is under an older version, every row is the one it was or what \<open>Rewrap\<close> made of it,
  none is lost or added, and the secrets of the credentials, which are sealed by the same vault,
  have not been touched.\<close>

theorem rotate_kek_completes:
  assumes "w_faults w = []" and "distinct (map fst (w_material w))" and "openable E (w_material w)"
    and "is_ok (RequireFresh (clock_read w) s PermVaultRotate MFAWindow)" and "current (env_vault E) \<noteq> 0"
    and "length (needing (current (env_vault E)) (w_material w)) < fuel"
  shows "\<exists>w'. RotateKEK fuel E s w = (Inr (length (needing (current (env_vault E)) (w_material w))), w')
     \<and> needing (current (env_vault E)) (w_material w') = []
     \<and> rewrapped_from E (w_material w) (w_material w')
     \<and> w_credentials w' = w_credentials w"
proof -
  let ?cur = "current (env_vault E)"
  let ?w0 = "clock_moved w"
  have 0: "w_faults ?w0 = []" "w_material ?w0 = w_material w" "w_credentials ?w0 = w_credentials w"
    using assms(1) by (simp_all add: clock_moved_def split: list.split)
  obtain w1 where 1: "rewrap_loop fuel E ?cur 0 ?w0 = (Inr (0 + length (needing ?cur (w_material ?w0))), w1)" "quiet ?w0 w1"
      "rewrapped_from E (w_material ?w0) (w_material w1)" "needing ?cur (w_material w1) = []"
    using rewrap_loop_run [of ?w0 E fuel 0] 0 assms(2,3,6) by metis
  have now: "time_Now w = (Inr (clock_read w), ?w0)"
    by (simp add: time_Now_def clock_read_def clock_moved_def split: list.split)
  obtain l where audit: "record_audit (audit_by s ''vault.rotate_kek'' None ''success'' []) w1 = (Inr (), w1\<lparr>w_audit := l\<rparr>)"
    using 1(2) by (simp add: record_audit_def audit_Log_def ignoring_def quiet_def prog_simps)
  have "RotateKEK fuel E s w = (Inr (length (needing ?cur (w_material w))), w1\<lparr>w_audit := l\<rparr>)"
    using assms(4,5) 1(1) 0 audit
    by (auto simp: RotateKEK_def guard_audited_def CurrentVersion_def is_ok_def andThen_def ret_def now Let_def split: sum.splits)
  with 1 0 show ?thesis by (auto simp: quiet_def)
qed

text \<open>One row under the first key and one under the second, which is current.\<close>

definition stored :: "int \<Rightarrow> uuid \<Rightarrow> uuid \<times> sealed" where
  "stored ver i = (i, \<lparr>KEKVersion = ver, WrappedDEK = replicate 12 (CHR ''m'') @ replicate 32 (CHR ''d'') @ toy_tag (uuid_String i),
     Ciphertext = ''c''\<rparr>)"

definition stock :: "hosts world" where
  "stock = (blank (toy_hosts ''u'' [] []))\<lparr>w_material := [stored 1 6, stored 2 7]\<rparr>"

definition custodian :: subject where
  "custodian = (NewSubject 2 1 ''op'' AllPermissions [] [])\<lparr>MFAVerifiedAt := Some 0\<rparr>"

theorem rotate_kek_completes_witness:
  "\<exists>w'. RotateKEK 2 toy_env custodian stock = (Inr 1, w') \<and> needing 2 (w_material w') = []"
proof -
  have v: "current (env_vault toy_env) = 2" "env_vault toy_env = toy_vault" "env_aead toy_env = toy_aead"
    "env_entropy toy_env = (\<lambda>_. toy_entropy)"
    by (simp_all add: toy_env_def toy_vault_def)
  have c: "current toy_vault = 2" by (simp add: toy_vault_def)
  have m: "w_material stock = [stored 1 6, stored 2 7]" by (simp add: stock_def)
  have n: "needing 2 (w_material stock) = [stored 1 6]" by (simp add: m needing_def stored_def)
  have "is_ok (Rewrap toy_aead toy_vault (rnd_Nonce1 toy_entropy) (snd (stored 1 6)) (uuid_String 6))"
    by (simp add: stored_def Rewrap_def toy_vault_def aeadOpen_def aeadSeal_def toy_entropy_def KeyLen_def NonceSize_def
        Overhead_def toy_aead_def)
  then have "openable toy_env (w_material stock)"
    unfolding openable_def v c n by (simp add: stored_def)
  moreover have "is_ok (RequireFresh (clock_read stock) custodian PermVaultRotate MFAWindow)"
    by code_simp
  moreover have "distinct (map fst (w_material stock))" by (simp add: m stored_def)
  moreover have "w_faults stock = []" by (simp add: stock_def blank_def)
  ultimately show ?thesis
    using rotate_kek_completes [of stock toy_env custodian 2] unfolding v c n by auto
qed

end
