(* ===== verification/Spec2Isabelle.thy ===== *)
theory Spec2Isabelle
  imports RotationLinux AuditChain ReconcileSafety ReconcileReport AuthSafety UserSafety WorkerSafety KeyRewrap
begin

text \<open>
  SKM is a server that manages SSH keys: it generates or imports key pairs, seals the private
  halves, writes the public halves into \<open>authorized_keys\<close> files of remote machines, and replaces
  keys without locking anybody out.  This library models the Go server under
  \<open>src/backend/internal\<close> and proves what makes it correct.

  \<^bold>\<open>The parts and how they call each other.\<close>  The auth service turns a password,
  a session token or an API token into a subject, whose permissions every service checks; the user service
  administers accounts, roles and tokens.  The key service creates, reveals, revokes and deletes keys through the vault; the
  deploy service makes one login of one target hold the keys assigned to it, through a connector;
  the rotation service replaces a key by a state machine whose steps are jobs of the queue and
  which deploys, verifies, hands the new key to consumers and retires the old one; the queue and
  its runner execute the steps with retries; reconciliation compares the files of the hosts with
  the assignments and heals or reports the difference; the worker handles the jobs and fires the schedules
  on behalf of the users who asked for them; every service appends to the audit log.  All of them share
  one database.

  \<^bold>\<open>The state.\<close>  \<open>World.world\<close> is the database of \<open>internal/store\<close> (one list of rows per table, one record per
  row type), the rotation parameter cache of the process, the clock, and the remote hosts as an
  abstract value \<open>'h\<close> that only connectors change.  A Go function that uses the database is a program
  (\<open>Prelude.prog\<close>) from a world to a result and a world; an error value keeps the world, because the
  code runs its statements outside a transaction.  Every statement consumes an entry of a fault schedule
  (\<open>World.stmt\<close>): it works, fails, works but its reply is lost, or the process dies there.
  Theorems about programs hold for every schedule.

  \<^bold>\<open>Theories and the code they model.\<close>
  \<^item> \<open>Prelude\<close>: identifiers, errors, the program combinators, \<open>keeps\<close> (an invariant under every outcome)
    and \<open>wlp\<close> (a fact about returned values) with their rules.
  \<^item> \<open>GoLib\<close>, \<open>Base64\<close>: what the source uses of Go's \<open>strings\<close> and \<open>base64\<close> packages.
  \<^item> \<open>Authz\<close>: \<open>authz/permissions.go\<close>, \<open>authz/subject.go\<close>.
  \<^item> \<open>AuthKeys\<close>: \<open>keys/algorithm.go\<close>, \<open>keys/authorized.go\<close>.
  \<^item> \<open>Diff\<close>: \<open>diff/diff.go\<close>.  \<open>Cronx\<close>: \<open>cronx/cronx.go\<close>.
  \<^item> \<open>World\<close>, \<open>Store\<close>: the rows and statements of \<open>store/*.go\<close>.
  \<^item> \<open>Vault\<close>: \<open>vault/vault.go\<close> over an abstract AEAD.  \<open>KeyService\<close>: \<open>keys/keypair.go\<close>, \<open>service/keys.go\<close>.
  \<^item> \<open>AuditChain\<close>: \<open>audit/*.go\<close>, and the client address of \<open>api/server.go\<close>.
  \<^item> \<open>Connector\<close>: \<open>connectors/connector.go\<close>; its locale is the contract a connector keeps.
  \<^item> \<open>Shell\<close>, \<open>Linux\<close>, \<open>LinuxSafety\<close>: \<open>connectors/linux/*.go\<close> and \<open>sshx/sshx.go\<close> against hosts with files.
  \<^item> \<open>Deploy\<close>, \<open>DeploySafety\<close>: \<open>service/deploy.go\<close>.  \<open>ConsumerService\<close>: \<open>service/consumers.go\<close>.
  \<^item> \<open>JobQueue\<close>: \<open>store/jobs.go\<close>, \<open>jobs/runner.go\<close>.
  \<^item> \<open>Rotation\<close>, \<open>RotationSafety\<close>, \<open>RotationLinux\<close>: \<open>service/rotation.go\<close>, the rotation handlers of
    \<open>service/worker.go\<close>, and the engine over the linux connector.  \<open>Lifecycle\<close>: the graph of the rotation
    states, which step follows which, and a measure that bounds the steps left.
  \<^item> \<open>Reconcile\<close>: \<open>service/reconcile.go\<close>, \<open>store/discovery.go\<close>.  \<open>ReconcileReport\<close>: what a comparison
    reports and records; \<open>ReconcileSafety\<close>: what healing leaves on the hosts.
  \<^item> \<open>Totp\<close>, \<open>Password\<close>: \<open>auth/totp.go\<close>, \<open>auth/password.go\<close>.  \<open>Accounts\<close>: \<open>store/users.go\<close>,
    \<open>store/tokens.go\<close>.  \<open>AuthService\<close>, \<open>AuthSafety\<close>: \<open>service/auth.go\<close>.  \<open>UserService\<close>, \<open>UserSafety\<close>:
    \<open>service/users.go\<close>.
  \<^item> \<open>Worker\<close>, \<open>WorkerSafety\<close>: \<open>service/worker.go\<close>, its job handlers and periodic tasks, and the invariant of the
    rotation table over all of them.
  \<^item> \<open>KeyRewrap\<close>: the rotation of the key-encryption key in \<open>service/keys.go\<close>, run to its end.

  \<^bold>\<open>What the lemmas show.\<close>  For the hosts: an apply keeps a login reachable, removes only managed keys, and its
  success means the planned file is there.  For the engine: a rotation never removes the old key where the new one
  was not proved to work, follows its life cycle, and takes a bounded number of steps outside the soak.
  For reconciliation: exactly what it reports, and that keys it does not know survive.  For access: a login
  or a token gives rights only on a valid password, second factor, clock and row; guessing is bounded; the
  console never loses its last administrator.  For the vault: round trips, and a rewrap that leaves every
  secret under the new version.  For the audit log: the chain is kept, and tampering shows.  For the queue: its
  invariant and idempotence.  For the pure parts: quoting, parsing, differences, cron, passwords and
  one-time codes meet their specifications.  A few properties state behaviour that surprises a reader of the
  documentation; each says so in its text.

  \<^bold>\<open>Contracts.\<close>  The locale \<open>key_connector\<close> states what a connector promises; it is interpreted on the linux
  connector.  The locale \<open>connected\<close> says that an environment's registry serves such connectors, and \<open>fleet\<close> extends it by what
  an environment promises the deploy service; rotation and reconciliation safety are proved in them and read
  off at the linux connector.  The AEAD, the hash, the SSH library, the crypto library and the network are
  parameters (\<open>auth_lib\<close> bundles HMAC, SHA-256, Argon2, the random source and the parsers of addresses,
  durations and identifiers); what the code relies on of them is a named hypothesis.  The order in which Go
  visits a map is a parameter \<open>ord\<close>.  Go's formatted scan is modelled on the shapes the source scans.

  \<^bold>\<open>Bounds and fuel.\<close>  The listing of managed fingerprints stops after as many pages as there are keys plus one,
  which is enough because a page that is not the last holds 500 of them.  The rewrapping loop stops
  with an error when its fuel runs out; \<open>KeyRewrap\<close> proves that one more than the number of rows still to be
  rewrapped is enough.  The back-off loop has as much fuel as the attempts it counts.  The cron search stops at its
  five-year limit by a measure.  Times are integers in nanoseconds; an overflow is modelled where the code
  can reach it (cron steps).

  \<^bold>\<open>Not modelled.\<close>  HTTP encoding and routing, SQL text and migrations, goroutines, timeouts, metrics and
  logging text, backups, webhooks and their delivery, the connectors other than linux, the sinks of
  consumers, configuration and start-up, the command-line client, and the parts of the components that PROJECT.json names.
\<close>

end
